(* ===== verification/Kennel_Prelude.thy ===== *)
theory Kennel_Prelude
  imports Main "HOL-Library.Word" "HOL-Library.Monad_Syntax"
begin

unbundle bit_operations_syntax

text \<open>
  The vocabulary every component shares: the machine integers of the code as words, Rust's
  bounds-checked slice reads as \<open>option\<close> values, the big-endian and little-endian byte orders of
  the wire formats, Rust's saturating arithmetic, and the generic lemmas on them. Lengths and
  indices (\<open>usize\<close>) are natural numbers: a slice never holds more than \<open>isize::MAX\<close> bytes, so the
  additions of small constants to a length that the code checks or saturates do not overflow.
  The collections \<open>slice_simps\<close> and \<open>byte_simps\<close> carry the component proofs.
\<close>

named_theorems slice_simps \<open>rewriting of bounds-checked reads\<close>
named_theorems byte_simps \<open>byte-order conversions\<close>

type_synonym u8 = "8 word"
type_synonym u16 = "16 word"
type_synonym u32 = "32 word"
type_synonym u64 = "64 word"
type_synonym bytes = "u8 list"

section \<open>Bounds-checked reads\<close>

text \<open>\<open>slice.get(i)\<close>\<close>

definition get_at :: "'a list \<Rightarrow> nat \<Rightarrow> 'a option" where
  "get_at xs i = (if i < length xs then Some (xs ! i) else None)"

text \<open>\<open>slice.get(a..b)\<close>: \<open>None\<close> when the range is inverted or runs past the end.\<close>

definition get_range :: "'a list \<Rightarrow> nat \<Rightarrow> nat \<Rightarrow> 'a list option" where
  "get_range xs a b = (if a \<le> b \<and> b \<le> length xs then Some (take (b - a) (drop a xs)) else None)"

text \<open>\<open>slice.get(a..)\<close>\<close>

definition get_from :: "'a list \<Rightarrow> nat \<Rightarrow> 'a list option" where
  "get_from xs a = (if a \<le> length xs then Some (drop a xs) else None)"

lemma get_at_Some_iff [slice_simps]: "get_at xs i = Some x \<longleftrightarrow> i < length xs \<and> xs ! i = x"
  by (auto simp: get_at_def)

lemma get_at_None_iff [slice_simps]: "get_at xs i = None \<longleftrightarrow> length xs \<le> i"
  by (auto simp: get_at_def)

lemma get_range_Some_iff [slice_simps]:
  "get_range xs a b = Some ys \<longleftrightarrow> a \<le> b \<and> b \<le> length xs \<and> ys = take (b - a) (drop a xs)"
  by (auto simp: get_range_def)

lemma get_range_length: "get_range xs a b = Some ys \<Longrightarrow> length ys = b - a"
  by (auto simp: get_range_def split: if_splits)

lemma get_from_Some_iff [slice_simps]:
  "get_from xs a = Some ys \<longleftrightarrow> a \<le> length xs \<and> ys = drop a xs"
  by (auto simp: get_from_def)

text \<open>A read inside a prefix or suffix of known length: how a decoder meets an encoder.\<close>

lemma get_at_append [slice_simps]:
  "get_at (xs @ ys) i = (if i < length xs then get_at xs i else get_at ys (i - length xs))"
  by (auto simp: get_at_def nth_append)

lemma get_range_append_skip [slice_simps]:
  "length xs \<le> a \<Longrightarrow> a \<le> b \<Longrightarrow> get_range (xs @ ys) a b = get_range ys (a - length xs) (b - length xs)"
  by (auto simp: get_range_def)

lemma get_range_append_exact:
  "length xs = n \<Longrightarrow> get_range (xs @ ys) 0 n = Some xs"
  by (auto simp: get_range_def)

lemma get_from_append_skip [slice_simps]:
  "length xs \<le> a \<Longrightarrow> get_from (xs @ ys) a = get_from ys (a - length xs)"
  by (auto simp: get_from_def)

section \<open>Options\<close>

text \<open>\<open>Option::or\<close> and \<open>or_else\<close>: the first value present.\<close>

fun or_else :: "'a option \<Rightarrow> 'a option \<Rightarrow> 'a option" where
  "or_else (Some x) b = Some x"
| "or_else None b = b"

lemma or_else_None [simp]: "or_else a None = a"
  by (cases a) simp_all

lemma or_else_assoc: "or_else (or_else a b) c = or_else a (or_else b c)"
  by (cases a) simp_all

section \<open>Saturating arithmetic\<close>

definition u32_max :: nat where "u32_max = 2 ^ 32 - 1"
definition u64_max :: nat where "u64_max = 2 ^ 64 - 1"
definition u128_max :: nat where "u128_max = 2 ^ 128 - 1"

text \<open>
  \<open>saturating_add\<close> and \<open>saturating_mul\<close> of an unsigned type with the given largest value.
  \<open>saturating_sub\<close> is the truncating subtraction of \<open>nat\<close>.
\<close>

definition sat_add :: "nat \<Rightarrow> nat \<Rightarrow> nat \<Rightarrow> nat" where
  "sat_add hi a b = min hi (a + b)"

definition sat_mul :: "nat \<Rightarrow> nat \<Rightarrow> nat \<Rightarrow> nat" where
  "sat_mul hi a b = min hi (a * b)"

lemma sat_add_le [simp]: "sat_add hi a b \<le> hi" and sat_mul_le [simp]: "sat_mul hi a b \<le> hi"
  by (simp_all add: sat_add_def sat_mul_def)

lemma sat_add_eq [simp]: "a + b \<le> hi \<Longrightarrow> sat_add hi a b = a + b"
  by (simp add: sat_add_def)

lemma sat_mul_eq [simp]: "a * b \<le> hi \<Longrightarrow> sat_mul hi a b = a * b"
  by (simp add: sat_mul_def)

lemma sat_add_le_sum: "sat_add hi a b \<le> a + b" and sat_mul_le_prod: "sat_mul hi a b \<le> a * b"
  by (simp_all add: sat_add_def sat_mul_def)

section \<open>Byte orders\<close>

text \<open>
  \<open>be_bytes n x\<close> are the last \<open>n\<close> base-256 digits of \<open>x\<close>, most significant first, and \<open>be_val\<close>
  reads them back: \<open>to_be_bytes\<close> and \<open>from_be_bytes\<close> of every width are instances. Little-endian
  is the reverse.
\<close>

fun be_bytes :: "nat \<Rightarrow> nat \<Rightarrow> bytes" where
  "be_bytes 0 x = []"
| "be_bytes (Suc n) x = be_bytes n (x div 256) @ [word_of_nat x]"

fun be_val_acc :: "nat \<Rightarrow> bytes \<Rightarrow> nat" where
  "be_val_acc acc [] = acc"
| "be_val_acc acc (b # bs) = be_val_acc (acc * 256 + unat b) bs"

definition be_val :: "bytes \<Rightarrow> nat" where
  "be_val bs = be_val_acc 0 bs"

lemma length_be_bytes [simp]: "length (be_bytes n x) = n"
  by (induction n arbitrary: x) simp_all

lemma be_val_acc_snoc: "be_val_acc acc (bs @ [b]) = be_val_acc acc bs * 256 + unat b"
  by (induction bs arbitrary: acc) simp_all

lemma be_val_Nil [simp]: "be_val [] = 0"
  by (simp add: be_val_def)

lemma be_val_snoc: "be_val (bs @ [b]) = be_val bs * 256 + unat b"
  by (simp add: be_val_def be_val_acc_snoc)

lemma unat_u8_lt: "unat (b :: u8) < 256"
  and unat_u16_lt: "unat (w :: u16) < 65536"
  and unat_u32_lt: "unat (v :: u32) < 4294967296"
  and unat_u64_lt: "unat (z :: u64) < 18446744073709551616"
  using unsigned_less [of b, where 'a = nat] unsigned_less [of w, where 'a = nat]
    unsigned_less [of v, where 'a = nat] unsigned_less [of z, where 'a = nat] by simp_all

lemma unat_of_nat_u8: "unat (word_of_nat x :: u8) = x mod 256"
  by (simp add: unat_of_nat)

lemma be_val_be_bytes: "be_val (be_bytes n x) = x mod 256 ^ n"
proof (induction n arbitrary: x)
  case 0
  show ?case by simp
next
  case (Suc n)
  have "be_val (be_bytes (Suc n) x) = (x div 256) mod 256 ^ n * 256 + x mod 256"
    by (simp add: be_val_snoc Suc.IH unat_of_nat_u8)
  also have "\<dots> = x mod (256 * 256 ^ n)"
    by (simp add: mod_mult2_eq)
  finally show ?case by simp
qed

lemma be_val_bound: "be_val bs < 256 ^ length bs"
proof (induction bs rule: rev_induct)
  case Nil
  show ?case by simp
next
  case (snoc b bs)
  have "unat b < 256" by (rule unat_u8_lt)
  with snoc show ?case by (simp add: be_val_snoc)
qed

lemma be_bytes_be_val: "be_bytes (length bs) (be_val bs) = bs"
proof (induction bs rule: rev_induct)
  case Nil
  show ?case by simp
next
  case (snoc b bs)
  have b: "unat b < 256" by (rule unat_u8_lt)
  have "(word_of_nat (be_val bs * 256) :: u8) = 0"
    by (simp only: word_of_nat_eq_0_iff) simp
  then have "word_of_nat (be_val bs * 256 + unat b) = b" by (simp only: of_nat_add) simp
  with b snoc show ?case by (simp add: be_val_snoc)
qed

text \<open>Evaluation at numeral widths.\<close>

lemmas be_bytes_numeral = be_bytes.simps(2) [of "pred_numeral k" for k, folded numeral_eq_Suc]

lemmas replicate_numeral' = replicate_Suc [of "pred_numeral k" for k, folded numeral_eq_Suc]

text \<open>The most significant byte first: a digit-by-digit view of the encoding.\<close>

lemma be_bytes_Cons: "be_bytes (Suc n) x = word_of_nat (x div 256 ^ n) # be_bytes n x"
proof (induction n arbitrary: x)
  case 0
  show ?case by simp
next
  case (Suc n)
  have "be_bytes (Suc (Suc n)) x = be_bytes (Suc n) (x div 256) @ [word_of_nat x]"
    by (rule be_bytes.simps)
  also have "\<dots> = word_of_nat (x div 256 div 256 ^ n) # be_bytes n (x div 256) @ [word_of_nat x]"
    by (simp only: Suc.IH append.simps)
  finally show ?case by (simp add: div_mult2_eq)
qed

lemma be_val_acc_shift: "be_val_acc acc bs = acc * 256 ^ length bs + be_val bs"
proof (induction bs rule: rev_induct)
  case Nil
  show ?case by simp
next
  case (snoc b bs)
  then show ?case by (simp add: be_val_acc_snoc be_val_snoc algebra_simps)
qed

lemma be_val_Cons: "be_val (b # bs) = unat b * 256 ^ length bs + be_val bs"
  using be_val_acc_shift [of "unat b" bs] by (simp add: be_val_def)

lemma be_bytes_inj: "be_bytes n x = be_bytes n y \<Longrightarrow> x < 256 ^ n \<Longrightarrow> y < 256 ^ n \<Longrightarrow> x = y"
  by (metis be_val_be_bytes mod_less)

text \<open>The widths the wire formats use.\<close>

definition u16_to_be :: "u16 \<Rightarrow> bytes" where "u16_to_be w = be_bytes 2 (unat w)"
definition u16_to_le :: "u16 \<Rightarrow> bytes" where "u16_to_le w = rev (be_bytes 2 (unat w))"
definition u32_to_be :: "u32 \<Rightarrow> bytes" where "u32_to_be w = be_bytes 4 (unat w)"
definition u32_to_le :: "u32 \<Rightarrow> bytes" where "u32_to_le w = rev (be_bytes 4 (unat w))"
definition u64_to_be :: "u64 \<Rightarrow> bytes" where "u64_to_be w = be_bytes 8 (unat w)"
definition u64_to_le :: "u64 \<Rightarrow> bytes" where "u64_to_le w = rev (be_bytes 8 (unat w))"

definition u16_of_be :: "bytes \<Rightarrow> u16" where "u16_of_be bs = word_of_nat (be_val bs)"
definition u16_of_le :: "bytes \<Rightarrow> u16" where "u16_of_le bs = word_of_nat (be_val (rev bs))"
definition u32_of_be :: "bytes \<Rightarrow> u32" where "u32_of_be bs = word_of_nat (be_val bs)"
definition u32_of_le :: "bytes \<Rightarrow> u32" where "u32_of_le bs = word_of_nat (be_val (rev bs))"
definition u64_of_be :: "bytes \<Rightarrow> u64" where "u64_of_be bs = word_of_nat (be_val bs)"
definition u64_of_le :: "bytes \<Rightarrow> u64" where "u64_of_le bs = word_of_nat (be_val (rev bs))"

lemma length_to_bytes [simp]:
  "length (u16_to_be w) = 2" "length (u32_to_be v) = 4" "length (u32_to_le v) = 4"
  "length (u64_to_be z) = 8" "length (u64_to_le z) = 8" "length (u16_to_le w) = 2"
  by (simp_all add: u16_to_be_def u16_to_le_def u32_to_be_def u32_to_le_def u64_to_be_def u64_to_le_def)

lemma u16_of_to_be [byte_simps]: "u16_of_be (u16_to_be w) = w"
  by (simp add: unat_u16_lt u16_of_be_def u16_to_be_def be_val_be_bytes)

lemma u16_of_to_le [byte_simps]: "u16_of_le (u16_to_le w) = w"
  by (simp add: unat_u16_lt u16_of_le_def u16_to_le_def be_val_be_bytes)

lemma u32_of_to_be [byte_simps]: "u32_of_be (u32_to_be w) = w"
  by (simp add: unat_u32_lt u32_of_be_def u32_to_be_def be_val_be_bytes)

lemma u32_of_to_le [byte_simps]: "u32_of_le (u32_to_le w) = w"
  by (simp add: unat_u32_lt u32_of_le_def u32_to_le_def be_val_be_bytes)

lemma u64_of_to_le [byte_simps]: "u64_of_le (u64_to_le w) = w"
  and u64_of_to_be [byte_simps]: "u64_of_be (u64_to_be w) = w"
  by (simp_all add: unat_u64_lt u64_of_le_def u64_to_le_def u64_of_be_def u64_to_be_def be_val_be_bytes)

text \<open>Every byte string of the right length is the encoding of the value it reads as.\<close>

lemma be_bytes_of_nat_be_val:
  fixes w :: "'a::len word"
  assumes "length bs = n" "2 ^ LENGTH('a) = (256 :: nat) ^ n"
  shows "be_bytes n (unat (word_of_nat (be_val bs) :: 'a word)) = bs"
proof -
  have "be_val bs < 2 ^ LENGTH('a)" using be_val_bound [of bs] assms by simp
  then have "unat (word_of_nat (be_val bs) :: 'a word) = be_val bs"
    by (simp add: unat_of_nat take_bit_nat_eq_self)
  then show ?thesis using be_bytes_be_val [of bs] assms(1) by simp
qed

lemma to_of_bytes [byte_simps]:
  "length bs = 2 \<Longrightarrow> u16_to_be (u16_of_be bs) = bs"
  "length bs = 4 \<Longrightarrow> u32_to_be (u32_of_be bs) = bs"
  "length bs = 4 \<Longrightarrow> u32_to_le (u32_of_le bs) = bs"
  "length bs = 8 \<Longrightarrow> u64_to_be (u64_of_be bs) = bs"
  "length bs = 8 \<Longrightarrow> u64_to_le (u64_of_le bs) = bs"
  using be_bytes_of_nat_be_val [of bs, where 'a = 16] be_bytes_of_nat_be_val [of bs, where 'a = 32]
    be_bytes_of_nat_be_val [of "rev bs", where 'a = 32] be_bytes_of_nat_be_val [of bs, where 'a = 64]
    be_bytes_of_nat_be_val [of "rev bs", where 'a = 64]
  by (simp_all add: u16_to_be_def u16_of_be_def u32_to_be_def u32_of_be_def u32_to_le_def
    u32_of_le_def u64_to_be_def u64_of_be_def u64_to_le_def u64_of_le_def)

text \<open>The two bytes of a \<open>u16\<close>.\<close>

lemma u16_of_pair: "u16_to_be (u16_of_be [hi, lo]) = [hi, lo]"
  by (simp add: byte_simps)

lemma u16_to_be_pair: obtains hi lo where "u16_to_be p = [hi, lo]"
proof -
  have "length bs = 2 \<Longrightarrow> \<exists>hi lo. bs = [hi, lo]" for bs :: bytes
    by (auto simp: numeral_2_eq_2 length_Suc_conv)
  from this [of "u16_to_be p"] that show thesis by auto
qed

lemma u16_of_be_eq_iff: "u16_of_be [hi, lo] = p \<longleftrightarrow> u16_to_be p = [hi, lo]"
proof
  assume "u16_of_be [hi, lo] = p"
  then show "u16_to_be p = [hi, lo]" using to_of_bytes(1) [of "[hi, lo]"] by simp
next
  assume "u16_to_be p = [hi, lo]"
  then show "u16_of_be [hi, lo] = p" using u16_of_to_be [of p] by simp
qed

section \<open>Digits and masks\<close>

text \<open>Bit masks and digit tests as division facts on the value.\<close>

lemma and_not_mask_eq_iff:
  fixes w v :: "'a::len word"
  shows "w AND NOT (mask k) = v AND NOT (mask k) \<longleftrightarrow> unat w div 2 ^ k = unat v div 2 ^ k"
proof -
  have "w AND NOT (mask k) = v AND NOT (mask k) \<longleftrightarrow> drop_bit k w = drop_bit k v"
  proof
    assume eq: "w AND NOT (mask k) = v AND NOT (mask k)"
    show "drop_bit k w = drop_bit k v"
    proof (rule bit_eqI)
      fix n assume "possible_bit TYPE('a word) n"
      from eq have "bit (w AND NOT (mask k)) (k + n) = bit (v AND NOT (mask k)) (k + n)" by simp
      then show "bit (drop_bit k w) n = bit (drop_bit k v) n"
        by (auto simp: bit_simps dest: bit_imp_le_length)
    qed
  next
    assume eq: "drop_bit k w = drop_bit k v"
    show "w AND NOT (mask k) = v AND NOT (mask k)"
    proof (rule bit_eqI)
      fix n assume "possible_bit TYPE('a word) n"
      from eq have "bit (drop_bit k w) (n - k) = bit (drop_bit k v) (n - k)" by simp
      then show "bit (w AND NOT (mask k)) n = bit (v AND NOT (mask k)) n"
        by (auto simp: bit_simps)
    qed
  qed
  also have "\<dots> \<longleftrightarrow> unat w div 2 ^ k = unat v div 2 ^ k"
    by (simp only: word_unat_eq_iff unat_drop_bit_eq) (simp add: drop_bit_eq_div)
  finally show ?thesis .
qed

lemma of_nat_u8_eq_iff: "(word_of_nat k :: u8) = w \<longleftrightarrow> k mod 256 = unat w"
  by (auto simp: word_unat_eq_iff unat_of_nat)

lemma le_of_nat_u8_iff:
  "w \<le> (word_of_nat k :: u8) \<longleftrightarrow> unat w \<le> k mod 256"
  "(word_of_nat k :: u8) \<le> w \<longleftrightarrow> k mod 256 \<le> unat w"
  by (simp_all add: word_le_nat_alt unat_of_nat)

lemma digits_eq_iff: "B < k \<Longrightarrow> x div k = A \<and> x mod k = B \<longleftrightarrow> x = A * k + (B :: nat)"
  by auto

lemma mod_div_digit: "(m :: nat) mod (k * j) div k = m div k mod j"
  by (cases "k = 0") (simp_all add: mod_mult2_eq)

section \<open>Results\<close>

text \<open>\<open>Option::ok_or\<close>, the \<open>?\<close> operator (\<open>and_then\<close>) and \<open>Result::map_err\<close>.\<close>

definition ok_or :: "'a option \<Rightarrow> 'e \<Rightarrow> 'e + 'a" where
  "ok_or x e = (case x of Some v \<Rightarrow> Inr v | None \<Rightarrow> Inl e)"

definition and_then :: "'e + 'a \<Rightarrow> ('a \<Rightarrow> 'e + 'b) \<Rightarrow> 'e + 'b" where
  "and_then r f = (case r of Inl e \<Rightarrow> Inl e | Inr v \<Rightarrow> f v)"

definition map_err :: "('e \<Rightarrow> 'f) \<Rightarrow> 'e + 'a \<Rightarrow> 'f + 'a" where
  "map_err f r = (case r of Inl e \<Rightarrow> Inl (f e) | Inr v \<Rightarrow> Inr v)"

lemma and_then_Inr_iff: "and_then r f = Inr y \<longleftrightarrow> (\<exists>x. r = Inr x \<and> f x = Inr y)"
  by (auto simp: and_then_def split: sum.splits)

lemma and_then_Inr [simp]: "and_then (Inr x) f = f x"
  by (simp add: and_then_def)

lemma and_then_Inl [simp]: "and_then (Inl e) f = Inl e"
  by (simp add: and_then_def)

lemma and_then_cong [fundef_cong]:
  "r = r' \<Longrightarrow> (\<And>v. r' = Inr v \<Longrightarrow> f v = f' v) \<Longrightarrow> and_then r f = and_then r' f'"
  by (simp add: and_then_def split: sum.splits)

lemma ok_or_Inr_iff: "ok_or x e = Inr v \<longleftrightarrow> x = Some v"
  by (auto simp: ok_or_def split: option.splits)

lemma ok_or_Some [simp]: "ok_or (Some v) e = Inr v"
  by (simp add: ok_or_def)

lemma map_err_Inr_iff: "map_err f r = Inr v \<longleftrightarrow> r = Inr v"
  by (auto simp: map_err_def split: sum.splits)

lemma map_err_Inr [simp]: "map_err f (Inr v) = Inr v"
  by (simp add: map_err_def)

end
