(* ===== verification/Rust_Text.thy ===== *)
theory Rust_Text
  imports Kennel_Prelude
begin

text \<open>
  The string operations of Rust's standard library that the components call. A \<open>str\<close> is its UTF-8
  bytes, one \<open>char\<close> of HOL per byte, so \<open>length\<close> is \<open>str::len\<close>. Operations that match on ASCII
  characters agree with the code on every UTF-8 string, because no byte of a multi-byte character
  is an ASCII byte; where the code indexes a string (\<open>str::get\<close>) a cut inside a multi-byte
  character yields \<open>None\<close>, and the models below return a tail that starts with a continuation
  byte, which equals no ASCII-led pattern either.
\<close>

section \<open>Bytes and characters\<close>

definition byte_of_char :: "char \<Rightarrow> u8" where
  "byte_of_char c = word_of_nat (of_char c)"

definition char_of_byte :: "u8 \<Rightarrow> char" where
  "char_of_byte b = char_of (unat b)"

definition as_bytes :: "string \<Rightarrow> bytes" where
  "as_bytes s = map byte_of_char s"

definition string_of_bytes :: "bytes \<Rightarrow> string" where
  "string_of_bytes bs = map char_of_byte bs"

lemma char_of_byte_of_char [simp]: "char_of_byte (byte_of_char c) = c"
  by (simp add: char_of_byte_def byte_of_char_def unat_of_nat)

lemma byte_of_char_of_byte [simp]: "byte_of_char (char_of_byte b) = b"
  using unat_u8_lt [of b] by (simp add: char_of_byte_def byte_of_char_def of_char_of)

lemma length_as_bytes [simp]: "length (as_bytes s) = length s"
  and length_string_of_bytes [simp]: "length (string_of_bytes bs) = length bs"
  by (simp_all add: as_bytes_def string_of_bytes_def)

lemma string_of_as_bytes [simp]: "string_of_bytes (as_bytes s) = s"
  and as_bytes_of_string [simp]: "as_bytes (string_of_bytes bs) = bs"
  by (simp_all add: as_bytes_def string_of_bytes_def comp_def)

lemma as_bytes_eq_Nil_iff [simp]: "as_bytes s = [] \<longleftrightarrow> s = []" "[] = as_bytes s \<longleftrightarrow> s = []"
  by (simp_all add: as_bytes_def)

section \<open>UTF-8 validation\<close>

text \<open>The well-formed byte sequences of the Unicode standard, as \<open>core::str::from_utf8\<close> checks them.\<close>

definition utf8_cont :: "u8 \<Rightarrow> bool" where
  "utf8_cont b \<longleftrightarrow> 0x80 \<le> b \<and> b \<le> 0xbf"

fun utf8_valid :: "bytes \<Rightarrow> bool" where
  "utf8_valid [] \<longleftrightarrow> True"
| "utf8_valid (b # bs) \<longleftrightarrow>
     (if b \<le> 0x7f then utf8_valid bs
      else if 0xc2 \<le> b \<and> b \<le> 0xdf then
        (case bs of c # cs \<Rightarrow> utf8_cont c \<and> utf8_valid cs | _ \<Rightarrow> False)
      else if 0xe0 \<le> b \<and> b \<le> 0xef then
        (case bs of c # d # ds \<Rightarrow>
           (if b = 0xe0 then 0xa0 \<le> c \<and> c \<le> 0xbf
            else if b = 0xed then 0x80 \<le> c \<and> c \<le> 0x9f else utf8_cont c)
           \<and> utf8_cont d \<and> utf8_valid ds | _ \<Rightarrow> False)
      else if 0xf0 \<le> b \<and> b \<le> 0xf4 then
        (case bs of c # d # e # es \<Rightarrow>
           (if b = 0xf0 then 0x90 \<le> c \<and> c \<le> 0xbf
            else if b = 0xf4 then 0x80 \<le> c \<and> c \<le> 0x8f else utf8_cont c)
           \<and> utf8_cont d \<and> utf8_cont e \<and> utf8_valid es | _ \<Rightarrow> False)
      else False)"

definition from_utf8 :: "bytes \<Rightarrow> string option" where
  "from_utf8 bs = (if utf8_valid bs then Some (string_of_bytes bs) else None)"

text \<open>A \<open>str\<close> of the code: a string whose bytes are valid UTF-8.\<close>

definition is_str :: "string \<Rightarrow> bool" where
  "is_str s \<longleftrightarrow> utf8_valid (as_bytes s)"

lemma from_utf8_as_bytes: "is_str s \<Longrightarrow> from_utf8 (as_bytes s) = Some s"
  by (simp add: from_utf8_def is_str_def)

lemma from_utf8_Some: "from_utf8 bs = Some s \<Longrightarrow> as_bytes s = bs \<and> is_str s"
  by (auto simp: from_utf8_def is_str_def split: if_splits)

section \<open>ASCII case\<close>

definition to_ascii_lowercase :: "char \<Rightarrow> char" where
  "to_ascii_lowercase c =
     (if 65 \<le> (of_char c :: nat) \<and> (of_char c :: nat) \<le> 90 then char_of ((of_char c :: nat) + 32) else c)"

definition lowercase :: "string \<Rightarrow> string" where
  "lowercase s = map to_ascii_lowercase s"

definition eq_ignore_ascii_case :: "string \<Rightarrow> string \<Rightarrow> bool" where
  "eq_ignore_ascii_case s t \<longleftrightarrow> lowercase s = lowercase t"

lemma length_lowercase [simp]: "length (lowercase s) = length s"
  by (simp add: lowercase_def)

lemma lowercase_eq_Nil_iff [simp]: "lowercase s = [] \<longleftrightarrow> s = []"
  by (simp add: lowercase_def)

lemma lowercase_append: "lowercase (s @ t) = lowercase s @ lowercase t"
  and lowercase_Cons: "lowercase (c # s) = to_ascii_lowercase c # lowercase s"
  and lowercase_drop: "lowercase (drop n s) = drop n (lowercase s)"
  by (simp_all add: lowercase_def drop_map)

lemma to_ascii_lowercase_dot [simp]: "to_ascii_lowercase CHR ''.'' = CHR ''.''"
  by (simp add: to_ascii_lowercase_def)

lemma of_char_lowercase:
  "(of_char (to_ascii_lowercase c) :: nat) =
     (if 65 \<le> (of_char c :: nat) \<and> (of_char c :: nat) \<le> 90 then of_char c + 32 else of_char c)"
  by (simp add: to_ascii_lowercase_def of_char_of)

lemma to_ascii_lowercase_idem [simp]:
  "to_ascii_lowercase (to_ascii_lowercase c) = to_ascii_lowercase c"
proof -
  have "\<not> (65 \<le> (of_char (to_ascii_lowercase c) :: nat) \<and> (of_char (to_ascii_lowercase c) :: nat) \<le> 90)"
    by (simp add: of_char_lowercase)
  then show ?thesis by (subst to_ascii_lowercase_def) (simp only: if_False)
qed

lemma lowercase_idem [simp]: "lowercase (lowercase s) = lowercase s"
  by (simp add: lowercase_def)

lemma to_ascii_lowercase_eq_dot: "to_ascii_lowercase c = CHR ''.'' \<longleftrightarrow> c = CHR ''.''"
proof
  assume "to_ascii_lowercase c = CHR ''.''"
  then have "(of_char (to_ascii_lowercase c) :: nat) = 46" by simp
  then have "(of_char c :: nat) = of_char (CHR ''.'')"
    by (simp add: of_char_lowercase split: if_splits)
  then show "c = CHR ''.''" by (simp only: of_char_eq_iff)
qed simp

section \<open>Prefixes, suffixes and splitting\<close>

fun strip_prefix :: "string \<Rightarrow> string \<Rightarrow> string option" where
  "strip_prefix [] s = Some s"
| "strip_prefix (p # ps) (c # cs) = (if p = c then strip_prefix ps cs else None)"
| "strip_prefix (p # ps) [] = None"

definition strip_suffix :: "string \<Rightarrow> string \<Rightarrow> string option" where
  "strip_suffix p s = map_option rev (strip_prefix (rev p) (rev s))"

definition starts_with :: "string \<Rightarrow> string \<Rightarrow> bool" where
  "starts_with p s \<longleftrightarrow> strip_prefix p s \<noteq> None"

text \<open>\<open>split_once(c)\<close>: around the first occurrence.\<close>

fun split_once :: "char \<Rightarrow> string \<Rightarrow> (string \<times> string) option" where
  "split_once c [] = None"
| "split_once c (x # xs) = (if x = c then Some ([], xs)
     else map_option (\<lambda>(l, r). (x # l, r)) (split_once c xs))"

text \<open>\<open>split(c)\<close>: all the pieces, the empty ones included.\<close>

fun split_on :: "char \<Rightarrow> string \<Rightarrow> string list" where
  "split_on c [] = [[]]"
| "split_on c (x # xs) = (if x = c then [] # split_on c xs
     else (case split_on c xs of [] \<Rightarrow> [[x]] | p # ps \<Rightarrow> (x # p) # ps))"

lemma strip_prefix_Some_iff [simp]: "strip_prefix p s = Some r \<longleftrightarrow> s = p @ r"
  by (induction p s rule: strip_prefix.induct) auto

lemma strip_prefix_append [simp]: "strip_prefix p (p @ r) = Some r"
  by simp

lemma strip_suffix_Some_iff [simp]: "strip_suffix p s = Some r \<longleftrightarrow> s = r @ p"
  by (auto simp: strip_suffix_def) (metis rev_append rev_rev_ident)

lemma starts_with_iff: "starts_with p s \<longleftrightarrow> (\<exists>r. s = p @ r)"
  by (auto simp: starts_with_def)

lemma split_once_Some_iff:
  "split_once c s = Some (l, r) \<longleftrightarrow> s = l @ c # r \<and> c \<notin> set l"
proof (induction s arbitrary: l)
  case Nil
  show ?case by simp
next
  case (Cons x xs)
  show ?case
  proof (cases "x = c")
    case True
    then show ?thesis by (auto simp: Cons_eq_append_conv)
  next
    case False
    then have "split_once c (x # xs) = Some (l, r) \<longleftrightarrow>
      (\<exists>l'. l = x # l' \<and> split_once c xs = Some (l', r))"
      by auto
    with False show ?thesis by (auto simp: Cons.IH Cons_eq_append_conv)
  qed
qed

lemma split_on_not_Nil [simp]: "split_on c s \<noteq> []"
  by (induction s) (auto split: list.splits)

lemma split_on_no_char: "c \<notin> set s \<Longrightarrow> split_on c s = [s]"
  by (induction s) auto

lemma split_on_append: "split_on c (a @ c # b) = split_on c a @ split_on c b"
  by (induction a) (auto split: list.splits)

lemma split_on_pieces: "p \<in> set (split_on c s) \<Longrightarrow> c \<notin> set p"
  by (induction s arbitrary: p) (auto split: if_splits list.splits)

section \<open>Trimming, searching and numbers\<close>

text \<open>
  The Unicode \<open>White_Space\<close> characters, as their UTF-8 encodings: U+0009 to U+000D, U+0020, U+0085,
  U+00A0, U+1680, U+2000 to U+200A, U+2028, U+2029, U+202F, U+205F and U+3000.
\<close>

definition white_space :: "bytes list" where
  "white_space =
     [[9], [10], [11], [12], [13], [32], [0xc2, 0x85], [0xc2, 0xa0], [0xe1, 0x9a, 0x80],
      [0xe2, 0x80, 0x80], [0xe2, 0x80, 0x81], [0xe2, 0x80, 0x82], [0xe2, 0x80, 0x83],
      [0xe2, 0x80, 0x84], [0xe2, 0x80, 0x85], [0xe2, 0x80, 0x86], [0xe2, 0x80, 0x87],
      [0xe2, 0x80, 0x88], [0xe2, 0x80, 0x89], [0xe2, 0x80, 0x8a], [0xe2, 0x80, 0xa8],
      [0xe2, 0x80, 0xa9], [0xe2, 0x80, 0xaf], [0xe2, 0x81, 0x9f], [0xe3, 0x80, 0x80]]"

text \<open>The rest after one leading white-space character, \<open>None\<close> when there is none.\<close>

definition strip_white :: "string \<Rightarrow> string option" where
  "strip_white s =
     (case List.map_filter (\<lambda>w. strip_prefix (string_of_bytes w) s) white_space of
        [] \<Rightarrow> None | r # _ \<Rightarrow> Some r)"

lemma white_space_nonempty: "w \<in> set white_space \<Longrightarrow> w \<noteq> []"
  by (auto simp: white_space_def)

lemma map_filter_head: "List.map_filter f xs = r # rs \<Longrightarrow> \<exists>x \<in> set xs. f x = Some r"
  by (auto simp: map_filter_def filter_eq_Cons_iff)

lemma strip_white_Some: "strip_white s = Some r \<Longrightarrow> \<exists>w \<in> set white_space. s = string_of_bytes w @ r"
  by (auto simp: strip_white_def split: list.splits dest!: map_filter_head)

lemma strip_white_shorter: "strip_white s = Some r \<Longrightarrow> length r < length s"
  by (drule strip_white_Some) (auto dest: white_space_nonempty)

function trim_start :: "string \<Rightarrow> string" where
  "trim_start s = (case strip_white s of None \<Rightarrow> s | Some r \<Rightarrow> trim_start r)"
  by pat_completeness auto

termination by (relation "measure length") (auto dest: strip_white_shorter)

text \<open>At the end of the string the encodings are matched backwards.\<close>

definition strip_white_end :: "string \<Rightarrow> string option" where
  "strip_white_end s =
     (case List.map_filter (\<lambda>w. strip_suffix (string_of_bytes w) s) white_space of
        [] \<Rightarrow> None | r # _ \<Rightarrow> Some r)"

lemma strip_white_end_shorter: "strip_white_end s = Some r \<Longrightarrow> length r < length s"
  by (auto simp: strip_white_end_def split: list.splits dest!: map_filter_head white_space_nonempty)

function trim_end :: "string \<Rightarrow> string" where
  "trim_end s = (case strip_white_end s of None \<Rightarrow> s | Some r \<Rightarrow> trim_end r)"
  by pat_completeness auto

termination by (relation "measure length") (auto dest: strip_white_end_shorter)

declare trim_start.simps [simp del] trim_end.simps [simp del]

definition trim :: "string \<Rightarrow> string" where
  "trim s = trim_end (trim_start s)"

text \<open>\<open>trim_end_matches(c)\<close>, \<open>rsplit_once(c)\<close>, \<open>contains(c)\<close> and \<open>ends_with(c)\<close> for one character.\<close>

definition trim_end_matches :: "char \<Rightarrow> string \<Rightarrow> string" where
  "trim_end_matches c s = rev (dropWhile (\<lambda>x. x = c) (rev s))"

definition rsplit_once :: "char \<Rightarrow> string \<Rightarrow> (string \<times> string) option" where
  "rsplit_once c s = map_option (\<lambda>(r, l). (rev l, rev r)) (split_once c (rev s))"

lemma rsplit_once_Some_iff: "rsplit_once c s = Some (l, r) \<longleftrightarrow> s = l @ c # r \<and> c \<notin> set r"
proof -
  have "rsplit_once c s = Some (l, r) \<longleftrightarrow> split_once c (rev s) = Some (rev r, rev l)"
    by (auto simp: rsplit_once_def)
  also have "\<dots> \<longleftrightarrow> rev s = rev r @ c # rev l \<and> c \<notin> set r"
    by (simp add: split_once_Some_iff)
  also have "\<dots> \<longleftrightarrow> s = l @ c # r \<and> c \<notin> set r"
    by (metis append.assoc append_Cons append_Nil rev.simps(2) rev_append rev_rev_ident)
  finally show ?thesis .
qed

definition digit_val :: "nat \<Rightarrow> char \<Rightarrow> nat option" where
  "digit_val radix c =
     (let n = of_char c :: nat;
          d = (if 48 \<le> n \<and> n \<le> 57 then Some (n - 48)
               else if 97 \<le> n \<and> n \<le> 122 then Some (n - 87)
               else if 65 \<le> n \<and> n \<le> 90 then Some (n - 55) else None)
      in case d of Some k \<Rightarrow> if k < radix then Some k else None | None \<Rightarrow> None)"

text \<open>\<open>str::parse::<u16>\<close>: an optional plus sign, then digits, without overflow.\<close>

fun parse_dec :: "nat \<Rightarrow> nat \<Rightarrow> string \<Rightarrow> nat option" where
  "parse_dec hi acc [] = Some acc"
| "parse_dec hi acc (c # cs) =
     (case digit_val 10 c of
        None \<Rightarrow> None
      | Some d \<Rightarrow> if acc * 10 + d > hi then None else parse_dec hi (acc * 10 + d) cs)"

definition parse_u16 :: "string \<Rightarrow> u16 option" where
  "parse_u16 s =
     (case s of
        [] \<Rightarrow> None
      | c # cs \<Rightarrow> map_option word_of_nat
          (if c = CHR ''+'' then (if cs = [] then None else parse_dec 65535 0 cs)
           else parse_dec 65535 0 s))"

end
