(* ===== verification/Base64.thy ===== *)
theory Base64
  imports Rust_Text
begin

text \<open>
  The Base64 codec of the signature envelope (\<open>kennel-lib-policy/src/b64.rs\<close>).  The bit
  accumulator is a \<open>u32\<close> whose shift drops the high bits: it is kept as a natural number with the
  reduction written out, and an \<open>or\<close> with a value below the shifted-in zeros is an addition.  The
  main lemma is the round trip.
\<close>

definition value_of :: "u8 \<Rightarrow> u8 option" where
  "value_of c =
     (if 65 \<le> c \<and> c \<le> 90 then Some (c - 65)
      else if 97 \<le> c \<and> c \<le> 122 then Some (c - 97 + 26)
      else if 48 \<le> c \<and> c \<le> 57 then Some (c - 48 + 52)
      else if c = 43 then Some 62
      else if c = 47 then Some 63
      else None)"

definition b64_char_of :: "u8 \<Rightarrow> u8" where
  "b64_char_of v =
     (if v \<le> 25 then 65 + v
      else if v \<le> 51 then 97 + (v - 26)
      else if v \<le> 61 then 48 + (v - 52)
      else if v = 62 then 43
      else 47)"

text \<open>\<open>wrapping_shl\<close> on the accumulator.\<close>

definition shl32 :: "nat \<Rightarrow> nat \<Rightarrow> nat" where
  "shl32 acc k = (acc * 2 ^ k) mod 2 ^ 32"

fun decode_go :: "nat \<Rightarrow> nat \<Rightarrow> bytes \<Rightarrow> bytes option" where
  "decode_go acc nbits [] = Some []"
| "decode_go acc nbits (c # cs) =
     (if c = 61 then decode_go acc nbits cs
      else case value_of c of
        None \<Rightarrow> None
      | Some v \<Rightarrow>
          (let acc = shl32 acc 6 + unat v; nbits = nbits + 6 in
           if nbits \<ge> 8
           then map_option ((#) (word_of_nat (acc div 2 ^ (nbits - 8)))) (decode_go acc (nbits - 8) cs)
           else decode_go acc nbits cs))"

definition b64_decode :: "bytes \<Rightarrow> bytes option" where
  "b64_decode input = decode_go 0 0 input"

text \<open>The inner loop of the encoder: one character per six pending bits.\<close>

fun emit_go :: "nat \<Rightarrow> nat \<Rightarrow> bytes \<times> nat" where
  "emit_go acc nbits =
     (if nbits \<ge> 6 then
        (let (out, n) = emit_go acc (nbits - 6)
         in (b64_char_of (word_of_nat (acc div 2 ^ (nbits - 6) mod 64)) # out, n))
      else ([], nbits))"

declare emit_go.simps [simp del]

fun encode_go :: "nat \<Rightarrow> nat \<Rightarrow> bytes \<Rightarrow> bytes" where
  "encode_go acc nbits [] =
     (if nbits > 0 then [b64_char_of (word_of_nat (shl32 acc (6 - nbits) mod 64))] else [])"
| "encode_go acc nbits (b # bs) =
     (let acc = shl32 acc 8 + unat b;
          (out, nbits) = emit_go acc (nbits + 8)
      in out @ encode_go acc nbits bs)"

definition b64_pad :: "bytes \<Rightarrow> bytes" where
  "b64_pad out = out @ replicate ((4 - length out mod 4) mod 4) 61"

definition b64_encode :: "bytes \<Rightarrow> bytes" where
  "b64_encode input = b64_pad (encode_go 0 0 input)"

section \<open>The alphabet\<close>

lemma u8_lt_64_cases: "unat (v :: u8) < 64 \<Longrightarrow> v \<in> word_of_nat ` {..<64}"
  by (rule image_eqI [of _ _ "unat v"]) simp_all

lemma alphabet_ok: "\<forall>n \<in> set [0..<64]. value_of (b64_char_of (word_of_nat n)) = Some (word_of_nat n)
    \<and> b64_char_of (word_of_nat n) \<noteq> 61"
  by code_simp

lemma value_of_char:
  assumes "n < 64"
  shows "value_of (b64_char_of (word_of_nat n)) = Some (word_of_nat n)" "b64_char_of (word_of_nat n) \<noteq> 61"
  using alphabet_ok assms by auto

section \<open>Digits of the accumulator\<close>

lemma shl32_eq: "k \<le> 32 \<Longrightarrow> shl32 x k = 2 ^ k * (x mod 2 ^ (32 - k))"
proof -
  assume "k \<le> 32"
  then have "(2 :: nat) ^ 32 = 2 ^ k * 2 ^ (32 - k)" by (simp flip: power_add)
  then show ?thesis by (simp only: shl32_def) (simp add: mult.commute mult_mod_right)
qed

lemma mod_pow_mod: "m \<le> n \<Longrightarrow> (x :: nat) mod 2 ^ n mod 2 ^ m = x mod 2 ^ m"
  by (simp add: mod_mod_cancel le_imp_power_dvd)

text \<open>A window of \<open>m\<close> bits at position \<open>j\<close>, reaching into the old accumulator, or inside the new value.\<close>

lemma window_across:
  assumes "j \<le> k" "y < 2 ^ k" "k - j \<le> m" "m + j \<le> 32"
  shows "(shl32 x k + y) div 2 ^ j mod 2 ^ m = (x mod 2 ^ (m - (k - j))) * 2 ^ (k - j) + y div 2 ^ j"
proof -
  define X where "X = x mod 2 ^ (32 - k)"
  have k: "(2 :: nat) ^ k = 2 ^ j * 2 ^ (k - j)" using assms(1) by (simp flip: power_add)
  have "shl32 x k = 2 ^ j * (2 ^ (k - j) * X)" using assms by (simp add: shl32_eq X_def k)
  then have "(shl32 x k + y) div 2 ^ j = 2 ^ (k - j) * X + y div 2 ^ j" by simp
  moreover have "y div 2 ^ j < 2 ^ (k - j)"
    using assms(2) unfolding k by (simp add: less_mult_imp_div_less mult.commute)
  moreover have "(2 :: nat) ^ m = 2 ^ (k - j) * 2 ^ (m - (k - j))" using assms(3) by (simp flip: power_add)
  ultimately have "(shl32 x k + y) div 2 ^ j mod 2 ^ m = 2 ^ (k - j) * (X mod 2 ^ (m - (k - j))) + y div 2 ^ j"
    by (simp add: mod_mult2_eq)
  moreover have "X mod 2 ^ (m - (k - j)) = x mod 2 ^ (m - (k - j))"
    unfolding X_def using assms by (intro mod_pow_mod) simp
  ultimately show ?thesis by (simp add: mult.commute)
qed

lemma window_inside:
  assumes "y < 2 ^ k" "m + j \<le> k" "k \<le> 32"
  shows "(shl32 x k + y) div 2 ^ j mod 2 ^ m = y div 2 ^ j mod 2 ^ m"
proof -
  have k: "(2 :: nat) ^ k = 2 ^ j * 2 ^ m * 2 ^ (k - m - j)" using assms(2) by (simp flip: power_add)
  have "shl32 x k = 2 ^ j * (2 ^ m * (2 ^ (k - m - j) * (x mod 2 ^ (32 - k))))"
    using assms(3) by (simp add: shl32_eq k mult.assoc)
  then show ?thesis by simp
qed

section \<open>Three bytes, four characters\<close>

lemma emit_go_2: "n < 6 \<Longrightarrow> emit_go acc n = ([], n)"
  by (simp add: emit_go.simps)

lemma emit_go_8: "emit_go acc 8 = ([b64_char_of (word_of_nat (acc div 4 mod 64))], 2)"
  by (simp add: emit_go.simps [of _ 8] emit_go_2)

lemma emit_go_10: "emit_go acc 10 = ([b64_char_of (word_of_nat (acc div 16 mod 64))], 4)"
  by (simp add: emit_go.simps [of _ 10] emit_go_2)

lemma emit_go_12: "emit_go acc 12 =
    ([b64_char_of (word_of_nat (acc div 64 mod 64)), b64_char_of (word_of_nat (acc mod 64))], 0)"
  by (simp add: emit_go.simps [of _ 12] emit_go.simps [of _ 6] emit_go_2)

text \<open>The six-bit digits of up to three bytes.\<close>

definition sextet :: "nat \<Rightarrow> u8" where
  "sextet n = b64_char_of (word_of_nat n)"

lemma shl8_windows:
  fixes b :: u8
  shows "(shl32 x 8 + unat b) div 4 mod 64 = unat b div 4"
    "(shl32 x 8 + unat b) div 16 mod 64 = (x mod 4) * 16 + unat b div 16"
    "(shl32 x 8 + unat b) div 64 mod 64 = (x mod 16) * 4 + unat b div 64"
    "(shl32 x 8 + unat b) mod 64 = unat b mod 64"
    "(shl32 x 8 + unat b) mod 4 = unat b mod 4" "(shl32 x 8 + unat b) mod 16 = unat b mod 16"
proof -
  have b: "unat b < 256" by (rule unat_u8_lt)
  show "(shl32 x 8 + unat b) div 4 mod 64 = unat b div 4"
    using window_across [of 2 8 "unat b" 6 x] b by simp
  show "(shl32 x 8 + unat b) div 16 mod 64 = (x mod 4) * 16 + unat b div 16"
    using window_across [of 4 8 "unat b" 6 x] b by simp
  show "(shl32 x 8 + unat b) div 64 mod 64 = (x mod 16) * 4 + unat b div 64"
    using window_across [of 6 8 "unat b" 6 x] b by simp
  show "(shl32 x 8 + unat b) mod 64 = unat b mod 64"
    using window_inside [of "unat b" 8 6 0 x] b by simp
  show "(shl32 x 8 + unat b) mod 4 = unat b mod 4"
    using window_inside [of "unat b" 8 2 0 x] b by simp
  show "(shl32 x 8 + unat b) mod 16 = unat b mod 16"
    using window_inside [of "unat b" 8 4 0 x] b by simp
qed

lemma encode_go_3: "encode_go acc 0 (a # b # c # bs) =
    sextet (unat a div 4) # sextet (unat a mod 4 * 16 + unat b div 16)
    # sextet (unat b mod 16 * 4 + unat c div 64) # sextet (unat c mod 64)
    # encode_go (shl32 (shl32 (shl32 acc 8 + unat a) 8 + unat b) 8 + unat c) 0 bs"
  by (simp add: emit_go_8 emit_go_10 emit_go_12 shl8_windows sextet_def)

lemma encode_go_2: "encode_go acc 0 [a, b] =
    [sextet (unat a div 4), sextet (unat a mod 4 * 16 + unat b div 16), sextet (unat b mod 16 * 4)]"
proof -
  have "shl32 (shl32 (shl32 acc 8 + unat a) 8 + unat b) 2 mod 64 = unat b mod 16 * 4"
    using window_across [of 0 2 0 6 "shl32 (shl32 acc 8 + unat a) 8 + unat b"] by (simp add: shl8_windows)
  then show ?thesis by (simp add: emit_go_8 emit_go_10 shl8_windows sextet_def)
qed

lemma encode_go_1: "encode_go acc 0 [a] = [sextet (unat a div 4), sextet (unat a mod 4 * 16)]"
proof -
  have "shl32 (shl32 acc 8 + unat a) 4 mod 64 = unat a mod 4 * 16"
    using window_across [of 0 4 0 6 "shl32 acc 8 + unat a"] by (simp add: shl8_windows)
  then show ?thesis by (simp add: emit_go_8 shl8_windows sextet_def)
qed

text \<open>The decoder on digits.\<close>

lemma decode_sextet:
  "v < 64 \<Longrightarrow> decode_go acc n (sextet v # cs) =
     (if n + 6 \<ge> 8 then map_option ((#) (word_of_nat ((shl32 acc 6 + v) div 2 ^ (n - 2))))
          (decode_go (shl32 acc 6 + v) (n - 2) cs)
      else decode_go (shl32 acc 6 + v) (n + 6) cs)"
  by (simp add: sextet_def value_of_char Let_def unat_of_nat)

lemma of_nat_u8_eqI: "x mod 256 = unat b \<Longrightarrow> (word_of_nat x :: u8) = b"
  by (simp add: of_nat_u8_eq_iff)

lemma decode_pair:
  fixes a :: u8
  assumes "w < 16"
  shows "decode_go acc 0 (sextet (unat a div 4) # sextet (unat a mod 4 * 16 + w) # cs) =
    map_option ((#) a) (decode_go (shl32 (shl32 acc 6 + unat a div 4) 6 + (unat a mod 4 * 16 + w)) 4 cs)"
proof -
  have lt: "unat a div 4 < 64" "unat a mod 4 * 16 + w < 64" using unat_u8_lt [of a] assms by auto
  have "(shl32 (shl32 acc 6 + unat a div 4) 6 + (unat a mod 4 * 16 + w)) div 16 mod 256 = unat a"
    using window_across [of 4 6 "unat a mod 4 * 16 + w" 8 "shl32 acc 6 + unat a div 4"]
      window_across [of 0 6 "unat a div 4" 6 acc] lt assms by simp
  then have "word_of_nat ((shl32 (shl32 acc 6 + unat a div 4) 6 + (unat a mod 4 * 16 + w)) div 16) = a"
    by (rule of_nat_u8_eqI)
  with lt show ?thesis by (simp add: decode_sextet del: decode_go.simps(2))
qed

lemma decode_third:
  fixes b :: u8
  assumes "acc mod 16 = unat b div 16" "w < 4"
  shows "decode_go acc 4 (sextet (unat b mod 16 * 4 + w) # cs) =
    map_option ((#) b) (decode_go (shl32 acc 6 + (unat b mod 16 * 4 + w)) 2 cs)"
proof -
  have lt: "unat b mod 16 * 4 + w < 64" using assms(2) by auto
  have "(shl32 acc 6 + (unat b mod 16 * 4 + w)) div 4 mod 256 = unat b"
    using window_across [of 2 6 "unat b mod 16 * 4 + w" 8 acc] lt assms by simp
  then have "word_of_nat ((shl32 acc 6 + (unat b mod 16 * 4 + w)) div 4) = b"
    by (rule of_nat_u8_eqI)
  with lt show ?thesis by (simp add: decode_sextet del: decode_go.simps(2))
qed

lemma decode_fourth:
  fixes c :: u8
  assumes "acc mod 4 = unat c div 64"
  shows "decode_go acc 2 (sextet (unat c mod 64) # cs) =
    map_option ((#) c) (decode_go (shl32 acc 6 + unat c mod 64) 0 cs)"
proof -
  have lt: "unat c mod 64 < 64" by simp
  have "(shl32 acc 6 + unat c mod 64) mod 256 = unat c"
    using window_across [of 0 6 "unat c mod 64" 8 acc] lt assms by simp
  then have "word_of_nat (shl32 acc 6 + unat c mod 64) = c" by (rule of_nat_u8_eqI)
  with lt show ?thesis by (simp add: decode_sextet del: decode_go.simps(2))
qed

section \<open>The round trip\<close>

lemma decode_go_pad: "decode_go acc n (replicate k 61) = Some []"
  by (induction k) simp_all

lemma shl6_low: "v < 64 \<Longrightarrow> (shl32 x 6 + v) mod 16 = v mod 16" "v < 64 \<Longrightarrow> (shl32 x 6 + v) mod 4 = v mod 4"
  using window_inside [of v 6 4 0 x] window_inside [of v 6 2 0 x] by simp_all

fun by_threes :: "bytes \<Rightarrow> bool" where
  "by_threes (a # b # c # bs) = by_threes bs"
| "by_threes _ = True"

lemma digit_bounds:
  fixes b :: u8
  shows "unat b div 16 < 16" "unat b div 64 < 4"
  using unat_u8_lt [of b] by simp_all

lemma decode_encode_go: "decode_go dacc 0 (encode_go acc 0 bs @ replicate k 61) = Some bs"
proof (induction bs arbitrary: acc dacc rule: by_threes.induct [case_names three none one two])
  case (three a b c bs)
  have m: "unat a mod 4 * 16 + unat b div 16 < 64" "unat b mod 16 * 4 + unat c div 64 < 64"
    using digit_bounds [of b] digit_bounds [of c] by auto
  show ?case
    using digit_bounds [of b] digit_bounds [of c] m
    by (simp only: encode_go_3 append.simps decode_pair)
      (simp add: decode_third decode_fourth shl6_low three.IH del: decode_go.simps(2) encode_go.simps)
next
  case none
  show ?case by (simp add: decode_go_pad)
next
  case (one a)
  show ?case
    using decode_pair [of 0 dacc a "replicate k 61"]
    by (simp add: encode_go_1 decode_go_pad del: decode_go.simps(2) encode_go.simps)
next
  case (two a b)
  have m: "unat a mod 4 * 16 + unat b div 16 < 64" using digit_bounds [of b] by auto
  show ?case
    using digit_bounds [of b] m decode_third [of _ b 0 "replicate k 61"]
    by (simp add: encode_go_2 decode_pair decode_go_pad shl6_low del: decode_go.simps(2) encode_go.simps)
qed

lemma b64_decode_encode: "b64_decode (b64_encode bs) = Some bs"
  unfolding b64_decode_def b64_encode_def b64_pad_def by (rule decode_encode_go)

end
