(* ===== verification/Wire_Codec.thy ===== *)
theory Wire_Codec
  imports Kennel_Prelude
begin

text \<open>
  The contract of a wire format: an encoder, a decoder and the set of values the format can carry.
  A \<open>wire_codec\<close> reads back what was written; a \<open>canonical_codec\<close> moreover accepts only byte
  strings the encoder produces, so that a message has one wire form.  Every format of the development
  is an interpretation of one of the two.

  Formats made of consecutive fields are built from \<open>field_codec\<close>s: a writer and a cursor that reads
  one field off the front of the input and returns the rest.  The one law of a field says that the
  cursor reads exactly what the writer writes; it passes to count-prefixed lists of fields and, once
  the cursor must end at the end of the input, gives a \<open>canonical_codec\<close>.
\<close>

locale wire_codec =
  fixes enc :: "'a \<Rightarrow> bytes"
    and dec :: "bytes \<Rightarrow> 'a option"
    and valid :: "'a \<Rightarrow> bool"
  assumes dec_enc: "valid x \<Longrightarrow> dec (enc x) = Some x"
begin

lemma enc_inj:
  assumes "valid x" "valid y" "enc x = enc y"
  shows "x = y"
proof -
  have "Some x = dec (enc x)" by (rule dec_enc [OF assms(1), symmetric])
  also have "\<dots> = dec (enc y)" by (rule arg_cong [OF assms(3)])
  also have "\<dots> = Some y" by (rule dec_enc [OF assms(2)])
  finally show ?thesis by (rule option.inject [THEN iffD1])
qed

lemma enc_inj_on: "inj_on enc (Collect valid)"
  by (auto intro: inj_onI enc_inj)

end

locale canonical_codec = wire_codec +
  assumes dec_sound: "dec bs = Some x \<Longrightarrow> valid x \<and> enc x = bs"
begin

lemma dec_Some_iff: "dec bs = Some x \<longleftrightarrow> valid x \<and> bs = enc x"
  by (auto simp: dec_enc dest: dec_sound)

lemma dec_None_iff: "dec bs = None \<longleftrightarrow> (\<forall>x. valid x \<longrightarrow> bs \<noteq> enc x)"
  using dec_Some_iff [of bs] by (cases "dec bs") auto

lemma one_wire_form: "dec bs = Some x \<Longrightarrow> dec bs' = Some x \<Longrightarrow> bs = bs'"
  by (simp add: dec_Some_iff)

end

section \<open>Cursors\<close>

type_synonym 'a cursor = "bytes \<Rightarrow> ('a \<times> bytes) option"

text \<open>\<open>split_at_checked\<close>: the first \<open>n\<close> bytes and the rest.\<close>

definition split_at_checked :: "nat \<Rightarrow> bytes cursor" where
  "split_at_checked n cur = (if n \<le> length cur then Some (take n cur, drop n cur) else None)"

text \<open>A loop that reads \<open>n\<close> fields, and a read that must consume its input.\<close>

fun take_items :: "'a cursor \<Rightarrow> nat \<Rightarrow> 'a list cursor" where
  "take_items get 0 cur = Some ([], cur)"
| "take_items get (Suc n) cur =
     do { (x, cur) \<leftarrow> get cur; (xs, cur) \<leftarrow> take_items get n cur; Some (x # xs, cur) }"

definition take_all :: "'a cursor \<Rightarrow> bytes \<Rightarrow> 'a option" where
  "take_all get bs = do { (x, cur) \<leftarrow> get bs; if cur = [] then Some x else None }"

definition put_items :: "('a \<Rightarrow> bytes) \<Rightarrow> 'a list \<Rightarrow> bytes" where
  "put_items put xs = concat (map put xs)"

lemma split_at_checked_iff:
  "split_at_checked n cur = Some (h, r) \<longleftrightarrow> length h = n \<and> cur = h @ r"
  by (auto simp: split_at_checked_def append_eq_conv_conj split: if_splits)

lemma split_at_checked_append [simp]: "n = length h \<Longrightarrow> split_at_checked n (h @ r) = Some (h, r)"
  by (simp add: split_at_checked_iff)

named_theorems field_iffs \<open>what each field cursor reads\<close>
declare split_at_checked_iff [field_iffs]

locale field_codec =
  fixes put :: "'a \<Rightarrow> bytes"
    and get :: "'a cursor"
    and valid :: "'a \<Rightarrow> bool"
  assumes get_iff: "get cur = Some (x, rest) \<longleftrightarrow> valid x \<and> cur = put x @ rest"
begin

lemma take_items_iff:
  "take_items get n cur = Some (xs, rest) \<longleftrightarrow>
     length xs = n \<and> list_all valid xs \<and> cur = put_items put xs @ rest"
proof (induction n arbitrary: cur xs)
  case 0
  show ?case by (auto simp: put_items_def)
next
  case (Suc n)
  show ?case
    by (cases xs) (auto simp: bind_eq_Some_conv get_iff Suc.IH put_items_def)
qed

end

sublocale field_codec \<subseteq> whole: canonical_codec put "take_all get" valid
  by unfold_locales (auto simp: take_all_def bind_eq_Some_conv get_iff split: if_splits)

section \<open>Counts and length-prefixed strings\<close>

text \<open>
  \<open>u16::try_from(n).unwrap_or(u16::MAX)\<close> in big-endian order, the count and length prefix of the
  formats.
\<close>

definition put_u16 :: "u16 \<Rightarrow> bytes" where
  "put_u16 v = u16_to_be v"

definition take_u16 :: "u16 cursor" where
  "take_u16 cur = do { (b, cur) \<leftarrow> split_at_checked 2 cur; Some (u16_of_be b, cur) }"

definition put_count :: "nat \<Rightarrow> bytes" where
  "put_count n = put_u16 (if n \<le> 65535 then word_of_nat n else 65535)"

lemma take_u16_iff [field_iffs]: "take_u16 cur = Some (v, rest) \<longleftrightarrow> cur = put_u16 v @ rest"
  by (auto simp: take_u16_def put_u16_def bind_eq_Some_conv field_iffs byte_simps)

lemma take_u16_put [simp]: "take_u16 (put_u16 v @ rest) = Some (v, rest)"
  by (simp add: field_iffs)

lemma take_count_iff:
  "take_u16 cur = Some (v, rest) \<longleftrightarrow> cur = put_count (unat v) @ rest"
  using unat_u16_lt [of v] by (simp add: field_iffs put_count_def)

text \<open>A \<open>u16\<close> count followed by that many fields.\<close>

definition put_counted :: "('a \<Rightarrow> bytes) \<Rightarrow> 'a list \<Rightarrow> bytes" where
  "put_counted put xs = put_count (length xs) @ put_items put xs"

definition take_counted :: "'a cursor \<Rightarrow> 'a list cursor" where
  "take_counted get cur = do { (n, cur) \<leftarrow> take_u16 cur; take_items get (unat n) cur }"

definition counted :: "('a \<Rightarrow> bool) \<Rightarrow> 'a list \<Rightarrow> bool" where
  "counted valid xs \<longleftrightarrow> length xs \<le> 65535 \<and> list_all valid xs"

locale counted_codec = item: field_codec put get valid
  for put :: "'a \<Rightarrow> bytes" and get valid
begin

lemma counted_iff:
  "take_counted get cur = Some (xs, rest) \<longleftrightarrow> counted valid xs \<and> cur = put_counted put xs @ rest"
proof
  assume "take_counted get cur = Some (xs, rest)"
  then obtain n :: u16 where "cur = put_count (unat n) @ put_items put xs @ rest"
      "list_all valid xs" "length xs = unat n"
    by (auto simp: take_counted_def bind_eq_Some_conv take_count_iff item.take_items_iff)
  with unat_u16_lt [of n] show "counted valid xs \<and> cur = put_counted put xs @ rest"
    by (simp add: counted_def put_counted_def)
next
  assume r: "counted valid xs \<and> cur = put_counted put xs @ rest"
  define v :: u16 where "v = word_of_nat (length xs)"
  from r have "unat v = length xs" by (simp add: v_def unat_of_nat counted_def)
  with r show "take_counted get cur = Some (xs, rest)"
    by (auto simp: take_counted_def counted_def put_counted_def bind_eq_Some_conv take_count_iff
      item.take_items_iff intro!: exI [of _ v])
qed

end

sublocale counted_codec \<subseteq> field_codec "put_counted put" "take_counted get" "counted valid"
  by unfold_locales (rule counted_iff)

end
