(* ===== verification/Binder_Service.thy ===== *)
theory Binder_Service
  imports Wire_Codec Rust_Text
begin

text \<open>
  The payloads of the node-0 and mesh verbs (\<open>kennel-lib-binder/src/service.rs\<close>): the
  \<open>CONNECT_INET\<close> and \<open>BIND_INET\<close> requests, the \<open>SPAWN\<close> request, \<open>SVC_CONNECT\<close>, the session reference,
  and the two session artefacts (the D-Bus filter and the UDP grants).  A writer that appends to a
  buffer is the function that returns the appended bytes; a reader that advances a cursor returns the
  rest of the input.  Every decoder of untrusted input is shown canonical: it accepts a byte string
  exactly when it is the encoding of a value within the stated bounds.
\<close>

section \<open>The transport byte and the network verbs\<close>

definition TCP :: u8 where "TCP = 0"
definition UDP :: u8 where "UDP = 1"

definition inet_encode_request :: "u8 \<Rightarrow> u16 \<Rightarrow> string \<Rightarrow> bytes" where
  "inet_encode_request transport port host = transport # u16_to_be port @ as_bytes host"

definition inet_decode_request :: "bytes \<Rightarrow> nat \<Rightarrow> (u8 \<times> u16 \<times> string) option" where
  "inet_decode_request data max_host =
     (case data of
        transport # hi # lo # host \<Rightarrow>
          if host = [] \<or> length host > max_host then None
          else do { h \<leftarrow> from_utf8 host; Some (transport, u16_of_be [hi, lo], h) }
      | _ \<Rightarrow> None)"

definition encode_bind_request :: "u8 \<Rightarrow> u16 \<Rightarrow> bytes" where
  "encode_bind_request transport port = transport # u16_to_be port"

definition decode_bind_request :: "bytes \<Rightarrow> (u8 \<times> u16) option" where
  "decode_bind_request data =
     (case data of [transport, hi, lo] \<Rightarrow> Some (transport, u16_of_be [hi, lo]) | _ \<Rightarrow> None)"

definition decode_port_prefix :: "bytes \<Rightarrow> (u8 \<times> u16) option" where
  "decode_port_prefix data =
     (case data of transport # hi # lo # _ \<Rightarrow> Some (transport, u16_of_be [hi, lo]) | _ \<Rightarrow> None)"

section \<open>D-Bus capability names\<close>

definition SESSION :: u8 where "SESSION = 0"
definition SYSTEM :: u8 where "SYSTEM = 1"
definition CAPABILITY_SESSION :: string where "CAPABILITY_SESSION = ''org.projectkennel.dbus''"
definition CAPABILITY_SYSTEM :: string where "CAPABILITY_SYSTEM = ''org.projectkennel.dbus-system''"

definition capability_bus :: "string \<Rightarrow> u8 option" where
  "capability_bus name =
     (if name = CAPABILITY_SESSION then Some SESSION
      else if name = CAPABILITY_SYSTEM then Some SYSTEM else None)"

definition capability_for_bus :: "u8 \<Rightarrow> string" where
  "capability_for_bus bus = (if bus = SYSTEM then CAPABILITY_SYSTEM else CAPABILITY_SESSION)"

section \<open>Fields shared by the control verbs\<close>

definition put_u8 :: "u8 \<Rightarrow> bytes" where
  "put_u8 v = [v]"

definition take_u8 :: "u8 cursor" where
  "take_u8 cur = do { (b, cur) \<leftarrow> split_at_checked 1 cur; v \<leftarrow> get_at b 0; Some (v, cur) }"

definition put_str :: "string \<Rightarrow> bytes" where
  "put_str s =
     (let len = (if length s \<le> 65535 then word_of_nat (length s) else 65535 :: u16)
      in put_u16 len @ take (unat len) (as_bytes s))"

definition take_str :: "string cursor" where
  "take_str cur =
     do { (len, cur) \<leftarrow> take_u16 cur;
          (b, cur) \<leftarrow> split_at_checked (unat len) cur;
          s \<leftarrow> from_utf8 b;
          Some (s, cur) }"

definition put_str_list :: "string list \<Rightarrow> bytes" where
  "put_str_list list = put_counted put_str list"

definition take_str_list :: "string list cursor" where
  "take_str_list cur = take_counted take_str cur"

section \<open>The spawn request\<close>

definition SPAWN_PATCH_MAX_BYTES :: nat where
  "SPAWN_PATCH_MAX_BYTES = 64 * 1024"

definition put_patch_pair :: "string \<times> string \<Rightarrow> bytes" where
  "put_patch_pair fv = put_str (fst fv) @ put_str (snd fv)"

definition take_patch_pair :: "(string \<times> string) cursor" where
  "take_patch_pair cur =
     do { (field, cur) \<leftarrow> take_str cur;
          (value, cur) \<leftarrow> take_str cur;
          if field = [] then None else Some ((field, value), cur) }"

definition spawn_encode_request :: "string \<Rightarrow> (string \<times> string) list \<Rightarrow> bytes" where
  "spawn_encode_request template patch =
     put_str template @ put_counted put_patch_pair patch"

definition spawn_decode_request :: "bytes \<Rightarrow> (string \<times> (string \<times> string) list) option" where
  "spawn_decode_request data =
     (if length data > SPAWN_PATCH_MAX_BYTES then None
      else do { (template, cur) \<leftarrow> take_str data;
                if template = [] then None
                else do { (patch, cur) \<leftarrow> take_counted take_patch_pair cur;
                          if cur = [] then Some (template, patch) else None } })"

definition spawn_encode_reply :: "u8 \<Rightarrow> string \<Rightarrow> bytes" where
  "spawn_encode_reply status uuid = status # as_bytes uuid"

section \<open>Service connection and sessions\<close>

definition SVC_NAME_MAX_BYTES :: nat where
  "SVC_NAME_MAX_BYTES = 255"

definition svc_encode_request :: "string \<Rightarrow> bytes" where
  "svc_encode_request name = as_bytes name"

definition svc_decode_request :: "bytes \<Rightarrow> string option" where
  "svc_decode_request data =
     (if data = [] \<or> length data > SVC_NAME_MAX_BYTES then None else from_utf8 data)"

definition svc_encode_reply :: "u8 \<Rightarrow> bytes" where
  "svc_encode_reply status = [status]"

definition svc_decode_reply :: "bytes \<Rightarrow> u8 option" where
  "svc_decode_reply data = get_at data 0"

definition encode_ref :: "u16 \<times> string \<Rightarrow> bytes" where
  "encode_ref r = (case r of (ctx, name) \<Rightarrow> put_u16 ctx @ put_str name)"

definition decode_ref :: "bytes \<Rightarrow> (u16 \<times> string) option" where
  "decode_ref data =
     do { (ctx, cur) \<leftarrow> take_u16 data;
          (name, cur) \<leftarrow> take_str cur;
          if cur \<noteq> [] then None else Some (ctx, name) }"

section \<open>The D-Bus session artefact\<close>

record AcceptSession =
  as_bus :: u8
  as_talk :: "string list"
  as_call :: "string list"
  as_broadcast :: "string list"
  as_own :: "string list"
  as_deny_talk :: "string list"

definition broker_encode_accept :: "AcceptSession \<Rightarrow> bytes" where
  "broker_encode_accept a =
     put_u8 (as_bus a) @ put_str_list (as_talk a) @ put_str_list (as_call a)
     @ put_str_list (as_broadcast a) @ put_str_list (as_own a) @ put_str_list (as_deny_talk a)"

definition broker_decode_accept :: "bytes \<Rightarrow> AcceptSession option" where
  "broker_decode_accept data =
     do { (bus, cur) \<leftarrow> take_u8 data;
          (talk, cur) \<leftarrow> take_str_list cur;
          (call, cur) \<leftarrow> take_str_list cur;
          (broadcast, cur) \<leftarrow> take_str_list cur;
          (own, cur) \<leftarrow> take_str_list cur;
          (deny_talk, cur) \<leftarrow> take_str_list cur;
          if cur \<noteq> [] then None
          else Some \<lparr>as_bus = bus, as_talk = talk, as_call = call, as_broadcast = broadcast,
                     as_own = own, as_deny_talk = deny_talk\<rparr> }"

section \<open>The UDP session artefact\<close>

definition TUN_CAPABILITY :: string where
  "TUN_CAPABILITY = ''org.projectkennel.tun-udp''"

record Grant =
  gr_name :: string
  gr_ports :: "u16 list"
  gr_protocol :: u8

record AcceptTunSession =
  at_tun_addr :: bytes
  at_grants :: "Grant list"

definition put_grant :: "Grant \<Rightarrow> bytes" where
  "put_grant g =
     put_str (gr_name g) @ put_counted put_u16 (gr_ports g) @ put_u8 (gr_protocol g)"

definition take_grant :: "Grant cursor" where
  "take_grant cur =
     do { (name, cur) \<leftarrow> take_str cur;
          (ports, cur) \<leftarrow> take_counted take_u16 cur;
          (protocol, cur) \<leftarrow> take_u8 cur;
          Some (\<lparr>gr_name = name, gr_ports = ports, gr_protocol = protocol\<rparr>, cur) }"

definition tun_encode_accept :: "AcceptTunSession \<Rightarrow> bytes" where
  "tun_encode_accept a =
     at_tun_addr a @ put_counted put_grant (at_grants a)"

definition tun_decode_accept :: "bytes \<Rightarrow> AcceptTunSession option" where
  "tun_decode_accept data =
     do { (tun_addr, cur) \<leftarrow> split_at_checked 16 data;
          (grants, cur) \<leftarrow> take_counted take_grant cur;
          if cur \<noteq> [] then None else Some \<lparr>at_tun_addr = tun_addr, at_grants = grants\<rparr> }"

section \<open>The fields are field codecs\<close>

definition valid_str :: "string \<Rightarrow> bool" where
  "valid_str s \<longleftrightarrow> is_str s \<and> length s \<le> 65535"

lemma take_u8_iff [field_iffs]: "take_u8 cur = Some (v, rest) \<longleftrightarrow> cur = put_u8 v @ rest"
  by (auto simp: take_u8_def put_u8_def bind_eq_Some_conv field_iffs get_at_def length_Suc_conv)

lemma put_str_valid: "length s \<le> 65535 \<Longrightarrow> put_str s = put_u16 (word_of_nat (length s)) @ as_bytes s"
  by (simp add: put_str_def unat_of_nat)

lemma take_str_iff [field_iffs]:
  "take_str cur = Some (s, rest) \<longleftrightarrow> valid_str s \<and> cur = put_str s @ rest"
proof
  assume "take_str cur = Some (s, rest)"
  then obtain len b where len: "cur = put_u16 len @ b @ rest" "length b = unat len"
    and b: "from_utf8 b = Some s"
    by (auto simp: take_str_def bind_eq_Some_conv field_iffs)
  from from_utf8_Some [OF b] len(2) have "as_bytes s = b" "is_str s" "length s = unat len"
    by (auto simp flip: length_as_bytes)
  with len(1) unat_u16_lt [of len] show "valid_str s \<and> cur = put_str s @ rest"
    by (simp add: valid_str_def put_str_valid)
next
  assume "valid_str s \<and> cur = put_str s @ rest"
  then show "take_str cur = Some (s, rest)"
    by (simp add: take_str_def valid_str_def put_str_valid from_utf8_as_bytes unat_of_nat)
qed

interpretation port: counted_codec put_u16 take_u16 "\<lambda>_. True"
  by unfold_locales (simp add: field_iffs)

interpretation str: counted_codec put_str take_str valid_str
  by unfold_locales (rule take_str_iff)

definition valid_patch_pair :: "string \<times> string \<Rightarrow> bool" where
  "valid_patch_pair fv \<longleftrightarrow> fst fv \<noteq> [] \<and> valid_str (fst fv) \<and> valid_str (snd fv)"

interpretation patch_pair: counted_codec put_patch_pair take_patch_pair valid_patch_pair
  by unfold_locales (auto simp: take_patch_pair_def put_patch_pair_def valid_patch_pair_def
    bind_eq_Some_conv field_iffs)

definition valid_grant :: "Grant \<Rightarrow> bool" where
  "valid_grant g \<longleftrightarrow> valid_str (gr_name g) \<and> length (gr_ports g) \<le> 65535"

lemma counted_True [simp]: "counted (\<lambda>_. True) xs \<longleftrightarrow> length xs \<le> 65535"
  by (simp add: counted_def list_all_iff)

lemma take_grant_iff: "take_grant cur = Some (g, rest) \<longleftrightarrow> valid_grant g \<and> cur = put_grant g @ rest"
  by (cases g) (auto simp: take_grant_def put_grant_def valid_grant_def bind_eq_Some_conv
    take_str_iff take_u8_iff port.counted_iff)

interpretation grant: counted_codec put_grant take_grant valid_grant
  by unfold_locales (rule take_grant_iff)

section \<open>The decoders are canonical\<close>

text \<open>A \<open>CONNECT_INET\<close> payload decodes exactly when it is the encoding of a non-empty UTF-8 host of at
  most the given length.\<close>

lemma inet_decode_request_iff:
  "inet_decode_request data max_host = Some (transport, port, host) \<longleftrightarrow>
     host \<noteq> [] \<and> length host \<le> max_host \<and> is_str host
     \<and> data = inet_encode_request transport port host"
proof -
  obtain hi lo where p: "u16_to_be port = [hi, lo]" by (rule u16_to_be_pair)
  have "u16_of_be [x, y] = port \<longleftrightarrow> x = hi \<and> y = lo" for x y
    using p by (metis u16_of_to_be u16_of_pair list.inject)
  then show ?thesis
    by (auto simp: inet_decode_request_def inet_encode_request_def p bind_eq_Some_conv
        from_utf8_as_bytes dest!: from_utf8_Some split: list.splits)
qed

interpretation bind_request: canonical_codec "\<lambda>(t, p). encode_bind_request t p" decode_bind_request
  "\<lambda>_. True"
proof unfold_locales
  fix x :: "u8 \<times> u16"
  obtain hi lo where p: "u16_to_be (snd x) = [hi, lo]" by (rule u16_to_be_pair)
  with u16_of_to_be [of "snd x"] show "decode_bind_request (case x of (t, p) \<Rightarrow> encode_bind_request t p) = Some x"
    by (simp add: decode_bind_request_def encode_bind_request_def split_def)
next
  fix bs and x :: "u8 \<times> u16"
  assume "decode_bind_request bs = Some x"
  then show "True \<and> (case x of (t, p) \<Rightarrow> encode_bind_request t p) = bs"
    by (auto simp: decode_bind_request_def encode_bind_request_def u16_of_pair split: list.splits)
qed

interpretation session_ref: canonical_codec encode_ref decode_ref "\<lambda>(ctx, name). valid_str name"
  by unfold_locales (auto simp: decode_ref_def encode_ref_def bind_eq_Some_conv field_iffs
    split: if_splits)

definition valid_accept_session :: "AcceptSession \<Rightarrow> bool" where
  "valid_accept_session a \<longleftrightarrow> counted valid_str (as_talk a) \<and> counted valid_str (as_call a)
     \<and> counted valid_str (as_broadcast a) \<and> counted valid_str (as_own a)
     \<and> counted valid_str (as_deny_talk a)"

lemma take_str_list_iff [field_iffs]:
  "take_str_list cur = Some (l, rest) \<longleftrightarrow> counted valid_str l \<and> cur = put_str_list l @ rest"
  by (simp add: take_str_list_def put_str_list_def str.counted_iff)

lemma broker_decode_accept_iff:
  "broker_decode_accept data = Some a \<longleftrightarrow> valid_accept_session a \<and> data = broker_encode_accept a"
  by (cases a) (auto simp: broker_decode_accept_def broker_encode_accept_def valid_accept_session_def
    bind_eq_Some_conv field_iffs split: if_splits)

interpretation accept_session: canonical_codec broker_encode_accept broker_decode_accept
  valid_accept_session
  by unfold_locales (auto simp: broker_decode_accept_iff)

lemma spawn_decode_request_iff:
  "spawn_decode_request data = Some (template, patch) \<longleftrightarrow>
     data = spawn_encode_request template patch \<and> length data \<le> 65536
     \<and> template \<noteq> [] \<and> valid_str template \<and> counted valid_patch_pair patch"
  by (auto simp: spawn_decode_request_def spawn_encode_request_def SPAWN_PATCH_MAX_BYTES_def
    bind_eq_Some_conv take_str_iff patch_pair.counted_iff split: if_splits)

text \<open>C21. A \<open>SPAWN\<close> payload from a workload is accepted exactly when it is, byte for byte, the encoding of a
  template name and a patch whose template and fields are non-empty, whose strings are UTF-8 of at
  most 65535 bytes, with at most 65535 entries and 64 KiB in total: trailing bytes, truncated fields,
  and second wire forms of the same request are all refused.\<close>

theorem spawn_decode_request_canonical:
  "spawn_decode_request data = Some (template, patch) \<longleftrightarrow>
     data = spawn_encode_request template patch \<and> length data \<le> 65536
     \<and> template \<noteq> [] \<and> valid_str template \<and> length patch \<le> 65535
     \<and> list_all (\<lambda>(field, value). field \<noteq> [] \<and> valid_str field \<and> valid_str value) patch"
  by (auto simp: spawn_decode_request_iff counted_def valid_patch_pair_def list_all_iff)

text \<open>The UDP session artefact the daemon pushes to the broker is read back as written: the broker decodes
  a payload to a session exactly when the payload is that session's encoding, with a 16-byte tunnel
  address and every grant within the field bounds. No grant can be added, dropped, reordered or
  widened on the wire.\<close>

theorem tun_decode_accept_canonical:
  "tun_decode_accept data = Some a \<longleftrightarrow>
     data = tun_encode_accept a \<and> length (at_tun_addr a) = 16 \<and> length (at_grants a) \<le> 65535
     \<and> list_all (\<lambda>g. valid_str (gr_name g) \<and> length (gr_ports g) \<le> 65535) (at_grants a)"
  unfolding valid_grant_def [symmetric]
  by (cases a) (auto simp: tun_decode_accept_def tun_encode_accept_def bind_eq_Some_conv
    split_at_checked_iff grant.counted_iff counted_def split: if_splits)

end
