(* ===== verification/Net_Addr.thy ===== *)
theory Net_Addr
  imports Kennel_Prelude
begin

unbundle bit_operations_syntax

text \<open>
  IP addresses and their special-use classification (\<open>kennel-lib-policy/src/netaddr.rs\<close>), the
  predicate the TCP decision and the UDP dial share. An address is its 32-bit or 128-bit value;
  \<open>octets\<close> are its big-endian bytes. The predicates of \<open>std::net\<close> that the code calls are
  written from their documented octet tests. The lemmas give each classification as the set of
  address prefixes it covers, so that they can be compared with CIDR rules.
\<close>

section \<open>Addresses\<close>

type_synonym Ipv4Addr = "32 word"
type_synonym Ipv6Addr = "128 word"

datatype IpAddr = V4 Ipv4Addr | V6 Ipv6Addr

definition v4_octets :: "Ipv4Addr \<Rightarrow> bytes" where
  "v4_octets a = be_bytes 4 (unat a)"

definition v6_octets :: "Ipv6Addr \<Rightarrow> bytes" where
  "v6_octets a = be_bytes 16 (unat a)"

definition v4_from :: "bytes \<Rightarrow> Ipv4Addr" where
  "v4_from bs = word_of_nat (be_val bs)"

definition v6_from :: "bytes \<Rightarrow> Ipv6Addr" where
  "v6_from bs = word_of_nat (be_val bs)"

lemma length_octets [simp]: "length (v4_octets a) = 4" "length (v6_octets b) = 16"
  by (simp_all add: v4_octets_def v6_octets_def)

lemma unat_v4_lt: "unat (a :: Ipv4Addr) < 2 ^ 32"
  and unat_v6_lt: "unat (b :: Ipv6Addr) < 2 ^ 128"
  using unsigned_less [of a, where 'a = nat] unsigned_less [of b, where 'a = nat] by simp_all

lemma be_val_octets [simp]:
  "be_val (v4_octets a) = unat a" "be_val (v6_octets b) = unat b"
  using unat_v4_lt [of a] unat_v6_lt [of b]
  by (simp_all add: v4_octets_def v6_octets_def be_val_be_bytes)

lemma from_octets [byte_simps, simp]:
  "v4_from (v4_octets a) = a" "v6_from (v6_octets b) = b"
  by (simp_all add: v4_from_def v6_from_def)

lemma octets_v4_from [byte_simps]: "length bs = 4 \<Longrightarrow> v4_octets (v4_from bs) = bs"
  using be_val_bound [of bs] be_bytes_be_val [of bs]
  by (simp add: v4_octets_def v4_from_def unat_of_nat)

lemma octets_v6_from [byte_simps]: "length bs = 16 \<Longrightarrow> v6_octets (v6_from bs) = bs"
  using be_val_bound [of bs] be_bytes_be_val [of bs]
  by (simp add: v6_octets_def v6_from_def unat_of_nat)

lemma octets_inj: "v4_octets a = v4_octets a' \<longleftrightarrow> a = a'" "v6_octets b = v6_octets b' \<longleftrightarrow> b = b'"
  by (metis from_octets(1)) (metis from_octets(2))

text \<open>The leading octets as digits of the value.\<close>

lemma v4_octets_eq:
  "v4_octets a = [word_of_nat (unat a div 2 ^ 24), word_of_nat (unat a div 2 ^ 16),
                  word_of_nat (unat a div 2 ^ 8), word_of_nat (unat a)]"
proof -
  have four: "(4 :: nat) = Suc (Suc (Suc (Suc 0)))" by simp
  show ?thesis by (simp only: v4_octets_def four be_bytes_Cons) simp
qed

lemma v6_octets_eq:
  "v6_octets a = word_of_nat (unat a div 2 ^ 120) # word_of_nat (unat a div 2 ^ 112)
     # be_bytes 14 (unat a)"
proof -
  have sixteen: "(16 :: nat) = Suc (Suc 14)" by simp
  show ?thesis by (simp only: v6_octets_def sixteen be_bytes_Cons) simp
qed

section \<open>The predicates of \<open>std::net\<close>\<close>

definition v4_is_private :: "Ipv4Addr \<Rightarrow> bool" where
  "v4_is_private a = (case v4_octets a of
     [x, y, _, _] \<Rightarrow> x = 10 \<or> x = 172 \<and> 16 \<le> y \<and> y \<le> 31 \<or> x = 192 \<and> y = 168
   | _ \<Rightarrow> False)"

definition v4_is_loopback :: "Ipv4Addr \<Rightarrow> bool" where
  "v4_is_loopback a = (case v4_octets a of x # _ \<Rightarrow> x = 127 | _ \<Rightarrow> False)"

definition v4_is_link_local :: "Ipv4Addr \<Rightarrow> bool" where
  "v4_is_link_local a = (case v4_octets a of x # y # _ \<Rightarrow> x = 169 \<and> y = 254 | _ \<Rightarrow> False)"

definition v4_is_broadcast :: "Ipv4Addr \<Rightarrow> bool" where
  "v4_is_broadcast a = (v4_octets a = [255, 255, 255, 255])"

definition v4_is_documentation :: "Ipv4Addr \<Rightarrow> bool" where
  "v4_is_documentation a = (case v4_octets a of
     [x, y, z, _] \<Rightarrow> x = 192 \<and> y = 0 \<and> z = 2 \<or> x = 198 \<and> y = 51 \<and> z = 100
                  \<or> x = 203 \<and> y = 0 \<and> z = 113
   | _ \<Rightarrow> False)"

definition v4_is_unspecified :: "Ipv4Addr \<Rightarrow> bool" where
  "v4_is_unspecified a = (a = 0)"

definition v4_is_multicast :: "Ipv4Addr \<Rightarrow> bool" where
  "v4_is_multicast a = (case v4_octets a of x # _ \<Rightarrow> 224 \<le> x \<and> x \<le> 239 | _ \<Rightarrow> False)"

definition v6_is_loopback :: "Ipv6Addr \<Rightarrow> bool" where
  "v6_is_loopback a = (a = 1)"

definition v6_is_unspecified :: "Ipv6Addr \<Rightarrow> bool" where
  "v6_is_unspecified a = (a = 0)"

definition v6_is_multicast :: "Ipv6Addr \<Rightarrow> bool" where
  "v6_is_multicast a = (case v6_octets a of x # _ \<Rightarrow> x = 255 | _ \<Rightarrow> False)"

section \<open>The classification\<close>

definition is_cgnat :: "Ipv4Addr \<Rightarrow> bool" where
  "is_cgnat a = (case v4_octets a of first # second # _ \<Rightarrow>
     first = 100 \<and> 64 \<le> second \<and> second \<le> 127 | _ \<Rightarrow> False)"

definition is_ula :: "Ipv6Addr \<Rightarrow> bool" where
  "is_ula a = (case v6_octets a of first # _ \<Rightarrow> first AND 0xfe = 0xfc | _ \<Rightarrow> False)"

definition is_v6_link_local :: "Ipv6Addr \<Rightarrow> bool" where
  "is_v6_link_local a = (case v6_octets a of first # second # _ \<Rightarrow>
     first = 0xfe \<and> second AND 0xc0 = 0x80 | _ \<Rightarrow> False)"

fun is_special_use :: "IpAddr \<Rightarrow> bool" where
  "is_special_use (V4 a) \<longleftrightarrow>
     v4_is_private a \<or> v4_is_loopback a \<or> v4_is_link_local a \<or> v4_is_broadcast a
     \<or> v4_is_documentation a \<or> v4_is_unspecified a \<or> v4_is_multicast a \<or> is_cgnat a"
| "is_special_use (V6 a) \<longleftrightarrow>
     v6_is_loopback a \<or> v6_is_unspecified a \<or> v6_is_multicast a \<or> is_ula a \<or> is_v6_link_local a"

fun is_nonroutable_egress :: "IpAddr \<Rightarrow> bool" where
  "is_nonroutable_egress (V4 a) \<longleftrightarrow>
     v4_is_loopback a \<or> v4_is_link_local a \<or> v4_is_unspecified a \<or> v4_is_broadcast a
     \<or> v4_is_multicast a"
| "is_nonroutable_egress (V6 a) \<longleftrightarrow>
     v6_is_loopback a \<or> v6_is_unspecified a \<or> v6_is_multicast a \<or> is_v6_link_local a"

section \<open>Octet tests as prefix tests\<close>

text \<open>Each octet test of the classification is a test on the leading bits of the value.\<close>

lemma octet_arith:
  fixes n :: nat
  shows "n div 16777216 = n div 65536 div 256" "n div 1048576 = n div 65536 div 16"
    "n div 4194304 = n div 65536 div 64" "n div 268435456 = n div 65536 div 4096"
    "n div 65536 = n div 256 div 256"
  by (simp_all add: div_mult2_eq [symmetric])

lemma unat_v4_div_lt: "unat (a :: Ipv4Addr) div 65536 < 65536" "unat a div 256 < 16777216"
  using unat_v4_lt [of a] by (simp_all add: less_mult_imp_div_less)

lemma range_digit:
  "(16 :: nat) \<le> r \<and> r \<le> 31 \<longleftrightarrow> r div 16 = 1" "(64 :: nat) \<le> r \<and> r \<le> 127 \<longleftrightarrow> r div 64 = 1"
  "(224 :: nat) \<le> r \<and> r \<le> 239 \<longleftrightarrow> r div 16 = 14"
  by arith+

lemma v4_is_private_iff: "v4_is_private a \<longleftrightarrow>
   unat a div 2 ^ 24 = 10 \<or> unat a div 2 ^ 20 = 2753 \<or> unat a div 2 ^ 16 = 49320"
proof -
  define m where "m = unat a div 65536"
  have q: "m div 256 < 256" using unat_v4_div_lt(1) [of a] by (simp add: m_def)
  have "m div 256 = 172 \<and> m mod 256 div 16 = 1 \<longleftrightarrow> m div 16 = 2753"
    using mod_div_digit [of m 16 16] digits_eq_iff [of 1 16 "m div 16" 172]
    by (simp add: div_mult2_eq [symmetric])
  moreover have "m div 256 = 192 \<and> m mod 256 = 168 \<longleftrightarrow> m = 49320"
    using digits_eq_iff [of 168 256 m 192] by simp
  ultimately show ?thesis
    using q by (simp add: v4_is_private_def v4_octets_eq of_nat_u8_eq_iff le_of_nat_u8_iff
      octet_arith(1,2) range_digit flip: m_def)
qed

lemma v4_is_loopback_iff: "v4_is_loopback a \<longleftrightarrow> unat a div 2 ^ 24 = 127"
  using unat_v4_div_lt(1) [of a]
  by (simp add: v4_is_loopback_def v4_octets_eq of_nat_u8_eq_iff octet_arith(1))

lemma v4_is_link_local_iff: "v4_is_link_local a \<longleftrightarrow> unat a div 2 ^ 16 = 43518"
  using unat_v4_div_lt(1) [of a] digits_eq_iff [of 254 256 "unat a div 65536" 169]
  by (simp add: v4_is_link_local_def v4_octets_eq of_nat_u8_eq_iff octet_arith(1))

lemma v4_is_multicast_iff: "v4_is_multicast a \<longleftrightarrow> unat a div 2 ^ 28 = 14"
  using unat_v4_div_lt(1) [of a] div_mult2_eq [of "unat a div 65536" 256 16]
  by (simp add: v4_is_multicast_def v4_octets_eq of_nat_u8_eq_iff le_of_nat_u8_iff octet_arith(1,4)
    range_digit)

lemma is_cgnat_iff: "is_cgnat a \<longleftrightarrow> unat a div 2 ^ 22 = 401"
proof -
  define m where "m = unat a div 65536"
  have q: "m div 256 < 256" using unat_v4_div_lt(1) [of a] by (simp add: m_def)
  have "m div 256 = 100 \<and> m mod 256 div 64 = 1 \<longleftrightarrow> m div 64 = 401"
    using mod_div_digit [of m 64 4] digits_eq_iff [of 1 4 "m div 64" 100]
    by (simp add: div_mult2_eq [symmetric])
  then show ?thesis
    using q by (simp add: is_cgnat_def v4_octets_eq of_nat_u8_eq_iff le_of_nat_u8_iff
      octet_arith(1,3) range_digit flip: m_def)
qed

lemma v4_is_unspecified_iff: "v4_is_unspecified a \<longleftrightarrow> unat a = 0"
  by (simp add: v4_is_unspecified_def unat_eq_zero)

lemma v4_is_documentation_iff: "v4_is_documentation a \<longleftrightarrow>
   unat a div 2 ^ 8 = 12582914 \<or> unat a div 2 ^ 8 = 12989284 \<or> unat a div 2 ^ 8 = 13303921"
proof -
  define k where "k = unat a div 256"
  have q: "k div 256 div 256 < 256" using unat_v4_div_lt(2) [of a] by (simp add: k_def)
  have "k div 256 div 256 = x \<and> k div 256 mod 256 = y \<and> k mod 256 = z \<longleftrightarrow> k = (x * 256 + y) * 256 + z"
    if "y < 256" "z < 256" for x y z
    using digits_eq_iff [of z 256 k "x * 256 + y"] digits_eq_iff [of y 256 "k div 256" x] that by auto
  from this [of 0 2 192] this [of 51 100 198] this [of 0 113 203] q show ?thesis
    by (simp add: v4_is_documentation_def v4_octets_eq of_nat_u8_eq_iff octet_arith(1,5) flip: k_def)
qed

lemma v4_is_broadcast_iff: "v4_is_broadcast a \<longleftrightarrow> unat a = 4294967295"
proof -
  have "v4_octets (4294967295 :: Ipv4Addr) = [255, 255, 255, 255]" by (simp add: v4_octets_eq)
  then have "v4_is_broadcast a \<longleftrightarrow> a = 4294967295"
    by (metis v4_is_broadcast_def octets_inj(1))
  then show ?thesis by (simp add: word_unat_eq_iff)
qed

lemmas v4_class_iffs = v4_is_private_iff v4_is_loopback_iff v4_is_link_local_iff
  v4_is_multicast_iff is_cgnat_iff v4_is_unspecified_iff v4_is_documentation_iff v4_is_broadcast_iff

lemma unat_v6_div_lt: "unat (a :: Ipv6Addr) div 2 ^ 120 < 256" "unat a div 2 ^ 112 < 65536"
  using unat_v6_lt [of a] by (simp_all add: less_mult_imp_div_less)

lemma v6_first_two: "unat (a :: Ipv6Addr) div 2 ^ 120 = unat a div 2 ^ 112 div 256"
  by (simp add: div_mult2_eq [symmetric])

lemma v6_is_multicast_iff: "v6_is_multicast a \<longleftrightarrow> unat a div 2 ^ 120 = 255"
  using unat_v6_div_lt(1) [of a]
  by (simp add: v6_is_multicast_def v6_octets_eq of_nat_u8_eq_iff)

lemma top_seven_bits: "(x :: u8) AND 0xfe = 0xfc \<longleftrightarrow> unat x div 2 = 126"
proof -
  have m: "NOT (mask 1) = (0xfe :: u8)" by code_simp
  show ?thesis using and_not_mask_eq_iff [of x 1 "0xfc", unfolded m] by simp
qed

lemma top_two_bits: "(x :: u8) AND 0xc0 = 0x80 \<longleftrightarrow> unat x div 64 = 2"
proof -
  have m: "NOT (mask 6) = (0xc0 :: u8)" by code_simp
  show ?thesis using and_not_mask_eq_iff [of x 6 "0x80", unfolded m] by simp
qed

lemma is_ula_iff: "is_ula a \<longleftrightarrow> unat a div 2 ^ 121 = 126"
  using unat_v6_div_lt(1) [of a] div_mult2_eq [of "unat a" "2 ^ 120" 2]
  by (simp add: is_ula_def v6_octets_eq top_seven_bits unat_of_nat)

lemma is_v6_link_local_iff: "is_v6_link_local a \<longleftrightarrow> unat a div 2 ^ 118 = 1018"
proof -
  define m where "m = unat a div 2 ^ 112"
  have q: "m div 256 < 256" using unat_v6_div_lt(2) [of a] by (simp add: m_def)
  have "m div 256 = 254 \<and> m mod 256 div 64 = 2 \<longleftrightarrow> m div 64 = 1018"
    using mod_div_digit [of m 64 4] digits_eq_iff [of 2 4 "m div 64" 254]
    by (simp add: div_mult2_eq [symmetric])
  moreover have "is_v6_link_local a \<longleftrightarrow> m div 256 mod 256 = 254 \<and> m mod 256 div 64 = 2"
    by (simp only: is_v6_link_local_def v6_octets_eq v6_first_two m_def [symmetric])
      (simp add: top_two_bits of_nat_u8_eq_iff unat_of_nat)
  moreover have "unat a div 2 ^ 118 = m div 64"
    by (simp add: m_def div_mult2_eq [symmetric])
  ultimately show ?thesis
    using q by simp
qed

lemma v6_point_iffs:
  "v6_is_loopback a \<longleftrightarrow> unat a = 1" "v6_is_unspecified a \<longleftrightarrow> unat a = 0"
  by (simp_all add: v6_is_loopback_def v6_is_unspecified_def word_unat_eq_iff)

lemmas v6_class_iffs = v6_is_multicast_iff is_ula_iff is_v6_link_local_iff v6_point_iffs

text \<open>The UDP gate refuses a subset of what the TCP gate refuses.\<close>

lemma nonroutable_is_special: "is_nonroutable_egress a \<Longrightarrow> is_special_use a"
  by (cases a) auto

end
