(* ===== verification/Priv_Wire.thy ===== *)
theory Priv_Wire
  imports Net_Addr Rust_Text
begin

text \<open>
  The messages of the privileged helper (\<open>kennel-privhelper/src/wire.rs\<close>): the fixed-length request and
  response, and the egress payload, the tail of the construct datagram that carries the contents of
  the BPF maps. Integers are in the byte order of the machine, which is little-endian on the
  platforms the BPF objects are built for. An entry of a map is a key and a value; the fixed-size
  arrays of the code are byte strings, whose lengths \<open>payload_shaped\<close> states.
\<close>

definition REQUEST_LEN :: nat where "REQUEST_LEN = 38"
definition RESPONSE_LEN :: nat where "RESPONSE_LEN = 6"
definition INTERFACE_FIELD :: nat where "INTERFACE_FIELD = 16"
definition META_LEN :: nat where "META_LEN = 64"
definition MAX_ENTRIES :: nat where "MAX_ENTRIES = 8192"
definition MAX_PIN_ID :: nat where "MAX_PIN_ID = 256"
definition WIRE_MAX_BIND_PORTS :: nat where "WIRE_MAX_BIND_PORTS = 8"

lemmas wire_consts = REQUEST_LEN_def RESPONSE_LEN_def INTERFACE_FIELD_def META_LEN_def MAX_ENTRIES_def
  MAX_PIN_ID_def WIRE_MAX_BIND_PORTS_def

type_synonym lpm_entry = "bytes \<times> bytes"

section \<open>Requests and responses\<close>

datatype PrivOp = DelAddr

fun op_to_byte :: "PrivOp \<Rightarrow> u8" where
  "op_to_byte DelAddr = 2"

definition op_from_byte :: "u8 \<Rightarrow> PrivOp option" where
  "op_from_byte b = (if b = 2 then Some DelAddr else None)"

datatype PrivStatus = StatusOk | StatusRefused | StatusProtocol | StatusInternal

fun status_to_byte :: "PrivStatus \<Rightarrow> u8" where
  "status_to_byte StatusOk = 0"
| "status_to_byte StatusRefused = 1"
| "status_to_byte StatusProtocol = 2"
| "status_to_byte StatusInternal = 3"

definition status_from_byte :: "u8 \<Rightarrow> PrivStatus option" where
  "status_from_byte b =
     (if b = 0 then Some StatusOk else if b = 1 then Some StatusRefused
      else if b = 2 then Some StatusProtocol else if b = 3 then Some StatusInternal else None)"

record PrivRequest =
  pr_op :: PrivOp
  pr_ctx :: u16
  pr_addr :: IpAddr
  pr_prefix :: u8
  pr_interface :: string

datatype PrivWireError = BadLength | BadOp | BadFamily | BadString

definition pad_field :: "nat \<Rightarrow> bytes \<Rightarrow> bytes" where
  "pad_field n src = take n src @ replicate (n - length src) 0"

definition read_string :: "bytes \<Rightarrow> PrivWireError + string" where
  "read_string field = ok_or (from_utf8 (takeWhile (\<lambda>b. b \<noteq> 0) field)) BadString"

definition priv_encode_request :: "PrivRequest \<Rightarrow> bytes" where
  "priv_encode_request r =
     (let (family, addr16) = (case pr_addr r of
            V4 a \<Rightarrow> (4, v4_octets a @ replicate 12 0)
          | V6 a \<Rightarrow> (6, v6_octets a))
      in [op_to_byte (pr_op r), family, pr_prefix r, 0] @ u16_to_le (pr_ctx r) @ addr16
         @ pad_field INTERFACE_FIELD (as_bytes (pr_interface r)))"

definition priv_decode_request :: "bytes \<Rightarrow> PrivWireError + PrivRequest" where
  "priv_decode_request buf =
     (if length buf \<noteq> REQUEST_LEN then Inl BadLength
      else and_then (ok_or (Option.bind (get_at buf 0) op_from_byte) BadOp) (\<lambda>op.
        and_then (ok_or (get_at buf 1) BadLength) (\<lambda>family.
        and_then (ok_or (get_at buf 2) BadLength) (\<lambda>prefix.
        and_then (ok_or (map_option u16_of_le (get_range buf 4 6)) BadLength) (\<lambda>ctx.
        and_then (ok_or (get_range buf 6 22) BadLength) (\<lambda>addr16.
        and_then (if family = 4 then and_then (ok_or (get_range addr16 0 4) BadLength) (\<lambda>v4. Inr (V4 (v4_from v4)))
                  else if family = 6 then Inr (V6 (v6_from addr16))
                  else Inl BadFamily) (\<lambda>addr.
        and_then (and_then (ok_or (get_range buf 22 38) BadLength) read_string) (\<lambda>interface.
        Inr \<lparr>pr_op = op, pr_ctx = ctx, pr_addr = addr, pr_prefix = prefix, pr_interface = interface\<rparr>))))))))"

record PrivResponse =
  ps_status :: PrivStatus
  ps_refusal :: u8
  ps_errno :: "32 word"

definition response_ok :: PrivResponse where
  "response_ok = \<lparr>ps_status = StatusOk, ps_refusal = 0, ps_errno = 0\<rparr>"

definition response_refused :: "u8 \<Rightarrow> PrivResponse" where
  "response_refused code = \<lparr>ps_status = StatusRefused, ps_refusal = code, ps_errno = 0\<rparr>"

definition response_protocol :: PrivResponse where
  "response_protocol = \<lparr>ps_status = StatusProtocol, ps_refusal = 0, ps_errno = 0\<rparr>"

definition response_internal :: "32 word \<Rightarrow> PrivResponse" where
  "response_internal errno = \<lparr>ps_status = StatusInternal, ps_refusal = 0, ps_errno = errno\<rparr>"

definition encode_response :: "PrivResponse \<Rightarrow> bytes" where
  "encode_response r = [status_to_byte (ps_status r), ps_refusal r] @ u32_to_le (ps_errno r)"

definition decode_response :: "bytes \<Rightarrow> PrivWireError + PrivResponse" where
  "decode_response buf =
     (if length buf \<noteq> RESPONSE_LEN then Inl BadLength
      else and_then (ok_or (Option.bind (get_at buf 0) status_from_byte) BadOp) (\<lambda>status.
        and_then (ok_or (get_at buf 1) BadLength) (\<lambda>refusal.
        and_then (ok_or (map_option u32_of_le (get_range buf 2 6)) BadLength) (\<lambda>errno.
        Inr \<lparr>ps_status = status, ps_refusal = refusal, ps_errno = errno\<rparr>))))"

section \<open>The egress payload\<close>

record EgressPayload =
  eg_meta :: bytes
  eg_allow_v4 :: "lpm_entry list"
  eg_deny_v4 :: "lpm_entry list"
  eg_allow_v6 :: "lpm_entry list"
  eg_deny_v6 :: "lpm_entry list"
  eg_bind_allow_v4 :: "lpm_entry list"
  eg_bind_deny_v4 :: "lpm_entry list"
  eg_bind_allow_v6 :: "lpm_entry list"
  eg_bind_deny_v6 :: "lpm_entry list"
  eg_bind_allowed_ports :: "u16 list"
  eg_pin_id :: string

text \<open>\<open>slice::chunks_exact\<close>\<close>

function chunks_exact :: "nat \<Rightarrow> 'a list \<Rightarrow> 'a list list" where
  "chunks_exact n xs = (if n = 0 \<or> length xs < n then [] else take n xs # chunks_exact n (drop n xs))"
  by pat_completeness auto
termination by (relation "measure (\<lambda>(n, xs). length xs)") auto

declare chunks_exact.simps [simp del]

definition read_bind_ports :: "bytes \<Rightarrow> PrivWireError + u16 list \<times> nat" where
  "read_bind_ports bs =
     (case get_range bs 0 4 of
        None \<Rightarrow> Inr ([], 0)
      | Some count_bytes \<Rightarrow>
          (let n = unat (u32_of_le count_bytes) in
           if n > WIRE_MAX_BIND_PORTS then Inl BadLength
           else and_then (ok_or (get_range bs 4 (n * 2 + 4)) BadLength) (\<lambda>region.
             Inr (map u16_of_le (chunks_exact 2 region), n * 2 + 4))))"

definition read_pin_id :: "bytes \<Rightarrow> PrivWireError + string" where
  "read_pin_id bs =
     (case get_range bs 0 4 of
        None \<Rightarrow> Inr []
      | Some len_bytes \<Rightarrow>
          (let n = unat (u32_of_le len_bytes) in
           if n > MAX_PIN_ID then Inl BadLength
           else and_then (ok_or (get_range bs 4 (n + 4)) BadLength) (\<lambda>region.
             ok_or (from_utf8 region) BadString)))"

text \<open>The two entry readers differ only in the length of the key.\<close>

fun read_chunks :: "nat \<Rightarrow> bytes list \<Rightarrow> PrivWireError + lpm_entry list" where
  "read_chunks k [] = Inr []"
| "read_chunks k (chunk # chunks) =
     and_then (ok_or (get_range chunk 0 k) BadLength) (\<lambda>key.
     and_then (ok_or (get_range chunk k (k + 8)) BadLength) (\<lambda>val.
     and_then (read_chunks k chunks) (\<lambda>out. Inr ((key, val) # out))))"

definition read_v4_entries :: "bytes \<Rightarrow> nat \<Rightarrow> PrivWireError + lpm_entry list \<times> nat" where
  "read_v4_entries bs n =
     and_then (ok_or (get_range bs 0 (n * 16)) BadLength) (\<lambda>region.
     and_then (read_chunks 8 (chunks_exact 16 region)) (\<lambda>out. Inr (out, n * 16)))"

definition read_v6_entries :: "bytes \<Rightarrow> nat \<Rightarrow> PrivWireError + lpm_entry list \<times> nat" where
  "read_v6_entries bs n =
     and_then (ok_or (get_range bs 0 (n * 28)) BadLength) (\<lambda>region.
     and_then (read_chunks 20 (chunks_exact 28 region)) (\<lambda>out. Inr (out, n * 28)))"

definition read_count :: "bytes \<Rightarrow> nat \<Rightarrow> PrivWireError + nat" where
  "read_count bs off =
     and_then (ok_or (map_option u32_of_le (get_range bs off (off + 4))) BadLength) (\<lambda>raw.
       if unat raw > MAX_ENTRIES then Inl BadLength else Inr (unat raw))"

definition count_bytes :: "nat \<Rightarrow> bytes" where
  "count_bytes n = u32_to_le (if n < 2 ^ 32 then word_of_nat n else 0xffffffff)"

definition put_entries :: "lpm_entry list \<Rightarrow> bytes" where
  "put_entries es = concat (map (\<lambda>(k, v). k @ v) es)"

definition encode_payload :: "EgressPayload \<Rightarrow> bytes" where
  "encode_payload p =
     eg_meta p
     @ concat (map count_bytes [length (eg_allow_v4 p), length (eg_deny_v4 p),
         length (eg_allow_v6 p), length (eg_deny_v6 p)])
     @ put_entries (eg_allow_v4 p @ eg_deny_v4 p)
     @ put_entries (eg_allow_v6 p @ eg_deny_v6 p)
     @ concat (map count_bytes [length (eg_bind_allow_v4 p), length (eg_bind_deny_v4 p),
         length (eg_bind_allow_v6 p), length (eg_bind_deny_v6 p)])
     @ put_entries (eg_bind_allow_v4 p @ eg_bind_deny_v4 p)
     @ put_entries (eg_bind_allow_v6 p @ eg_bind_deny_v6 p)
     @ count_bytes (length (eg_bind_allowed_ports p))
     @ concat (map u16_to_le (eg_bind_allowed_ports p))
     @ count_bytes (length (eg_pin_id p))
     @ as_bytes (eg_pin_id p)"

text \<open>
  The entry tables come in two blocks of four, each four counts followed by the entries; the code reads
  the connect tables and the bind tables with the same sequence of reads, which is \<open>read_block\<close>.
\<close>

type_synonym acl_tables = "lpm_entry list \<times> lpm_entry list \<times> lpm_entry list \<times> lpm_entry list"

definition read_block :: "nat \<Rightarrow> nat \<Rightarrow> nat \<Rightarrow> nat \<Rightarrow> bytes \<Rightarrow> PrivWireError + acl_tables \<times> nat" where
  "read_block n1 n2 n3 n4 rest =
     and_then (read_v4_entries rest n1) (\<lambda>(a4, used).
     let off = used in
     and_then (and_then (ok_or (get_from rest off) BadLength) (\<lambda>r. read_v4_entries r n2)) (\<lambda>(d4, used).
     let off = off + used in
     and_then (and_then (ok_or (get_from rest off) BadLength) (\<lambda>r. read_v6_entries r n3)) (\<lambda>(a6, used).
     let off = off + used in
     and_then (and_then (ok_or (get_from rest off) BadLength) (\<lambda>r. read_v6_entries r n4)) (\<lambda>(d6, used).
     Inr ((a4, d4, a6, d6), off + used)))))"

definition decode_payload :: "bytes \<Rightarrow> PrivWireError + EgressPayload" where
  "decode_payload buf =
     and_then (ok_or (get_range buf 0 META_LEN) BadLength) (\<lambda>meta.
     and_then (read_count buf META_LEN) (\<lambda>n_allow_v4.
     and_then (read_count buf (META_LEN + 4)) (\<lambda>n_deny_v4.
     and_then (read_count buf (META_LEN + 8)) (\<lambda>n_allow_v6.
     and_then (read_count buf (META_LEN + 12)) (\<lambda>n_deny_v6.
     and_then (ok_or (get_from buf (META_LEN + 16)) BadLength) (\<lambda>rest.
     and_then (read_block n_allow_v4 n_deny_v4 n_allow_v6 n_deny_v6 rest)
       (\<lambda>((allow_v4, deny_v4, allow_v6, deny_v6), off).
     and_then (ok_or (get_from rest off) BadLength) (\<lambda>acl.
     and_then (read_count acl 0) (\<lambda>n_bind_allow_v4.
     and_then (read_count acl 4) (\<lambda>n_bind_deny_v4.
     and_then (read_count acl 8) (\<lambda>n_bind_allow_v6.
     and_then (read_count acl 12) (\<lambda>n_bind_deny_v6.
     and_then (ok_or (get_from acl 16) BadLength) (\<lambda>acl_rest.
     and_then (read_block n_bind_allow_v4 n_bind_deny_v4 n_bind_allow_v6 n_bind_deny_v6 acl_rest)
       (\<lambda>((bind_allow_v4, bind_deny_v4, bind_allow_v6, bind_deny_v6), acl_off).
     let ports_tail = (case get_from rest (off + 16 + acl_off) of Some t \<Rightarrow> t | None \<Rightarrow> []) in
     and_then (read_bind_ports ports_tail) (\<lambda>(bind_allowed_ports, used).
     and_then (read_pin_id (case get_from ports_tail used of Some t \<Rightarrow> t | None \<Rightarrow> [])) (\<lambda>pin_id.
     Inr \<lparr>eg_meta = meta, eg_allow_v4 = allow_v4, eg_deny_v4 = deny_v4, eg_allow_v6 = allow_v6,
       eg_deny_v6 = deny_v6, eg_bind_allow_v4 = bind_allow_v4, eg_bind_deny_v4 = bind_deny_v4,
       eg_bind_allow_v6 = bind_allow_v6, eg_bind_deny_v6 = bind_deny_v6,
       eg_bind_allowed_ports = bind_allowed_ports, eg_pin_id = pin_id\<rparr>))))))))))))))))"

text \<open>The lengths of the fixed-size arrays and the caps of the wire.\<close>

definition table_shaped :: "nat \<Rightarrow> lpm_entry list \<Rightarrow> bool" where
  "table_shaped k es \<longleftrightarrow> list_all (\<lambda>(key, val). length key = k \<and> length val = 8) es"

definition payload_shaped :: "EgressPayload \<Rightarrow> bool" where
  "payload_shaped p \<longleftrightarrow>
     length (eg_meta p) = META_LEN \<and> is_str (eg_pin_id p)
     \<and> table_shaped 8 (eg_allow_v4 p) \<and> table_shaped 8 (eg_deny_v4 p)
     \<and> table_shaped 20 (eg_allow_v6 p) \<and> table_shaped 20 (eg_deny_v6 p)
     \<and> table_shaped 8 (eg_bind_allow_v4 p) \<and> table_shaped 8 (eg_bind_deny_v4 p)
     \<and> table_shaped 20 (eg_bind_allow_v6 p) \<and> table_shaped 20 (eg_bind_deny_v6 p)"

definition payload_valid :: "EgressPayload \<Rightarrow> bool" where
  "payload_valid p \<longleftrightarrow>
     payload_shaped p
     \<and> length (eg_allow_v4 p) \<le> MAX_ENTRIES \<and> length (eg_deny_v4 p) \<le> MAX_ENTRIES
     \<and> length (eg_allow_v6 p) \<le> MAX_ENTRIES \<and> length (eg_deny_v6 p) \<le> MAX_ENTRIES
     \<and> length (eg_bind_allow_v4 p) \<le> MAX_ENTRIES \<and> length (eg_bind_deny_v4 p) \<le> MAX_ENTRIES
     \<and> length (eg_bind_allow_v6 p) \<le> MAX_ENTRIES \<and> length (eg_bind_deny_v6 p) \<le> MAX_ENTRIES
     \<and> length (eg_bind_allowed_ports p) \<le> WIRE_MAX_BIND_PORTS
     \<and> length (eg_pin_id p) \<le> MAX_PIN_ID"

section \<open>Reading back what was written\<close>

lemma get_range_prefix: "length a = n \<Longrightarrow> get_range (a @ b) 0 n = Some a"
  by (simp add: get_range_Some_iff)

lemma get_from_prefix: "length a = n \<Longrightarrow> get_from (a @ b) n = Some b"
  by (simp add: get_from_Some_iff)

lemma chunks_exact_put:
  assumes "0 < n" "list_all (\<lambda>c. length c = n) cs"
  shows "chunks_exact n (concat cs) = cs"
  using assms(2)
proof (induction cs)
  case Nil
  then show ?case using assms(1) by (simp add: chunks_exact.simps)
next
  case (Cons c cs)
  then show ?case using assms(1) by (subst chunks_exact.simps) simp
qed

lemma read_chunks_put:
  "list_all (\<lambda>(key, val). length key = k \<and> length val = 8) es \<Longrightarrow>
   read_chunks k (map (\<lambda>(key, val). key @ val) es) = Inr es"
  by (induction es) (auto simp: get_range_def)

lemma length_put_entries: "table_shaped k es \<Longrightarrow> length (put_entries es) = length es * (k + 8)"
  unfolding table_shaped_def put_entries_def by (induction es) auto

lemma chunks_put_entries:
  assumes "table_shaped k es"
  shows "read_chunks k (chunks_exact (k + 8) (put_entries es)) = Inr es"
proof -
  have ok: "list_all (\<lambda>(key, val). length key = k \<and> length val = 8) es"
    using assms by (simp add: table_shaped_def)
  then have "list_all (\<lambda>c. length c = k + 8) (map (\<lambda>(key, val). key @ val) es)"
    by (induction es) auto
  then show ?thesis by (simp add: put_entries_def chunks_exact_put read_chunks_put ok)
qed

lemma read_v4_put [simp]:
  "table_shaped 8 es \<Longrightarrow> read_v4_entries (put_entries es @ r) (length es) = Inr (es, length es * 16)"
  using chunks_put_entries [of 8 es] length_put_entries [of 8 es]
  by (simp add: read_v4_entries_def get_range_prefix)

lemma read_v6_put [simp]:
  "table_shaped 20 es \<Longrightarrow> read_v6_entries (put_entries es @ r) (length es) = Inr (es, length es * 28)"
  using chunks_put_entries [of 20 es] length_put_entries [of 20 es]
  by (simp add: read_v6_entries_def get_range_prefix)

lemma get_from_skip: "length a = m \<Longrightarrow> get_from (a @ b) (m + n) = get_from b n"
  by (auto simp: get_from_def)

definition put_block :: "lpm_entry list \<Rightarrow> lpm_entry list \<Rightarrow> lpm_entry list \<Rightarrow> lpm_entry list \<Rightarrow> bytes" where
  "put_block a4 d4 a6 d6 = put_entries a4 @ put_entries d4 @ put_entries a6 @ put_entries d6"

lemma length_put_block:
  assumes "table_shaped 8 a4" "table_shaped 8 d4" "table_shaped 20 a6" "table_shaped 20 d6"
  shows "length (put_block a4 d4 a6 d6) = length a4 * 16 + length d4 * 16 + length a6 * 28 + length d6 * 28"
  using assms by (simp add: put_block_def length_put_entries [of 8] length_put_entries [of 20])

lemma read_block_put:
  assumes "table_shaped 8 a4" "table_shaped 8 d4" "table_shaped 20 a6" "table_shaped 20 d6"
  shows "read_block (length a4) (length d4) (length a6) (length d6) (put_block a4 d4 a6 d6 @ r)
         = Inr ((a4, d4, a6, d6), length (put_block a4 d4 a6 d6))"
  unfolding length_put_block [OF assms]
  using assms length_put_entries [OF assms(1)] length_put_entries [OF assms(2)] length_put_entries [OF assms(3)]
  by (simp add: read_block_def put_block_def get_from_prefix get_from_skip add.assoc)

lemma length_count_bytes [simp]: "length (count_bytes n) = 4"
  by (simp add: count_bytes_def)

lemma unat_count: "unat (u32_of_le (count_bytes n)) = min n (2 ^ 32 - 1)"
proof (cases "n < 2 ^ 32")
  case True
  then have "unat (word_of_nat n :: u32) = n" unfolding unat_of_nat by (simp add: take_bit_nat_eq_self)
  then show ?thesis using True by (simp add: count_bytes_def u32_of_to_le)
next
  case False
  then show ?thesis by (simp add: count_bytes_def u32_of_to_le)
qed

lemma read_count_put:
  "length a = off \<Longrightarrow>
   read_count (a @ count_bytes n @ r) off = (if n \<le> MAX_ENTRIES then Inr n else Inl BadLength)"
  by (auto simp: read_count_def get_range_def MAX_ENTRIES_def unat_count min_def)

text \<open>Four counts behind a prefix of known length.\<close>

definition counts4 :: "nat \<Rightarrow> nat \<Rightarrow> nat \<Rightarrow> nat \<Rightarrow> bytes" where
  "counts4 n1 n2 n3 n4 = count_bytes n1 @ count_bytes n2 @ count_bytes n3 @ count_bytes n4"

lemma read_counts_put:
  assumes "length m = off"
  shows "read_count (m @ counts4 n1 n2 n3 n4 @ r) off = (if n1 \<le> MAX_ENTRIES then Inr n1 else Inl BadLength)"
    "read_count (m @ counts4 n1 n2 n3 n4 @ r) (off + 4) = (if n2 \<le> MAX_ENTRIES then Inr n2 else Inl BadLength)"
    "read_count (m @ counts4 n1 n2 n3 n4 @ r) (off + 8) = (if n3 \<le> MAX_ENTRIES then Inr n3 else Inl BadLength)"
    "read_count (m @ counts4 n1 n2 n3 n4 @ r) (off + 12) = (if n4 \<le> MAX_ENTRIES then Inr n4 else Inl BadLength)"
    "get_from (m @ counts4 n1 n2 n3 n4 @ r) (off + 16) = Some r"
  using assms read_count_put [of m off n1] read_count_put [of "m @ count_bytes n1" "off + 4" n2]
    read_count_put [of "m @ count_bytes n1 @ count_bytes n2" "off + 8" n3]
    read_count_put [of "m @ count_bytes n1 @ count_bytes n2 @ count_bytes n3" "off + 12" n4]
  by (simp_all add: get_from_def counts4_def)

definition put_ports :: "u16 list \<Rightarrow> bytes" where
  "put_ports ports = count_bytes (length ports) @ concat (map u16_to_le ports)"

lemma length_put_ports [simp]: "length (put_ports ports) = length ports * 2 + 4"
proof -
  have "length (concat (map u16_to_le ports)) = length ports * 2" by (induction ports) auto
  then show ?thesis by (simp add: put_ports_def)
qed

lemma read_bind_ports_put:
  "read_bind_ports (put_ports ports @ r) =
     (if length ports \<le> WIRE_MAX_BIND_PORTS then Inr (ports, length ports * 2 + 4) else Inl BadLength)"
proof -
  have len: "length (concat (map u16_to_le ports)) = length ports * 2" by (induction ports) auto
  have "chunks_exact 2 (concat (map u16_to_le ports)) = map u16_to_le ports"
    by (rule chunks_exact_put) (auto simp: list_all_iff)
  then have "map u16_of_le (chunks_exact 2 (concat (map u16_to_le ports))) = ports"
    by (simp add: o_def u16_of_to_le)
  then show ?thesis using len
    by (simp add: put_ports_def read_bind_ports_def get_range_prefix unat_count WIRE_MAX_BIND_PORTS_def)
      (auto simp: get_range_def min_def)
qed

definition put_pin :: "string \<Rightarrow> bytes" where
  "put_pin s = count_bytes (length s) @ as_bytes s"

lemma read_pin_id_put:
  "is_str s \<Longrightarrow> read_pin_id (put_pin s) = (if length s \<le> MAX_PIN_ID then Inr s else Inl BadLength)"
  by (simp add: put_pin_def read_pin_id_def get_range_prefix from_utf8_as_bytes unat_count MAX_PIN_ID_def)
    (auto simp: get_range_def from_utf8_as_bytes min_def)

lemma put_entries_append: "put_entries (xs @ ys) = put_entries xs @ put_entries ys"
  by (simp add: put_entries_def)

text \<open>The layout of a payload: metadata, counts, the connect block, counts, the bind block, ports, id.\<close>

definition put_acl :: "EgressPayload \<Rightarrow> bytes" where
  "put_acl p =
     counts4 (length (eg_bind_allow_v4 p)) (length (eg_bind_deny_v4 p)) (length (eg_bind_allow_v6 p)) (length (eg_bind_deny_v6 p))
     @ put_block (eg_bind_allow_v4 p) (eg_bind_deny_v4 p) (eg_bind_allow_v6 p) (eg_bind_deny_v6 p)
     @ put_ports (eg_bind_allowed_ports p) @ put_pin (eg_pin_id p)"

lemma encode_payload_layout:
  "encode_payload p = eg_meta p
     @ counts4 (length (eg_allow_v4 p)) (length (eg_deny_v4 p)) (length (eg_allow_v6 p)) (length (eg_deny_v6 p))
     @ put_block (eg_allow_v4 p) (eg_deny_v4 p) (eg_allow_v6 p) (eg_deny_v6 p) @ put_acl p"
  by (simp add: encode_payload_def put_acl_def counts4_def put_block_def put_entries_append put_ports_def put_pin_def)

lemma put_acl_tail:
  "get_from (put_block a4 d4 a6 d6 @ put_acl p)
     (length (put_block a4 d4 a6 d6) + 16
      + length (put_block (eg_bind_allow_v4 p) (eg_bind_deny_v4 p) (eg_bind_allow_v6 p) (eg_bind_deny_v6 p)))
   = Some (put_ports (eg_bind_allowed_ports p) @ put_pin (eg_pin_id p))"
  by (simp add: put_acl_def get_from_def counts4_def)

text \<open>What the decoder makes of an encoded payload: the payload within the caps, a refusal beyond them.\<close>

lemma decode_encode_payload:
  assumes "payload_shaped p"
  shows "decode_payload (encode_payload p) = (if payload_valid p then Inr p else Inl BadLength)"
proof -
  note shape = assms [unfolded payload_shaped_def]
  have acl: "read_count (put_acl p) 0 = (if length (eg_bind_allow_v4 p) \<le> MAX_ENTRIES then Inr (length (eg_bind_allow_v4 p)) else Inl BadLength)"
    "read_count (put_acl p) 4 = (if length (eg_bind_deny_v4 p) \<le> MAX_ENTRIES then Inr (length (eg_bind_deny_v4 p)) else Inl BadLength)"
    "read_count (put_acl p) 8 = (if length (eg_bind_allow_v6 p) \<le> MAX_ENTRIES then Inr (length (eg_bind_allow_v6 p)) else Inl BadLength)"
    "read_count (put_acl p) 12 = (if length (eg_bind_deny_v6 p) \<le> MAX_ENTRIES then Inr (length (eg_bind_deny_v6 p)) else Inl BadLength)"
    "get_from (put_acl p) 16 = Some (put_block (eg_bind_allow_v4 p) (eg_bind_deny_v4 p) (eg_bind_allow_v6 p) (eg_bind_deny_v6 p)
      @ put_ports (eg_bind_allowed_ports p) @ put_pin (eg_pin_id p))"
    unfolding put_acl_def using read_counts_put [of "[]" 0] by simp_all
  show ?thesis
    using shape
    by (simp add: decode_payload_def encode_payload_layout get_range_prefix read_counts_put [of "eg_meta p" META_LEN]
      read_block_put get_from_prefix acl put_acl_tail read_bind_ports_put read_pin_id_put payload_valid_def assms)
qed

section \<open>What the decoder accepts\<close>

lemma read_chunks_lengths:
  "read_chunks k cs = Inr es \<Longrightarrow> length es = length cs \<and> list_all (\<lambda>(key, val). length key = k \<and> length val = 8) es"
  by (induction cs arbitrary: es) (auto simp: and_then_Inr_iff ok_or_Inr_iff dest!: get_range_length)

lemma length_chunks_exact: "0 < n \<Longrightarrow> length (chunks_exact n xs) = length xs div n"
proof (induction n xs rule: chunks_exact.induct)
  case (1 n xs)
  then show ?case by (subst chunks_exact.simps) (auto simp: le_div_geq)
qed

lemma read_entries_valid:
  "read_v4_entries bs n = Inr (es, used) \<Longrightarrow> table_shaped 8 es \<and> length es = n"
  "read_v6_entries bs n = Inr (es, used) \<Longrightarrow> table_shaped 20 es \<and> length es = n"
  by (auto simp: read_v4_entries_def read_v6_entries_def and_then_Inr_iff ok_or_Inr_iff table_shaped_def
    length_chunks_exact dest!: read_chunks_lengths get_range_length)

lemma read_count_bound: "read_count bs off = Inr n \<Longrightarrow> n \<le> MAX_ENTRIES"
  by (auto simp: read_count_def and_then_Inr_iff split: if_splits)

lemma read_block_valid:
  "read_block n1 n2 n3 n4 rest = Inr ((a4, d4, a6, d6), used) \<Longrightarrow>
   table_shaped 8 a4 \<and> table_shaped 8 d4 \<and> table_shaped 20 a6 \<and> table_shaped 20 d6
   \<and> length a4 = n1 \<and> length d4 = n2 \<and> length a6 = n3 \<and> length d6 = n4"
  by (auto simp: read_block_def and_then_Inr_iff Let_def dest!: read_entries_valid)

lemma read_bind_ports_bound: "read_bind_ports bs = Inr (ports, used) \<Longrightarrow> length ports \<le> WIRE_MAX_BIND_PORTS"
  by (auto simp: read_bind_ports_def Let_def and_then_Inr_iff ok_or_Inr_iff length_chunks_exact
    split: option.splits if_splits dest!: get_range_length)

lemma read_pin_id_bound: "read_pin_id bs = Inr s \<Longrightarrow> length s \<le> MAX_PIN_ID \<and> is_str s"
proof -
  have "is_str []" by (simp add: is_str_def as_bytes_def)
  then show "read_pin_id bs = Inr s \<Longrightarrow> ?thesis"
    by (auto simp: read_pin_id_def Let_def and_then_Inr_iff ok_or_Inr_iff
      split: option.splits if_splits dest!: get_range_length from_utf8_Some)
qed

lemma decode_payload_valid: "decode_payload buf = Inr p \<Longrightarrow> payload_valid p"
  unfolding decode_payload_def
  by (auto simp: and_then_Inr_iff ok_or_Inr_iff payload_valid_def payload_shaped_def Let_def
    dest!: read_block_valid read_bind_ports_bound read_pin_id_bound get_range_length
    intro: read_count_bound)

section \<open>Requests and responses on the wire\<close>

lemma read_string_pad:
  assumes "is_str s" "length s \<le> n" "0 \<notin> set (as_bytes s)"
  shows "read_string (pad_field n (as_bytes s)) = Inr s"
proof -
  have "takeWhile (\<lambda>b. b \<noteq> 0) (as_bytes s @ replicate (n - length s) 0) = as_bytes s"
    using assms(3) by (cases "n - length s") (auto simp: takeWhile_tail takeWhile_eq_all_conv)
  then show ?thesis using assms(1,2) by (simp add: read_string_def pad_field_def from_utf8_as_bytes)
qed

lemma length_pad_field [simp]: "length (pad_field n bs) = n"
  by (simp add: pad_field_def)

text \<open>A request whose interface name fits its field and holds no NUL is read back as written.\<close>

lemma priv_decode_encode_request:
  assumes "is_str (pr_interface r)" "length (pr_interface r) \<le> INTERFACE_FIELD" "0 \<notin> set (as_bytes (pr_interface r))"
  shows "priv_decode_request (priv_encode_request r) = Inr r"
proof -
  obtain op c a p i where r: "r = \<lparr>pr_op = op, pr_ctx = c, pr_addr = a, pr_prefix = p, pr_interface = i\<rparr>"
    by (cases r)
  have str: "read_string (pad_field 16 (as_bytes i)) = Inr i"
    using assms by (intro read_string_pad) (simp_all add: r INTERFACE_FIELD_def)
  have "op = DelAddr" by (cases op)
  obtain c0 c1 where c: "u16_to_le c = [c0, c1]"
    by (simp add: u16_to_le_def be_bytes_numeral)
  have ctx: "u16_of_le [c0, c1] = c" using u16_of_to_le [of c] by (simp add: c)
  have dec: "priv_decode_request ([2, f, p, 0] @ [c0, c1] @ x @ pad_field 16 (as_bytes i)) =
      and_then (if f = 4 then Inr (V4 (v4_from (take 4 x))) else if f = 6 then Inr (V6 (v6_from x)) else Inl BadFamily)
        (\<lambda>addr. Inr \<lparr>pr_op = DelAddr, pr_ctx = c, pr_addr = addr, pr_prefix = p, pr_interface = i\<rparr>)"
    if x: "length x = 16" for f x
  proof -
    define buf where "buf = [2, f, p, 0] @ [c0, c1] @ x @ pad_field 16 (as_bytes i)"
    have "get_at buf 0 = Some 2" "get_at buf 1 = Some f" "get_at buf 2 = Some p" "get_range buf 4 6 = Some [c0, c1]"
      "length buf = 38"
      using x by (simp_all add: buf_def get_at_def get_range_def)
    moreover have "get_range buf 6 22 = Some x" "get_range buf 22 38 = Some (pad_field 16 (as_bytes i))"
      using x by (simp_all add: buf_def get_range_def)
    moreover have "get_range x 0 4 = Some (take 4 x)" using x by (simp add: get_range_def)
    ultimately show ?thesis
      unfolding buf_def [symmetric] by (simp add: priv_decode_request_def REQUEST_LEN_def op_from_byte_def ctx str)
  qed
  show ?thesis
    using dec [of "v4_octets x @ replicate 12 0" 4 for x] dec [of "v6_octets x" 6 for x]
    by (cases a) (simp_all add: r \<open>op = DelAddr\<close> priv_encode_request_def INTERFACE_FIELD_def c)
qed

lemma decode_response_iff: "decode_response buf = Inr r \<longleftrightarrow> buf = encode_response r"
proof
  assume ok: "decode_response buf = Inr r"
  then have "length buf = 6" by (auto simp: decode_response_def RESPONSE_LEN_def split: if_splits)
  then obtain a b c d e f where buf: "buf = [a, b, c, d, e, f]"
    by (auto simp: numeral_eq_Suc length_Suc_conv)
  have "status_from_byte a = Some st \<Longrightarrow> status_to_byte st = a" for st
    by (auto simp: status_from_byte_def split: if_splits)
  then show "buf = encode_response r"
    using ok to_of_bytes(3) [of "[c, d, e, f]"]
    by (auto simp: buf decode_response_def RESPONSE_LEN_def and_then_Inr_iff ok_or_Inr_iff get_at_def get_range_def
      encode_response_def)
next
  have [simp]: "status_from_byte (status_to_byte st) = Some st" for st
    by (cases st) (simp_all add: status_from_byte_def)
  show "buf = encode_response r \<Longrightarrow> decode_response buf = Inr r"
    by (simp add: decode_response_def encode_response_def RESPONSE_LEN_def get_at_def get_range_def u32_of_to_le)
qed

section \<open>Properties\<close>

text \<open>C35. The contents of the BPF maps reach the helper unchanged, and exactly within the caps of the wire: a payload
  is read back as it was written if and only if every table holds at most 8192 entries of the right
  key and value lengths, the metadata is 64 bytes, there are at most 8 bind ports, and the pin id is
  a string of at most 256 bytes.\<close>

theorem payload_wire_exact: "decode_payload (encode_payload p) = Inr p \<longleftrightarrow> payload_valid p"
  using decode_encode_payload [of p] decode_payload_valid [of "encode_payload p" p]
  by (auto simp: payload_valid_def)

end
