(* ===== verification/Settled.thy ===== *)
theory Settled
  imports Rust_Text
begin

text \<open>
  The settled policy, the compiled and signed artefact every runtime component reads
  (\<open>kennel-lib-policy/src/settled.rs\<close>), with the constraint manifest it embeds
  (\<open>variant.rs\<close>, structs only; their operations are in \<open>Spawn_Patch\<close>).

  A struct is a record with the source's fields in the source's order; the field names carry a short
  prefix for their struct because record fields share one name space.  An enum is a datatype; a
  constructor that would clash with another enum's is prefixed with the enum's name.  A
  \<open>BTreeMap\<close> is a partial map.  The few operations of the module (the emptiness and default
  tests, the overlay of the audit configuration, the advisory \<open>exec.deny\<close> warnings) follow.
\<close>

section \<open>Enumerations\<close>

datatype PolicyNetMode = PolicyNone | PolicyConstrained | PolicyUnconstrained | PolicyHost

datatype Protocol = ProtoAny | ProtoTcp | ProtoUdp

datatype SeccompAction = Errno | KillThread | KillProcess

datatype TtlAction = TtlExit | TtlWarn | TtlRenew

datatype CwdGrant = CwdNone | CwdRead | CwdWrite

datatype OnChangeAction = ChangeWarn | ChangeFreeze | ChangeKill

datatype Shape = AfUnix | DbusName | BinderConnector

datatype RestartPolicy = RestartAlways | RestartOnFailure | RestartNever

datatype AuditSinkKind = SinkFile | SinkJournald | SinkSyslog | SinkStdout

section \<open>The network section\<close>

record NetRule =
  nr_cidr :: string
  nr_prefix_len :: u8
  nr_port_min :: u16
  nr_port_max :: u16
  nr_protocol :: Protocol

record NameRule =
  nm_name :: string
  nm_ports :: "u16 list"
  nm_protocol :: Protocol

record ProxyListen =
  pl_offset :: u8
  pl_port :: u16

definition ProxyListen_default :: ProxyListen where
  "ProxyListen_default = \<lparr>pl_offset = 1, pl_port = 1080\<rparr>"

definition ProxyListen_disabled :: ProxyListen where
  "ProxyListen_disabled = \<lparr>pl_offset = 0, pl_port = 0\<rparr>"

definition is_disabled :: "ProxyListen \<Rightarrow> bool" where
  "is_disabled p \<longleftrightarrow> pl_offset p = 0"

record NetPolicy =
  net_mode :: PolicyNetMode
  net_udp :: bool
  net_bind_port_min :: u16
  net_bind_allowed_ports :: "u16 list"
  net_proxy :: ProxyListen
  net_allow :: "NetRule list"
  net_allow_names :: "NameRule list"
  net_udp_allow_names :: "NameRule list"
  net_deny_invariant :: "NetRule list"
  net_deny_author :: "NetRule list"
  net_bpf_connect_allow :: "NetRule list"
  net_bpf_connect_deny :: "NetRule list"
  net_bpf_bind_allow :: "NetRule list"
  net_bpf_bind_deny :: "NetRule list"

section \<open>The filesystem, exec and process sections\<close>

record TmpPolicy =
  tmp_writable :: bool
  tmp_size_mib :: u32

record DevPolicy =
  dev_allow :: "string list"

record CwdPolicy =
  cwd_grant :: CwdGrant
  cwd_required :: "string list"

definition CwdPolicy_is_default :: "CwdPolicy \<Rightarrow> bool" where
  "CwdPolicy_is_default c \<longleftrightarrow> cwd_grant c = CwdNone \<and> cwd_required c = []"

record FsRedirect =
  rd_path :: string
  rd_source :: string

record FsPolicy =
  fs_home_shadow :: bool
  fs_read :: "string list"
  fs_write :: "string list"
  fs_exclusive :: "string list"
  fs_home_persist :: "string list"
  fs_home_readonly :: bool
  fs_redirect :: "FsRedirect list"
  fs_cwd :: CwdPolicy
  fs_tmp :: TmpPolicy
  fs_dev :: DevPolicy

record ExecPolicy =
  ex_deny_setuid :: bool
  ex_deny_setgid :: bool
  ex_deny_setcap :: bool
  ex_deny_writable :: bool
  ex_allow :: "string list"
  ex_deny :: "string list"
  ex_path :: "string list"
  ex_shell :: string
  ex_loaders :: "string list"

record ProcPolicy =
  proc_hidepid :: bool

record CapPolicy =
  cap_no_new_privs :: bool

record SeccompPolicy =
  sec_deny_action :: SeccompAction
  sec_deny :: "string list"

record LifecyclePolicy =
  lc_ttl_seconds :: "u64 option"
  lc_ttl_action :: TtlAction

record TtyPolicy =
  tty_filter_terminal_escapes :: bool

definition TtyPolicy_default :: TtyPolicy where
  "TtyPolicy_default = \<lparr>tty_filter_terminal_escapes = True\<rparr>"

record TrustPolicy =
  trust_manifest :: bool
  trust_on_change :: OnChangeAction

definition TrustPolicy_default :: TrustPolicy where
  "TrustPolicy_default = \<lparr>trust_manifest = True, trust_on_change = ChangeWarn\<rparr>"

record EffectivePolicy =
  ep_net :: NetPolicy
  ep_fs :: FsPolicy
  ep_exec :: ExecPolicy
  ep_proc :: ProcPolicy
  ep_cap :: CapPolicy
  ep_seccomp :: SeccompPolicy
  ep_lifecycle :: LifecyclePolicy
  ep_tty :: TtyPolicy
  ep_trust :: TrustPolicy

section \<open>The runtime sections\<close>

record SshGrant =
  sg_dest :: string
  sg_options :: "string list"
  sg_public_key :: string
  sg_key_file :: string

record SshRuntime =
  ssh_allow_headless :: bool
  ssh_grants :: "SshGrant list"

definition SshRuntime_is_empty :: "SshRuntime \<Rightarrow> bool" where
  "SshRuntime_is_empty s \<longleftrightarrow> \<not> ssh_allow_headless s \<and> ssh_grants s = []"

record UnixSocket =
  us_name :: string
  us_real :: string
  us_shim :: string
  us_env :: "string option"

record UnixRuntime =
  unix_sockets :: "UnixSocket list"

record DbusBusRuntime =
  db_talk :: "string list"
  db_call :: "string list"
  db_broadcast :: "string list"
  db_own :: "string list"
  db_deny_talk :: "string list"

record DbusRuntime =
  dbus_audit_level :: "string option"
  dbus_session :: "DbusBusRuntime option"
  dbus_system :: "DbusBusRuntime option"

definition DbusRuntime_is_empty :: "DbusRuntime \<Rightarrow> bool" where
  "DbusRuntime_is_empty d \<longleftrightarrow> dbus_session d = None \<and> dbus_system d = None"

primrec Shape_as_str :: "Shape \<Rightarrow> string" where
  "Shape_as_str AfUnix = ''af-unix''"
| "Shape_as_str DbusName = ''dbus-name''"
| "Shape_as_str BinderConnector = ''binder-connector''"

record ProvideRuntime =
  pv_name :: string
  pv_shape :: Shape
  pv_endpoint :: string
  pv_key :: "string option"

record ConsumeRuntime =
  cs_name :: string
  cs_shape :: Shape
  cs_at :: "string option"
  cs_env :: "string list"
  cs_key :: "string option"
  cs_required :: bool

record MeshRuntime =
  mesh_provides :: "ProvideRuntime list"
  mesh_consumes :: "ConsumeRuntime list"

definition MeshRuntime_is_empty :: "MeshRuntime \<Rightarrow> bool" where
  "MeshRuntime_is_empty m \<longleftrightarrow> mesh_provides m = [] \<and> mesh_consumes m = []"

record ServiceRuntime =
  svc_restart :: RestartPolicy
  svc_backoff_ms :: u64
  svc_max_attempts :: u32

record IdentityRuntime =
  id_user :: string
  id_group :: string
  id_groups :: "string list"
  id_hostname :: "string option"

definition IdentityRuntime_default :: IdentityRuntime where
  "IdentityRuntime_default =
     \<lparr>id_user = ''kennel'', id_group = ''kennel'', id_groups = [], id_hostname = None\<rparr>"

definition IdentityRuntime_is_empty :: "IdentityRuntime \<Rightarrow> bool" where
  "IdentityRuntime_is_empty i \<longleftrightarrow> id_user i = ''kennel'' \<and> id_group i = ''kennel'' \<and>
     id_groups i = [] \<and> id_hostname i = None"

record ResolvedArtifact =
  ra_name :: string
  ra_signing_key_id :: string
  ra_signature :: string

record Provenance =
  prov_compiler_version :: string
  prov_schema_version :: u32
  prov_threat_catalogue_version :: string
  prov_resolved_artifacts :: "ResolvedArtifact list"

record AuditFileConfig =
  af_dir :: "string option"
  af_rotate_at_bytes :: "u64 option"
  af_compress_after_seconds :: "u64 option"
  af_retain_count :: "u64 option"

record AuditRuntime =
  au_sinks :: "AuditSinkKind list"
  au_network_level :: "string option"
  au_filesystem_level :: "string option"
  au_exec_level :: "string option"
  au_unix_level :: "string option"
  au_dbus_level :: "string option"
  au_syslog_facility :: "string option"
  au_file :: AuditFileConfig

record WorkloadRuntime =
  wl_argv :: "string list"
  wl_cwd :: "string option"
  wl_pinned :: bool
  wl_allowed_args :: bool
  wl_sha256 :: "string list"

record RootfsRuntime =
  rf_path :: string
  rf_image :: string
  rf_persistence :: string
  rf_readonly :: "string list"
  rf_writable :: "string list"

record SpawnTemplate =
  st_template :: string
  st_signing_key_id :: string
  st_signature :: string
  st_mutable_narrow :: "string list"

record SpawnGrant =
  sp_max_instances :: u32
  sp_allow :: "SpawnTemplate list"

text \<open>One variant of the mutable-field manifest (\<open>variant.rs\<close>): the constraint kind is told by
  which fields are populated.\<close>

record Variant =
  va_field :: string
  va_one_of :: "string list"
  va_pool :: "string list"
  va_pool_max :: u32
  va_pattern :: "string list"
  va_relpath_under :: string
  va_freeform :: bool
  va_reason :: string

type_synonym Manifest = "Variant list"

record SettledPolicy =
  sp_schema_version :: u32
  sp_name :: string
  sp_deferred_substitutions :: "string list"
  sp_framework_invariants_asserted :: "string list"
  sp_effective_policy :: EffectivePolicy
  sp_provenance :: Provenance
  sp_ssh :: SshRuntime
  sp_unix :: UnixRuntime
  sp_identity :: IdentityRuntime
  sp_mesh :: MeshRuntime
  sp_service :: "ServiceRuntime option"
  sp_dbus :: DbusRuntime
  sp_audit :: AuditRuntime
  sp_env :: "string \<rightharpoonup> string"
  sp_ulimits :: "string \<rightharpoonup> string"
  sp_workload :: WorkloadRuntime
  sp_rootfs :: RootfsRuntime
  sp_spawn :: "SpawnGrant option"
  sp_manifest :: Manifest

section \<open>The audit configuration\<close>

definition AuditFileConfig_default :: AuditFileConfig where
  "AuditFileConfig_default =
     \<lparr>af_dir = None, af_rotate_at_bytes = None, af_compress_after_seconds = None,
      af_retain_count = None\<rparr>"

definition AuditFileConfig_is_empty :: "AuditFileConfig \<Rightarrow> bool" where
  "AuditFileConfig_is_empty c \<longleftrightarrow> af_dir c = None \<and> af_rotate_at_bytes c = None
     \<and> af_compress_after_seconds c = None \<and> af_retain_count c = None"

definition AuditFileConfig_overlay :: "AuditFileConfig \<Rightarrow> AuditFileConfig \<Rightarrow> AuditFileConfig" where
  "AuditFileConfig_overlay self over =
     \<lparr>af_dir = or_else (af_dir over) (af_dir self),
      af_rotate_at_bytes = or_else (af_rotate_at_bytes over) (af_rotate_at_bytes self),
      af_compress_after_seconds =
        or_else (af_compress_after_seconds over) (af_compress_after_seconds self),
      af_retain_count = or_else (af_retain_count over) (af_retain_count self)\<rparr>"

definition AuditRuntime_default :: AuditRuntime where
  "AuditRuntime_default =
     \<lparr>au_sinks = [], au_network_level = None, au_filesystem_level = None, au_exec_level = None,
      au_unix_level = None, au_dbus_level = None, au_syslog_facility = None,
      au_file = AuditFileConfig_default\<rparr>"

definition AuditRuntime_is_empty :: "AuditRuntime \<Rightarrow> bool" where
  "AuditRuntime_is_empty r \<longleftrightarrow> au_sinks r = [] \<and> au_network_level r = None
     \<and> au_filesystem_level r = None \<and> au_exec_level r = None \<and> au_unix_level r = None
     \<and> au_dbus_level r = None \<and> au_syslog_facility r = None
     \<and> AuditFileConfig_is_empty (au_file r)"

definition AuditRuntime_overlay :: "AuditRuntime \<Rightarrow> AuditRuntime \<Rightarrow> AuditRuntime" where
  "AuditRuntime_overlay self over =
     \<lparr>au_sinks = (if au_sinks over = [] then au_sinks self else au_sinks over),
      au_network_level = or_else (au_network_level over) (au_network_level self),
      au_filesystem_level = or_else (au_filesystem_level over) (au_filesystem_level self),
      au_exec_level = or_else (au_exec_level over) (au_exec_level self),
      au_unix_level = or_else (au_unix_level over) (au_unix_level self),
      au_dbus_level = or_else (au_dbus_level over) (au_dbus_level self),
      au_syslog_facility = or_else (au_syslog_facility over) (au_syslog_facility self),
      au_file = AuditFileConfig_overlay (au_file self) (au_file over)\<rparr>"

primrec AuditSinkKind_token :: "AuditSinkKind \<Rightarrow> string" where
  "AuditSinkKind_token SinkFile = ''file''"
| "AuditSinkKind_token SinkJournald = ''journald''"
| "AuditSinkKind_token SinkSyslog = ''syslog''"
| "AuditSinkKind_token SinkStdout = ''stdout''"

text \<open>The empty configurations are the default ones, and overlaying is a monoid with them as unit: a
  cascade of layers may be folded in any grouping.\<close>

lemma AuditFileConfig_is_empty_iff: "AuditFileConfig_is_empty c \<longleftrightarrow> c = AuditFileConfig_default"
  by (cases c) (simp add: AuditFileConfig_is_empty_def AuditFileConfig_default_def)

lemma AuditRuntime_is_empty_iff: "AuditRuntime_is_empty r \<longleftrightarrow> r = AuditRuntime_default"
  by (cases r) (simp add: AuditRuntime_is_empty_def AuditRuntime_default_def
    AuditFileConfig_is_empty_iff)

interpretation audit_file: monoid AuditFileConfig_overlay AuditFileConfig_default
  by unfold_locales
    (simp_all add: AuditFileConfig_overlay_def AuditFileConfig_default_def or_else_assoc)

interpretation audit_layers: monoid AuditRuntime_overlay AuditRuntime_default
proof
  fix a b c
  show "AuditRuntime_overlay (AuditRuntime_overlay a b) c = AuditRuntime_overlay a (AuditRuntime_overlay b c)"
    by (simp add: AuditRuntime_overlay_def or_else_assoc audit_file.assoc)
  show "AuditRuntime_overlay AuditRuntime_default a = a" "AuditRuntime_overlay a AuditRuntime_default = a"
    by (simp_all add: AuditRuntime_overlay_def AuditRuntime_default_def audit_file.left_neutral
      audit_file.right_neutral)
qed

section \<open>Advisory exec denies\<close>

text \<open>A deny inside a granted directory cannot be enforced by subtraction; the warning names the first
  allow entry that covers it.  The two messages are the two constructors.\<close>

datatype DenyWarning = PermissiveExec string | InsideAllowed string string

definition glob_root :: "string \<Rightarrow> string option" where
  "glob_root allow_entry =
     or_else (strip_suffix ''/**'' allow_entry)
       (or_else (strip_suffix ''/*'' allow_entry)
         (or_else (strip_suffix ''**'' allow_entry) (strip_suffix ''*'' allow_entry)))"

definition glob_covers :: "string \<Rightarrow> string \<Rightarrow> bool" where
  "glob_covers allow_entry deny_entry =
     (case glob_root allow_entry of
        None \<Rightarrow> False
      | Some r \<Rightarrow> (let root = trim_end_matches CHR ''/'' r in
          root \<noteq> [] \<and> (deny_entry = root \<or> starts_with (root @ ''/'') deny_entry)))"

definition deny_warnings :: "ExecPolicy \<Rightarrow> DenyWarning list" where
  "deny_warnings ex =
     (let permissive = list_ex (\<lambda>a. trim a = ''**'' \<or> trim a = ''/**'') (ex_allow ex)
      in List.map_filter (\<lambda>d.
           if permissive then Some (PermissiveExec d)
           else map_option (InsideAllowed d) (find (\<lambda>a. glob_covers a d) (ex_allow ex)))
         (ex_deny ex))"

text \<open>With no permissive allow, a deny is silent exactly when no allow entry covers it.\<close>

lemma deny_warnings_silent_iff:
  "deny_warnings ex = [] \<longleftrightarrow>
     ex_deny ex = []
     \<or> (\<forall>a \<in> set (ex_allow ex). trim a \<notin> {''**'', ''/**''}
          \<and> (\<forall>d \<in> set (ex_deny ex). \<not> glob_covers a d))"
  by (cases "ex_deny ex")
    (auto simp: deny_warnings_def Let_def map_filter_def filter_empty_conv list_ex_iff find_None_iff
      find_Some_iff dest: nth_mem)

section \<open>An example policy\<close>

text \<open>A network section that carries the mandatory metadata deny and nothing else, for examples.\<close>

definition floor_net :: "PolicyNetMode \<Rightarrow> NetPolicy" where
  "floor_net m =
     \<lparr>net_mode = m, net_udp = False, net_bind_port_min = 0, net_bind_allowed_ports = [],
      net_proxy = ProxyListen_default, net_allow = [], net_allow_names = [],
      net_udp_allow_names = [],
      net_deny_invariant = [\<lparr>nr_cidr = ''169.254.169.254'', nr_prefix_len = 32, nr_port_min = 0,
                             nr_port_max = 65535, nr_protocol = ProtoAny\<rparr>],
      net_deny_author = [], net_bpf_connect_allow = [], net_bpf_connect_deny = [],
      net_bpf_bind_allow = [], net_bpf_bind_deny = []\<rparr>"

text \<open>A whole policy around it: every framework invariant asserted, nothing granted.\<close>

definition floor_policy :: SettledPolicy where
  "floor_policy =
     \<lparr>sp_schema_version = 5, sp_name = ''floor'', sp_deferred_substitutions = [],
      sp_framework_invariants_asserted = [],
      sp_effective_policy =
        \<lparr>ep_net = floor_net PolicyConstrained,
         ep_fs = \<lparr>fs_home_shadow = True, fs_read = [], fs_write = [], fs_exclusive = [],
                  fs_home_persist = [], fs_home_readonly = False, fs_redirect = [],
                  fs_cwd = \<lparr>cwd_grant = CwdNone, cwd_required = []\<rparr>,
                  fs_tmp = \<lparr>tmp_writable = True, tmp_size_mib = 64\<rparr>, fs_dev = \<lparr>dev_allow = []\<rparr>\<rparr>,
         ep_exec = \<lparr>ex_deny_setuid = True, ex_deny_setgid = True, ex_deny_setcap = True,
                    ex_deny_writable = True, ex_allow = [], ex_deny = [], ex_path = [],
                    ex_shell = ''/bin/sh'', ex_loaders = []\<rparr>,
         ep_proc = \<lparr>proc_hidepid = True\<rparr>, ep_cap = \<lparr>cap_no_new_privs = True\<rparr>,
         ep_seccomp = \<lparr>sec_deny_action = Errno, sec_deny = []\<rparr>,
         ep_lifecycle = \<lparr>lc_ttl_seconds = Some 300, lc_ttl_action = TtlExit\<rparr>,
         ep_tty = TtyPolicy_default, ep_trust = TrustPolicy_default\<rparr>,
      sp_provenance = \<lparr>prov_compiler_version = [], prov_schema_version = 5,
                       prov_threat_catalogue_version = [], prov_resolved_artifacts = []\<rparr>,
      sp_ssh = \<lparr>ssh_allow_headless = False, ssh_grants = []\<rparr>, sp_unix = \<lparr>unix_sockets = []\<rparr>,
      sp_identity = IdentityRuntime_default,
      sp_mesh = \<lparr>mesh_provides = [], mesh_consumes = []\<rparr>, sp_service = None,
      sp_dbus = \<lparr>dbus_audit_level = None, dbus_session = None, dbus_system = None\<rparr>,
      sp_audit = AuditRuntime_default, sp_env = Map.empty,
      sp_ulimits = [''as'' \<mapsto> ''1'', ''nproc'' \<mapsto> ''1'', ''cpu'' \<mapsto> ''1''],
      sp_workload = \<lparr>wl_argv = [''/bin/tool''], wl_cwd = None, wl_pinned = False,
                     wl_allowed_args = False, wl_sha256 = []\<rparr>,
      sp_rootfs = \<lparr>rf_path = [], rf_image = [], rf_persistence = [], rf_readonly = [],
                   rf_writable = []\<rparr>,
      sp_spawn = None, sp_manifest = []\<rparr>"

end
