(* ===== verification/Ip_Parse.thy ===== *)
theory Ip_Parse
  imports Net_Addr Rust_Text
begin

text \<open>
  \<open>str::parse::<IpAddr>\<close> of the standard library, which decides whether a requested host is a
  literal address or a name. Each reader takes the remaining input and returns the value with the
  rest, or \<open>None\<close> with the input untouched.
\<close>

type_synonym 'a reader = "string \<Rightarrow> ('a \<times> string) option"

text \<open>The digit loop: value and count so far; more than \<open>max_digits\<close> digits fail.\<close>

fun read_digits :: "nat \<Rightarrow> nat \<Rightarrow> nat \<Rightarrow> nat \<Rightarrow> string \<Rightarrow> (nat \<times> nat \<times> string) option" where
  "read_digits radix max_digits acc count [] = Some (acc, count, [])"
| "read_digits radix max_digits acc count (c # cs) =
     (case digit_val radix c of
        None \<Rightarrow> Some (acc, count, c # cs)
      | Some d \<Rightarrow> if Suc count > max_digits then None
                  else read_digits radix max_digits (acc * radix + d) (Suc count) cs)"

definition read_number :: "nat \<Rightarrow> nat \<Rightarrow> bool \<Rightarrow> nat \<Rightarrow> nat reader" where
  "read_number radix max_digits allow_zero_prefix limit s =
     (case read_digits radix max_digits 0 0 s of
        None \<Rightarrow> None
      | Some (v, count, rest) \<Rightarrow>
          if count = 0 then None
          else if \<not> allow_zero_prefix \<and> starts_with ''0'' s \<and> count > 1 then None
          else if v \<le> limit then Some (v, rest) else None)"

fun read_given_char :: "char \<Rightarrow> unit reader" where
  "read_given_char c [] = None"
| "read_given_char c (x # xs) = (if x = c then Some ((), xs) else None)"

text \<open>\<open>read_separator\<close>: the separator precedes every element but the first.\<close>

definition read_separator :: "char \<Rightarrow> bool \<Rightarrow> 'a reader \<Rightarrow> 'a reader" where
  "read_separator sep first inner s =
     (if first then inner s
      else case read_given_char sep s of None \<Rightarrow> None | Some (_, s') \<Rightarrow> inner s')"

fun read_octets :: "nat \<Rightarrow> bool \<Rightarrow> nat list reader" where
  "read_octets 0 first s = Some ([], s)"
| "read_octets (Suc n) first s =
     (case read_separator CHR ''.'' first (read_number 10 3 False 255) s of
        None \<Rightarrow> None
      | Some (v, s') \<Rightarrow> (case read_octets n False s' of
            None \<Rightarrow> None
          | Some (vs, s'') \<Rightarrow> Some (v # vs, s'')))"

definition read_ipv4_addr :: "bytes reader" where
  "read_ipv4_addr s = map_option (\<lambda>(vs, r). (map word_of_nat vs, r)) (read_octets 4 True s)"

text \<open>
  \<open>read_groups\<close> with \<open>n\<close> group slots left: the bytes read, whether a dotted IPv4 tail ended it, and
  the rest. A dotted tail needs two slots.
\<close>

fun read_groups :: "nat \<Rightarrow> bool \<Rightarrow> string \<Rightarrow> bytes \<times> bool \<times> string" where
  "read_groups 0 first s = ([], False, s)"
| "read_groups (Suc n) first s =
     (case (if n > 0 then read_separator CHR '':'' first read_ipv4_addr s else None) of
        Some (v4, s') \<Rightarrow> (v4, True, s')
      | None \<Rightarrow>
          (case read_separator CHR '':'' first (read_number 16 4 True 65535) s of
             None \<Rightarrow> ([], False, s)
           | Some (g, s') \<Rightarrow>
               (case read_groups n False s' of (bs, v4, r) \<Rightarrow> (be_bytes 2 g @ bs, v4, r))))"

definition read_ipv6_addr :: "bytes reader" where
  "read_ipv6_addr s =
     (case read_groups 8 True s of (head, head_ipv4, s1) \<Rightarrow>
        if length head = 16 then Some (head, s1)
        else if head_ipv4 then None
        else (case read_given_char CHR '':'' s1 of None \<Rightarrow> None | Some (_, s2) \<Rightarrow>
               (case read_given_char CHR '':'' s2 of None \<Rightarrow> None | Some (_, s3) \<Rightarrow>
                 (case read_groups (8 - (length head div 2 + 1)) True s3 of (tail, _, s4) \<Rightarrow>
                    Some (head @ replicate (16 - length head - length tail) 0 @ tail, s4)))))"

definition parse_ip :: "string \<Rightarrow> IpAddr option" where
  "parse_ip s =
     (case read_ipv4_addr s of
        Some (bs, rest) \<Rightarrow> if rest = [] then Some (V4 (v4_from bs)) else None
      | None \<Rightarrow> (case read_ipv6_addr s of
            Some (bs, rest) \<Rightarrow> if rest = [] then Some (V6 (v6_from bs)) else None
          | None \<Rightarrow> None))"

text \<open>
  Evaluation at numeral slot counts, and the literals the components are tried on.
\<close>

lemmas read_octets_numeral = read_octets.simps(2) [of "pred_numeral k" for k, folded numeral_eq_Suc]

lemmas read_groups_numeral = read_groups.simps(2) [of "pred_numeral k" for k, folded numeral_eq_Suc]

lemmas parse_ip_eval = parse_ip_def read_ipv4_addr_def read_ipv6_addr_def read_separator_def
  read_number_def digit_val_def starts_with_def v4_from_def v6_from_def be_val_def Let_def
  be_bytes_numeral replicate_numeral' read_octets_numeral read_groups_numeral

lemma parse_ip_metadata: "parse_ip ''169.254.169.254'' = Some (V4 0xa9fea9fe)"
  by (simp add: parse_ip_eval)

lemma parse_ip_v4_mapped: "parse_ip ''::ffff:169.254.169.254'' = Some (V6 0xffffa9fea9fe)"
  by (simp add: parse_ip_eval)

lemma parse_ip_name: "parse_ip ''api.example.com'' = None"
  by (simp add: parse_ip_eval)

text \<open>Every address the reader accepts has its full width.\<close>

lemma read_octets_length: "read_octets n first s = Some (vs, r) \<Longrightarrow> length vs = n"
  by (induction n first s arbitrary: vs r rule: read_octets.induct) (auto split: option.splits)

lemma read_ipv4_addr_length: "read_ipv4_addr s = Some (bs, r) \<Longrightarrow> length bs = 4"
  by (auto simp: read_ipv4_addr_def dest: read_octets_length)

lemma read_separator_Some:
  "read_separator sep first inner s = Some (x, r) \<Longrightarrow> \<exists>s'. inner s' = Some (x, r)"
  by (auto simp: read_separator_def split: if_splits option.splits)

lemma read_groups_length: "read_groups n first s = (bs, v4, r) \<Longrightarrow> length bs \<le> 2 * n \<and> even (length bs)"
proof (induction n first s arbitrary: bs v4 r rule: read_groups.induct)
  case (1 first s)
  then show ?case by simp
next
  case (2 n first s)
  show ?case
  proof (cases "if n > 0 then read_separator CHR '':'' first read_ipv4_addr s else None")
    case None
    with 2 show ?thesis by (fastforce split: option.splits prod.splits)
  next
    case (Some p)
    moreover obtain v s' where "p = (v, s')" by fastforce
    ultimately have "n > 0" "length v = 4"
      by (auto split: if_splits dest!: read_separator_Some dest: read_ipv4_addr_length)
    with Some \<open>p = (v, s')\<close> "2.prems" show ?thesis by auto
  qed
qed

lemma read_ipv6_addr_length: "read_ipv6_addr s = Some (bs, r) \<Longrightarrow> length bs = 16"
proof -
  assume eq: "read_ipv6_addr s = Some (bs, r)"
  obtain head hv s1 where g: "read_groups 8 True s = (head, hv, s1)" by (metis prod_cases3)
  show ?thesis
  proof (cases "length head = 16")
    case True
    with eq g show ?thesis by (simp add: read_ipv6_addr_def)
  next
    case False
    from read_groups_length [OF g] have len: "length head \<le> 16" "even (length head)" by auto
    from eq g False obtain s3 tail tv s4 where
      t: "read_groups (8 - (length head div 2 + 1)) True s3 = (tail, tv, s4)"
      and bs: "bs = head @ replicate (16 - length head - length tail) 0 @ tail"
      by (auto simp: read_ipv6_addr_def split: if_splits option.splits prod.splits)
    from read_groups_length [OF t] len False have "length head + length tail \<le> 16"
      by (auto elim!: evenE)
    with bs show ?thesis by simp
  qed
qed

end
