(* ===== verification/Name_Match.thy ===== *)
theory Name_Match
  imports Rust_Text
begin

text \<open>
  The destination-name convention of the policy (\<open>kennel-lib-policy/src/settled.rs\<close>,
  \<open>name_matches\<close> and \<open>ends_with_label\<close>), and the second copy of it in
  \<open>kenneld/src/inet/allow.rs\<close>. The lemmas show that the copies agree and that a dotted pattern
  admits exactly the apex and the names under it on a label boundary.
\<close>

definition ends_with_label :: "string \<Rightarrow> string \<Rightarrow> bool" where
  "ends_with_label name suffix \<longleftrightarrow>
     length name > length suffix
     \<and> (case get_from name (length name - length suffix) of
          Some tail \<Rightarrow> eq_ignore_ascii_case tail suffix | None \<Rightarrow> False)"

definition name_matches :: "string \<Rightarrow> string \<Rightarrow> bool" where
  "name_matches pattern name =
     (case strip_prefix ''.'' pattern of
        None \<Rightarrow> eq_ignore_ascii_case pattern name
      | Some apex \<Rightarrow> eq_ignore_ascii_case name apex \<or> ends_with_label name pattern)"

text \<open>The copy in \<open>inet/allow.rs\<close>.\<close>

definition allow_ends_with_label :: "string \<Rightarrow> string \<Rightarrow> bool" where
  "allow_ends_with_label name suffix \<longleftrightarrow>
     length name > length suffix
     \<and> (case get_from name (length name - length suffix) of
          Some tail \<Rightarrow> eq_ignore_ascii_case tail suffix | None \<Rightarrow> False)"

definition allow_name_matches :: "string \<Rightarrow> string \<Rightarrow> bool" where
  "allow_name_matches pattern name =
     (case strip_prefix ''.'' pattern of
        None \<Rightarrow> eq_ignore_ascii_case pattern name
      | Some apex \<Rightarrow> eq_ignore_ascii_case name apex \<or> allow_ends_with_label name pattern)"

lemma allow_ends_with_label_eq: "allow_ends_with_label = ends_with_label"
  by (intro ext) (simp add: allow_ends_with_label_def ends_with_label_def)

lemma allow_name_matches_eq: "allow_name_matches = name_matches"
  by (intro ext) (auto simp: allow_name_matches_def name_matches_def allow_ends_with_label_eq split: option.split)

lemma ends_with_label_iff:
  "ends_with_label name suffix \<longleftrightarrow> (\<exists>pre. pre \<noteq> [] \<and> lowercase name = pre @ lowercase suffix)"
proof
  assume "ends_with_label name suffix"
  then have len: "length name > length suffix"
    and tail: "lowercase (drop (length name - length suffix) name) = lowercase suffix"
    by (auto simp: ends_with_label_def get_from_def eq_ignore_ascii_case_def split: option.splits)
  define k where "k = length name - length suffix"
  have "lowercase name = take k (lowercase name) @ lowercase suffix"
    using tail by (metis append_take_drop_id k_def lowercase_drop)
  moreover have "take k (lowercase name) \<noteq> []"
    using len by (auto simp: k_def)
  ultimately show "\<exists>pre. pre \<noteq> [] \<and> lowercase name = pre @ lowercase suffix" by blast
next
  assume "\<exists>pre. pre \<noteq> [] \<and> lowercase name = pre @ lowercase suffix"
  then obtain pre where pre: "pre \<noteq> []" "lowercase name = pre @ lowercase suffix" by blast
  then have len: "length name = length pre + length suffix"
    by (metis length_append length_lowercase)
  with pre show "ends_with_label name suffix"
    by (simp add: ends_with_label_def get_from_def eq_ignore_ascii_case_def lowercase_drop)
qed

text \<open>A pattern without a leading dot admits one name, up to ASCII case.\<close>

lemma name_matches_exact:
  "\<not> starts_with ''.'' pattern \<Longrightarrow> name_matches pattern name \<longleftrightarrow> lowercase name = lowercase pattern"
  by (cases "strip_prefix ''.'' pattern")
    (auto simp: name_matches_def starts_with_def eq_ignore_ascii_case_def)

text \<open>A dotted pattern admits the apex and every name that ends in the dotted apex.\<close>

lemma name_matches_dotted:
  "name_matches (CHR ''.'' # apex) name \<longleftrightarrow>
     lowercase name = lowercase apex
     \<or> (\<exists>pre. pre \<noteq> [] \<and> lowercase name = pre @ CHR ''.'' # lowercase apex)"
proof -
  have "strip_prefix ''.'' (CHR ''.'' # apex) = Some apex" by simp
  then show ?thesis
    by (simp add: name_matches_def eq_ignore_ascii_case_def ends_with_label_iff lowercase_Cons)
qed

lemma name_matches_case: "name_matches pattern (lowercase name) = name_matches pattern name"
proof (cases "starts_with ''.'' pattern")
  case True
  then obtain apex where "pattern = CHR ''.'' # apex" by (auto simp: starts_with_iff)
  then show ?thesis by (simp add: name_matches_dotted)
next
  case False
  then show ?thesis by (simp add: name_matches_exact)
qed

end
