(* ===== verification/Egress_Allow.thy ===== *)
theory Egress_Allow
  imports Net_Addr Name_Match
begin

text \<open>
  The egress allowlist evaluator (\<open>kenneld/src/inet/allow.rs\<close>): CIDR matching, allow and deny
  rules, and the two-phase decision on a destination. The lemmas give CIDR matching as equality of
  the leading bits, relate the special-use classification to a list of CIDRs, and describe each
  outcome of the decision by the rules that match.
\<close>

section \<open>Rules\<close>

datatype Transport = Tcp | Udp

datatype RuleProtocol = AnyProto | TcpOnly | UdpOnly

fun admits :: "RuleProtocol \<Rightarrow> Transport \<Rightarrow> bool" where
  "admits AnyProto t = True"
| "admits TcpOnly t = (t = Tcp)"
| "admits UdpOnly t = (t = Udp)"

datatype Destination = Name string | Addr IpAddr

record Cidr =
  base :: IpAddr
  prefix_len :: u8

record PrefixTooLong =
  max_len :: u8
  got_len :: u8

fun family_max :: "IpAddr \<Rightarrow> u8" where
  "family_max (V4 _) = 32"
| "family_max (V6 _) = 128"

definition Cidr_new :: "IpAddr \<Rightarrow> u8 \<Rightarrow> PrefixTooLong + Cidr" where
  "Cidr_new b p =
     (if p > family_max b then Inl \<lparr>max_len = family_max b, got_len = p\<rparr>
      else Inr \<lparr>base = b, prefix_len = p\<rparr>)"

fun top_bits_mask :: "nat \<Rightarrow> u8" where
  "top_bits_mask n =
     (if n = 1 then 0x80 else if n = 2 then 0xc0 else if n = 3 then 0xe0 else if n = 4 then 0xf0
      else if n = 5 then 0xf8 else if n = 6 then 0xfc else if n = 7 then 0xfe else 0)"

fun octets_match :: "bytes \<Rightarrow> bytes \<Rightarrow> nat \<Rightarrow> bool" where
  "octets_match (b # bs) (a # as) bits_remaining =
     (if bits_remaining = 0 then True
      else if bits_remaining \<ge> 8 then
        (if b \<noteq> a then False else octets_match bs as (bits_remaining - 8))
      else (let mask = top_bits_mask bits_remaining in (b AND mask) = (a AND mask)))"
| "octets_match _ _ bits_remaining = True"

fun contains_addr :: "IpAddr \<Rightarrow> u8 \<Rightarrow> IpAddr \<Rightarrow> bool" where
  "contains_addr (V4 b) p (V4 a) = octets_match (v4_octets b) (v4_octets a) (unat p)"
| "contains_addr (V6 b) p (V6 a) = octets_match (v6_octets b) (v6_octets a) (unat p)"
| "contains_addr _ _ _ = False"

definition contains :: "Cidr \<Rightarrow> IpAddr \<Rightarrow> bool" where
  "contains c a = contains_addr (base c) (prefix_len c) a"

datatype Matcher = NameMatcher string | CidrMatcher Cidr

record Rule =
  matcher :: Matcher
  ports :: "u16 list"
  protocol :: RuleProtocol

datatype DenyMatcher = DenyCidr Cidr | DenyName string

record DenyRule =
  deny_matcher :: DenyMatcher
  deny_ports :: "u16 list"

datatype NetMode = NetNone | Constrained | Unconstrained

record Ruleset =
  mode :: NetMode
  allow :: "Rule list"
  deny :: "DenyRule list"

section \<open>Decisions\<close>

datatype DenyReason = ModeNone | DeniedByRule | NotAllowed

datatype Decision = DAllow | DDeny DenyReason

datatype RequestDecision = RAllow | RResolve | RDeny DenyReason

definition port_matches :: "u16 list \<Rightarrow> u16 \<Rightarrow> bool" where
  "port_matches ps port \<longleftrightarrow> ps = [] \<or> List.member ps port"

definition denied_addr :: "Ruleset \<Rightarrow> IpAddr \<Rightarrow> u16 \<Rightarrow> bool" where
  "denied_addr rs addr port =
     list_ex (\<lambda>rule. (case deny_matcher rule of DenyCidr cidr \<Rightarrow> contains cidr addr | _ \<Rightarrow> False)
                     \<and> port_matches (deny_ports rule) port) (deny rs)"

definition name_denied :: "Ruleset \<Rightarrow> string \<Rightarrow> u16 \<Rightarrow> bool" where
  "name_denied rs name port =
     list_ex (\<lambda>rule. (case deny_matcher rule of DenyName p \<Rightarrow> allow_name_matches p name | _ \<Rightarrow> False)
                     \<and> port_matches (deny_ports rule) port) (deny rs)"

definition allow_addr_match :: "Ruleset \<Rightarrow> IpAddr \<Rightarrow> u16 \<Rightarrow> Transport \<Rightarrow> bool" where
  "allow_addr_match rs addr port transport =
     list_ex (\<lambda>rule. (case matcher rule of CidrMatcher cidr \<Rightarrow> contains cidr addr | _ \<Rightarrow> False)
                     \<and> admits (protocol rule) transport \<and> port_matches (ports rule) port) (allow rs)"

definition allow_name_match :: "Ruleset \<Rightarrow> string \<Rightarrow> u16 \<Rightarrow> Transport \<Rightarrow> bool" where
  "allow_name_match rs name port transport =
     list_ex (\<lambda>rule. (case matcher rule of NameMatcher p \<Rightarrow> allow_name_matches p name | _ \<Rightarrow> False)
                     \<and> admits (protocol rule) transport \<and> port_matches (ports rule) port) (allow rs)"

definition decide_request :: "Ruleset \<Rightarrow> Destination \<Rightarrow> u16 \<Rightarrow> Transport \<Rightarrow> RequestDecision" where
  "decide_request rs dest port transport =
     (if mode rs = NetNone then RDeny ModeNone
      else (case dest of
        Addr addr \<Rightarrow>
          if denied_addr rs addr port then RDeny DeniedByRule
          else (case mode rs of
              Unconstrained \<Rightarrow> RAllow
            | Constrained \<Rightarrow> if allow_addr_match rs addr port transport then RAllow else RDeny NotAllowed
            | _ \<Rightarrow> RDeny NotAllowed)
      | Name name \<Rightarrow>
          if name_denied rs name port then RDeny DeniedByRule
          else (case mode rs of
              Unconstrained \<Rightarrow> RResolve
            | Constrained \<Rightarrow> if allow_name_match rs name port transport then RResolve else RDeny NotAllowed
            | _ \<Rightarrow> RDeny NotAllowed)))"

definition decide_resolved :: "Ruleset \<Rightarrow> IpAddr \<Rightarrow> u16 \<Rightarrow> Transport \<Rightarrow> Decision" where
  "decide_resolved rs addr port transport =
     (if denied_addr rs addr port then DDeny DeniedByRule else DAllow)"

section \<open>CIDR matching\<close>

text \<open>The byte-wise loop compares the leading bits of the two values.\<close>

lemma top_bits_mask_eq: "0 < n \<Longrightarrow> n < 8 \<Longrightarrow> top_bits_mask n = NOT (mask (8 - n))"
proof -
  assume "0 < n" "n < 8"
  then have "n = 1 \<or> n = 2 \<or> n = 3 \<or> n = 4 \<or> n = 5 \<or> n = 6 \<or> n = 7" by arith
  moreover have "NOT (mask 7) = (0x80 :: u8)" "NOT (mask 6) = (0xc0 :: u8)" "NOT (mask 5) = (0xe0 :: u8)"
    "NOT (mask 4) = (0xf0 :: u8)" "NOT (mask 3) = (0xf8 :: u8)" "NOT (mask 2) = (0xfc :: u8)"
    "NOT (mask (Suc 0)) = (0xfe :: u8)" by code_simp+
  ultimately show ?thesis by (elim disjE) (simp_all only: top_bits_mask.simps, simp_all)
qed

text \<open>Two values agree on their leading bits when their leading digits agree, one octet at a time.\<close>

lemma leading_octet_div:
  fixes b r :: nat
  assumes "r < 2 ^ (8 * n)" "k \<le> 8 * n"
  shows "(b * 2 ^ (8 * n) + r) div 2 ^ k = b * 2 ^ (8 * n - k) + r div 2 ^ k" (is ?A)
    and "r div 2 ^ k < 2 ^ (8 * n - k)" (is ?B)
proof -
  have split: "(2 :: nat) ^ (8 * n) = 2 ^ (8 * n - k) * 2 ^ k"
    using assms(2) by (simp flip: power_add)
  show ?A by (simp add: split flip: mult.assoc)
  show ?B using assms(1) by (simp add: split less_mult_imp_div_less)
qed

lemma full_octet_iff:
  fixes b a r s :: nat
  assumes "r < 2 ^ (8 * n)" "s < 2 ^ (8 * n)" "k \<le> 8 * n"
  shows "(b * 2 ^ (8 * n) + r) div 2 ^ k = (a * 2 ^ (8 * n) + s) div 2 ^ k \<longleftrightarrow>
    b = a \<and> r div 2 ^ k = s div 2 ^ k"
proof -
  note d = leading_octet_div [OF assms(1,3)] leading_octet_div [OF assms(2,3)]
  have "(x * 2 ^ (8 * n - k) + y) div 2 ^ (8 * n - k) = x"
    if "y < 2 ^ (8 * n - k)" for x y :: nat using that by simp
  with d show ?thesis by (metis add_left_cancel)
qed

lemma partial_octet_div:
  fixes x r :: nat
  assumes "r < 2 ^ (8 * n)" "p < 8"
  shows "(x * 2 ^ (8 * n) + r) div 2 ^ (8 * Suc n - p) = x div 2 ^ (8 - p)"
proof -
  have e: "8 * Suc n - p = 8 * n + (8 - p)" using assms(2) by simp
  show ?thesis using assms(1) by (simp only: e power_add div_mult2_eq) simp
qed

lemma octets_match_Cons_full:
  "8 \<le> p \<Longrightarrow> octets_match (b # bs) (a # as) p \<longleftrightarrow> unat b = unat a \<and> octets_match bs as (p - 8)"
  by (auto simp: word_unat_eq_iff)

lemma octets_match_Cons_partial:
  "0 < p \<Longrightarrow> p < 8 \<Longrightarrow> octets_match (b # bs) (a # as) p \<longleftrightarrow>
     unat b div 2 ^ (8 - p) = unat a div 2 ^ (8 - p)"
  by (simp add: Let_def top_bits_mask_eq and_not_mask_eq_iff del: top_bits_mask.simps)

lemma octets_match_iff:
  assumes "length bs = length as" "p \<le> 8 * length bs"
  shows "octets_match bs as p \<longleftrightarrow>
    be_val bs div 2 ^ (8 * length bs - p) = be_val as div 2 ^ (8 * length bs - p)"
  using assms
proof (induction bs as arbitrary: p rule: list_induct2)
  case Nil
  then show ?case by simp
next
  case (Cons b bs a as)
  define n where "n = length bs"
  have len: "length (b # bs) = Suc n" "length as = n" using Cons.hyps by (simp_all add: n_def)
  have pow: "(256 :: nat) ^ m = 2 ^ (8 * m)" for m by (simp add: power_mult)
  have lt: "be_val bs < 2 ^ (8 * n)" "be_val as < 2 ^ (8 * n)"
    using be_val_bound [of bs] be_val_bound [of as] len by (simp_all add: pow)
  have v: "be_val (b # bs) = unat b * 2 ^ (8 * n) + be_val bs"
    "be_val (a # as) = unat a * 2 ^ (8 * n) + be_val as"
    using len by (simp_all add: be_val_Cons pow)
  consider "8 \<le> p" | "p = 0" | "0 < p" "p < 8" by linarith
  then show ?case
  proof cases
    case 1
    then have k: "8 * Suc n - p \<le> 8 * n" "8 * n - (p - 8) = 8 * Suc n - p" by simp_all
    have "octets_match bs as (p - 8) \<longleftrightarrow>
      be_val bs div 2 ^ (8 * Suc n - p) = be_val as div 2 ^ (8 * Suc n - p)"
      using Cons.IH [of "p - 8"] Cons.prems 1 len(1) by (simp add: k(2) n_def [symmetric])
    then show ?thesis
      by (simp only: octets_match_Cons_full [OF 1] len(1) v full_octet_iff [OF lt k(1)])
  next
    case 2
    with be_val_bound [of "b # bs"] be_val_bound [of "a # as"] Cons.hyps show ?thesis
      by (simp add: pow power_add)
  next
    case 3
    show ?thesis
      by (simp only: octets_match_Cons_partial [OF 3] len(1) v partial_octet_div [OF lt(1) 3(2)]
        partial_octet_div [OF lt(2) 3(2)])
  qed
qed

lemma contains_V4_iff: "unat p \<le> 32 \<Longrightarrow>
  contains_addr (V4 b) p (V4 a) \<longleftrightarrow> unat b div 2 ^ (32 - unat p) = unat a div 2 ^ (32 - unat p)"
  using octets_match_iff [of "v4_octets b" "v4_octets a" "unat p"] by simp

lemma contains_V6_iff: "unat p \<le> 128 \<Longrightarrow>
  contains_addr (V6 b) p (V6 a) \<longleftrightarrow> unat b div 2 ^ (128 - unat p) = unat a div 2 ^ (128 - unat p)"
  using octets_match_iff [of "v6_octets b" "v6_octets a" "unat p"] by simp

lemma Cidr_new_Inr_iff:
  "Cidr_new b p = Inr c \<longleftrightarrow> p \<le> family_max b \<and> c = \<lparr>base = b, prefix_len = p\<rparr>"
  by (auto simp: Cidr_new_def split: if_splits)

lemma family_max_unat:
  "p \<le> family_max (V4 a) \<longleftrightarrow> unat p \<le> 32" "p \<le> family_max (V6 b) \<longleftrightarrow> unat p \<le> 128"
  by (simp_all add: word_le_nat_alt)

text \<open>C22. A network that \<open>Cidr::new\<close> accepts contains exactly the addresses of its own family whose
  leading \<open>prefix_len\<close> bits equal those of the base: the byte-wise loop with its mask table is the
  bit-prefix test.\<close>

theorem contains_leading_bits:
  assumes "Cidr_new b p = Inr c"
  shows "contains c a \<longleftrightarrow>
    (case (b, a) of
       (V4 x, V4 y) \<Rightarrow> unat x div 2 ^ (32 - unat p) = unat y div 2 ^ (32 - unat p)
     | (V6 x, V6 y) \<Rightarrow> unat x div 2 ^ (128 - unat p) = unat y div 2 ^ (128 - unat p)
     | _ \<Rightarrow> False)"
  using assms
  by (cases b; cases a)
    (auto simp: Cidr_new_Inr_iff family_max_unat contains_def contains_V4_iff contains_V6_iff
      simp del: contains_addr.simps(1,2) family_max.simps)

theorem contains_leading_bits_witness:
  "contains \<lparr>base = V4 0x0a000000, prefix_len = 8\<rparr> (V4 0x0a010203)"
  using contains_leading_bits [of "V4 0x0a000000" 8 "\<lparr>base = V4 0x0a000000, prefix_len = 8\<rparr>" "V4 0x0a010203"]
  by (simp add: Cidr_new_def)

section \<open>The special-use ranges as networks\<close>

text \<open>The ranges that the classification's documentation lists.\<close>

definition special_use_cidrs :: "Cidr list" where
  "special_use_cidrs =
     map (\<lambda>(b, p). \<lparr>base = V4 b, prefix_len = p\<rparr>)
       [(0x0a000000, 8), (0xac100000, 12), (0xc0a80000, 16), (0x7f000000, 8), (0xa9fe0000, 16),
        (0xffffffff, 32), (0xc0000200, 24), (0xc6336400, 24), (0xcb007100, 24), (0, 32),
        (0xe0000000, 4), (0x64400000, 10)]
     @ map (\<lambda>(b, p). \<lparr>base = V6 b, prefix_len = p\<rparr>)
       [(1, 128), (0, 128), (0xff000000000000000000000000000000, 8),
        (0xfc000000000000000000000000000000, 7), (0xfe800000000000000000000000000000, 10)]"

text \<open>\<open>is_special_use\<close> holds exactly on the union of the documented networks (RFC 1918, CGNAT,
  loopback, link-local, multicast, broadcast, documentation and unspecified for IPv4; loopback,
  unspecified, multicast, ULA and link-local for IPv6), as the CIDR matcher of the rules sees them.\<close>

theorem special_use_is_cidr_union:
  "is_special_use a = list_ex (\<lambda>c. contains c a) special_use_cidrs"
  by (cases a)
    (auto simp: special_use_cidrs_def contains_def contains_V4_iff contains_V6_iff
      v4_class_iffs v6_class_iffs simp del: contains_addr.simps(1,2))

section \<open>The decision\<close>

text \<open>The rules matter as sets: order and repetition do not.\<close>

lemma rule_match_mono:
  "set (deny rs') \<subseteq> set (deny rs) \<Longrightarrow> denied_addr rs' a p \<Longrightarrow> denied_addr rs a p"
  "set (deny rs') \<subseteq> set (deny rs) \<Longrightarrow> name_denied rs' n p \<Longrightarrow> name_denied rs n p"
  "set (allow rs) \<subseteq> set (allow rs') \<Longrightarrow> allow_addr_match rs a p t \<Longrightarrow> allow_addr_match rs' a p t"
  "set (allow rs) \<subseteq> set (allow rs') \<Longrightarrow> allow_name_match rs n p t \<Longrightarrow> allow_name_match rs' n p t"
  by (auto simp: denied_addr_def name_denied_def allow_addr_match_def allow_name_match_def
    list_ex_iff)

lemma decide_request_Addr_RAllow_iff:
  "decide_request rs (Addr a) port t = RAllow \<longleftrightarrow>
     \<not> denied_addr rs a port
     \<and> (mode rs = Unconstrained \<or> mode rs = Constrained \<and> allow_addr_match rs a port t)"
  by (cases "mode rs") (auto simp: decide_request_def)

lemma decide_request_Name_RResolve_iff:
  "decide_request rs (Name n) port t = RResolve \<longleftrightarrow>
     \<not> name_denied rs n port
     \<and> (mode rs = Unconstrained \<or> mode rs = Constrained \<and> allow_name_match rs n port t)"
  by (cases "mode rs") (auto simp: decide_request_def)

lemma decide_request_Addr_not_RResolve: "decide_request rs (Addr a) port t \<noteq> RResolve"
  by (cases "mode rs") (auto simp: decide_request_def)

lemma decide_request_Name_not_RAllow: "decide_request rs (Name n) port t \<noteq> RAllow"
  by (cases "mode rs") (auto simp: decide_request_def)

lemmas decide_request_simps = decide_request_Addr_RAllow_iff decide_request_Name_RResolve_iff
  decide_request_Addr_not_RResolve decide_request_Name_not_RAllow

text \<open>Deny rules only restrict and allow rules only extend: whenever a ruleset permits a request, so
  does, with the same outcome, every ruleset of the same mode with fewer deny rules and more allow
  rules, whatever the order of the rules. No allow rule can override a deny rule.\<close>

theorem decide_request_monotone:
  assumes "mode rs' = mode rs" "set (deny rs') \<subseteq> set (deny rs)" "set (allow rs) \<subseteq> set (allow rs')"
    and "decide_request rs dest port t = d" "d = RAllow \<or> d = RResolve"
  shows "decide_request rs' dest port t = d"
proof (cases dest)
  case (Name n)
  with assms(4,5) have "decide_request rs (Name n) port t = RResolve" "d = RResolve"
    using decide_request_Name_not_RAllow by auto
  with Name assms(1) rule_match_mono(1,2) [OF assms(2)]
    rule_match_mono(3,4) [OF assms(3)] show ?thesis
    by (auto simp: decide_request_Name_RResolve_iff)
next
  case (Addr a)
  with assms(4,5) have "decide_request rs (Addr a) port t = RAllow" "d = RAllow"
    using decide_request_Addr_not_RResolve by auto
  with Addr assms(1) rule_match_mono(1,2) [OF assms(2)]
    rule_match_mono(3,4) [OF assms(3)] show ?thesis
    by (auto simp: decide_request_Addr_RAllow_iff)
qed

theorem decide_request_monotone_witness:
  "decide_request \<lparr>mode = Constrained,
      allow = [\<lparr>matcher = NameMatcher ''x.org'', ports = [], protocol = AnyProto\<rparr>,
               \<lparr>matcher = NameMatcher ''.y.org'', ports = [443], protocol = TcpOnly\<rparr>],
      deny = []\<rparr> (Name ''api.y.org'') 443 Tcp = RResolve"
proof (rule decide_request_monotone)
  let ?rs = "\<lparr>mode = Constrained,
      allow = [\<lparr>matcher = NameMatcher ''.y.org'', ports = [443], protocol = TcpOnly\<rparr>],
      deny = [\<lparr>deny_matcher = DenyName ''evil.org'', deny_ports = []\<rparr>]\<rparr>"
  show "decide_request ?rs (Name ''api.y.org'') 443 Tcp = RResolve"
    by (simp add: decide_request_def name_denied_def allow_name_match_def allow_name_matches_def
      allow_ends_with_label_def get_from_def eq_ignore_ascii_case_def lowercase_def
      to_ascii_lowercase_def port_matches_def)
qed auto

end
