(* ===== verification/Bpf_Acl.thy ===== *)
theory Bpf_Acl
  imports Priv_Wire Settled Ip_Parse Egress_Allow
begin

text \<open>
  The host-mode network gate: the encoding of the policy's rules as entries of the BPF maps
  (\<open>kennel-lib-spawn/src/plan.rs\<close>), the population of the maps by the helper
  (\<open>kennel-privhelper/src/bin/privhelper-bpf.rs\<close>), and the programs that read them
  (\<open>src/bpf\<close>). The programs' memory is little-endian: a word in network byte order is the word whose
  little-endian bytes are the octets.

  The longest-prefix-match trie is the kernel's. Its lookup is the parameter \<open>lookup\<close>: what the trie
  answers for a key after a sequence of updates; \<open>lpm_law\<close> states the documented behaviour (the value
  of the last update among the covering entries with the longest prefix). Whether the kernel takes an
  update is the parameter \<open>accepts\<close>, of which nothing is assumed. Time stamp, process id and command
  name of an audit event are the kernel's and are left out of the events.
\<close>

section \<open>Encoding rules as map entries\<close>

datatype SpawnPlanError = InvalidPolicy string

definition KENNEL_META_MAGIC :: u32 where "KENNEL_META_MAGIC = 0x4B4E454C"
definition KENNEL_ABI_VERSION :: u16 where "KENNEL_ABI_VERSION = 1"
definition IPPROTO_TCP :: u8 where "IPPROTO_TCP = 6"
definition IPPROTO_UDP :: u8 where "IPPROTO_UDP = 17"
definition KENNEL_ALLOW_FLAG_PROXY :: u8 where "KENNEL_ALLOW_FLAG_PROXY = 1"
definition HOST_PREFIX_V4 :: u8 where "HOST_PREFIX_V4 = 32"
definition HOST_PREFIX_V6 :: u8 where "HOST_PREFIX_V6 = 128"
definition LOOPBACK_PREFIX_V4 :: u8 where "LOOPBACK_PREFIX_V4 = 28"
definition LOOPBACK_PREFIX_V6 :: u8 where "LOOPBACK_PREFIX_V6 = 64"

definition lpm_v4_key :: "bytes \<Rightarrow> u8 \<Rightarrow> bytes" where
  "lpm_v4_key addr plen = u32_to_le (ucast plen) @ addr"

fun proto_byte :: "Protocol \<Rightarrow> u8" where
  "proto_byte ProtoAny = 0"
| "proto_byte ProtoTcp = IPPROTO_TCP"
| "proto_byte ProtoUdp = IPPROTO_UDP"

definition allow_entry :: "u16 \<Rightarrow> u16 \<Rightarrow> Protocol \<Rightarrow> u8 \<Rightarrow> bytes" where
  "allow_entry port_min port_max proto flags =
     u16_to_le port_min @ u16_to_le port_max @ [proto_byte proto, flags, 0, 0]"

definition meta_bytes :: "u16 \<Rightarrow> bytes" where
  "meta_bytes ctx =
     (let head = u32_to_le KENNEL_META_MAGIC @ u16_to_le KENNEL_ABI_VERSION @ u16_to_le ctx
      in head @ replicate (64 - length head) 0)"

text \<open>\<open>get_mut(a..b)\<close> followed by \<open>copy_from_slice\<close>.\<close>

definition write_slot :: "bytes \<Rightarrow> nat \<Rightarrow> bytes \<Rightarrow> bytes" where
  "write_slot m off bs =
     (if off + length bs \<le> length m then take off m @ bs @ drop (off + length bs) m else m)"

definition stamp_bind_port_min :: "bytes \<Rightarrow> u16 \<Rightarrow> bytes" where
  "stamp_bind_port_min meta min_port = write_slot meta 14 (u16_to_le min_port)"

record ProxyEndpoint =
  px_v4 :: "Ipv4Addr option"
  px_v6 :: Ipv6Addr
  px_port :: u16

definition stamp_proxy_meta :: "bytes \<Rightarrow> ProxyEndpoint \<Rightarrow> bytes" where
  "stamp_proxy_meta meta endpoint =
     (let v4 = (case px_v4 endpoint of None \<Rightarrow> replicate 4 0 | Some a \<Rightarrow> v4_octets a);
          m1 = write_slot meta 8 v4;
          m2 = write_slot m1 12 (u16_to_be (px_port endpoint))
      in write_slot m2 16 (v6_octets (px_v6 endpoint)))"

definition lpm_v6_key :: "bytes \<Rightarrow> u8 \<Rightarrow> bytes" where
  "lpm_v6_key addr plen = u32_to_le (ucast plen) @ addr"

fun encode_rules :: "NetRule list \<Rightarrow> SpawnPlanError + lpm_entry list \<times> lpm_entry list" where
  "encode_rules [] = Inr ([], [])"
| "encode_rules (r # rules) =
     (let val = allow_entry (nr_port_min r) (nr_port_max r) (nr_protocol r) 0 in
      case parse_ip (nr_cidr r) of
        Some (V4 addr) \<Rightarrow> and_then (encode_rules rules) (\<lambda>(v4, v6).
          Inr ((lpm_v4_key (v4_octets addr) (nr_prefix_len r), val) # v4, v6))
      | Some (V6 addr) \<Rightarrow> and_then (encode_rules rules) (\<lambda>(v4, v6).
          Inr (v4, (lpm_v6_key (v6_octets addr) (nr_prefix_len r), val) # v6))
      | None \<Rightarrow> Inl (InvalidPolicy (''invalid CIDR address `'' @ nr_cidr r @ ''`'')))"

record BpfAcls =
  ba_allow_v4 :: "lpm_entry list"
  ba_allow_v6 :: "lpm_entry list"
  ba_deny_v4 :: "lpm_entry list"
  ba_deny_v6 :: "lpm_entry list"
  ba_bind_allow_v4 :: "lpm_entry list"
  ba_bind_allow_v6 :: "lpm_entry list"
  ba_bind_deny_v4 :: "lpm_entry list"
  ba_bind_deny_v6 :: "lpm_entry list"

definition connect_allow_rules :: "NetPolicy \<Rightarrow> NetRule list" where
  "connect_allow_rules net = (if net_mode net = PolicyHost then net_bpf_connect_allow net else [])"

definition connect_deny_rules :: "NetPolicy \<Rightarrow> NetRule list" where
  "connect_deny_rules net = net_deny_invariant net @ net_bpf_connect_deny net @ net_deny_author net"

definition BpfAcls_from_policy :: "NetPolicy \<Rightarrow> SpawnPlanError + BpfAcls" where
  "BpfAcls_from_policy net =
     and_then (encode_rules (connect_allow_rules net)) (\<lambda>(allow_v4, allow_v6).
     and_then (encode_rules (connect_deny_rules net)) (\<lambda>(deny_v4, deny_v6).
     and_then (encode_rules (net_bpf_bind_allow net)) (\<lambda>(bind_allow_v4, bind_allow_v6).
     and_then (encode_rules (net_bpf_bind_deny net)) (\<lambda>(bind_deny_v4, bind_deny_v6).
     Inr \<lparr>ba_allow_v4 = allow_v4, ba_allow_v6 = allow_v6, ba_deny_v4 = deny_v4, ba_deny_v6 = deny_v6,
       ba_bind_allow_v4 = bind_allow_v4, ba_bind_allow_v6 = bind_allow_v6,
       ba_bind_deny_v4 = bind_deny_v4, ba_bind_deny_v6 = bind_deny_v6\<rparr>))))"

section \<open>The maps\<close>

record kernel_maps =
  km_meta :: "bytes option"
  km_bind_subnet :: "bytes option"
  km_allow_v4 :: "lpm_entry list"
  km_deny_v4 :: "lpm_entry list"
  km_allow_v6 :: "lpm_entry list"
  km_deny_v6 :: "lpm_entry list"
  km_bind_allow_v4 :: "lpm_entry list"
  km_bind_deny_v4 :: "lpm_entry list"
  km_bind_allow_v6 :: "lpm_entry list"
  km_bind_deny_v6 :: "lpm_entry list"

text \<open>A new array map holds zeros, a new trie nothing.\<close>

definition create_maps :: kernel_maps where
  "create_maps = \<lparr>km_meta = Some (replicate 64 0), km_bind_subnet = Some (replicate 44 0), km_allow_v4 = [], km_deny_v4 = [],
     km_allow_v6 = [], km_deny_v6 = [], km_bind_allow_v4 = [], km_bind_deny_v4 = [], km_bind_allow_v6 = [],
     km_bind_deny_v6 = []\<rparr>"

definition bind_subnet_value :: "bytes \<Rightarrow> u16 list \<Rightarrow> bytes option" where
  "bind_subnet_value meta allowed_ports =
     Option.bind (get_range meta 8 12) (\<lambda>v4_addr.
     Option.bind (get_range meta 16 32) (\<lambda>v6_addr.
     let ports = concat (map u16_to_le (take 8 allowed_ports)) in
     Some (v4_addr @ u32_to_le 28 @ v6_addr @ [64, word_of_nat (min (length allowed_ports) 8)]
       @ ports @ replicate (18 - length ports) 0)))"

text \<open>The updates of one trie, in order; the first one the kernel refuses ends the set-up. The two array maps
  are written at index 0.\<close>

type_synonym trie_accepts = "string \<Rightarrow> lpm_entry list \<Rightarrow> lpm_entry \<Rightarrow> bool"

fun update_trie :: "trie_accepts \<Rightarrow> string \<Rightarrow> lpm_entry list \<Rightarrow> lpm_entry list \<Rightarrow> lpm_entry list option" where
  "update_trie accepts name sofar [] = Some sofar"
| "update_trie accepts name sofar (e # es) =
     (if accepts name sofar e then update_trie accepts name (sofar @ [e]) es else None)"

definition populate_maps :: "trie_accepts \<Rightarrow> kernel_maps \<Rightarrow> EgressPayload \<Rightarrow> kernel_maps option" where
  "populate_maps accepts maps p =
     (if \<not> accepts ''kennel_meta_map'' [] (u32_to_le 0, eg_meta p) then None
      else let maps = maps\<lparr>km_meta := Some (eg_meta p)\<rparr> in
         Option.bind (case bind_subnet_value (eg_meta p) (eg_bind_allowed_ports p) of
             Some val \<Rightarrow> if accepts ''bind_subnet_map'' [] (u32_to_le 0, val)
                         then Some (maps\<lparr>km_bind_subnet := Some val\<rparr>) else None
           | None \<Rightarrow> Some maps) (\<lambda>maps.
         Option.bind (update_trie accepts ''allow_v4'' (km_allow_v4 maps) (eg_allow_v4 p)) (\<lambda>a4.
         Option.bind (update_trie accepts ''deny_v4'' (km_deny_v4 maps) (eg_deny_v4 p)) (\<lambda>d4.
         Option.bind (update_trie accepts ''allow_v6'' (km_allow_v6 maps) (eg_allow_v6 p)) (\<lambda>a6.
         Option.bind (update_trie accepts ''deny_v6'' (km_deny_v6 maps) (eg_deny_v6 p)) (\<lambda>d6.
         Option.bind (update_trie accepts ''bind_allow_v4'' (km_bind_allow_v4 maps) (eg_bind_allow_v4 p)) (\<lambda>ba4.
         Option.bind (update_trie accepts ''bind_deny_v4'' (km_bind_deny_v4 maps) (eg_bind_deny_v4 p)) (\<lambda>bd4.
         Option.bind (update_trie accepts ''bind_allow_v6'' (km_bind_allow_v6 maps) (eg_bind_allow_v6 p)) (\<lambda>ba6.
         Option.bind (update_trie accepts ''bind_deny_v6'' (km_bind_deny_v6 maps) (eg_bind_deny_v6 p)) (\<lambda>bd6.
         Some (maps\<lparr>km_allow_v4 := a4, km_deny_v4 := d4, km_allow_v6 := a6, km_deny_v6 := d6,
           km_bind_allow_v4 := ba4, km_bind_deny_v4 := bd4, km_bind_allow_v6 := ba6, km_bind_deny_v6 := bd6\<rparr>)))))))))))"

section \<open>The trie\<close>

type_synonym trie_lookup = "lpm_entry list \<Rightarrow> bytes \<Rightarrow> bytes option"

definition key_plen :: "bytes \<Rightarrow> nat" where
  "key_plen key = unat (u32_of_le (take 4 key))"

definition lpm_covers :: "bytes \<Rightarrow> bytes \<Rightarrow> bool" where
  "lpm_covers entry key \<longleftrightarrow>
     (let n = 8 * (length entry - 4); p = key_plen entry in
      length entry = length key \<and> p \<le> n
      \<and> be_val (drop 4 entry) div 2 ^ (n - p) = be_val (drop 4 key) div 2 ^ (n - p))"

text \<open>The covering entry with the longest prefix, the later one among entries of equal length.\<close>

definition lpm_wins :: "lpm_entry list \<Rightarrow> bytes \<Rightarrow> nat \<Rightarrow> bool" where
  "lpm_wins es key i \<longleftrightarrow>
     i < length es \<and> lpm_covers (fst (es ! i)) key
     \<and> (\<forall>j < length es. lpm_covers (fst (es ! j)) key \<longrightarrow>
          key_plen (fst (es ! j)) < key_plen (fst (es ! i))
          \<or> key_plen (fst (es ! j)) = key_plen (fst (es ! i)) \<and> j \<le> i)"

definition lpm_law :: "trie_lookup \<Rightarrow> bool" where
  "lpm_law lookup \<longleftrightarrow> (\<forall>es key.
     (list_all (\<lambda>e. \<not> lpm_covers (fst e) key) es \<longrightarrow> lookup es key = None)
     \<and> (\<forall>i. lpm_wins es key i \<longrightarrow> lookup es key = Some (snd (es ! i))))"

text \<open>A trie that satisfies the law, for the witnesses.\<close>

fun lpm_best :: "lpm_entry option \<Rightarrow> lpm_entry list \<Rightarrow> bytes \<Rightarrow> lpm_entry option" where
  "lpm_best best [] key = best"
| "lpm_best best ((k, v) # es) key =
     lpm_best (if lpm_covers k key \<and> (case best of None \<Rightarrow> True | Some (k', v') \<Rightarrow> key_plen k' \<le> key_plen k)
       then Some (k, v) else best) es key"

definition lpm_reference :: trie_lookup where
  "lpm_reference es key = map_option snd (lpm_best None es key)"

section \<open>The programs\<close>

record bpf_sock_addr =
  sa_user_ip4 :: u32
  sa_user_ip6 :: "u32 list"
  sa_user_port :: u32
  sa_protocol :: u32

datatype audit_kind = AUDIT_NET_CONNECT_DENY | AUDIT_NET_CONNECT_ALLOW | AUDIT_NET_BIND_REWRITE
  | AUDIT_NET_BIND_DENY | AUDIT_NET_SOCK_DENY | AUDIT_NET_SETSOCKOPT_FORCED | AUDIT_NET_SENDMSG_DENY
  | AUDIT_NET_BIND_ALLOW

definition AF_INET :: nat where "AF_INET = 2"
definition AF_INET6 :: nat where "AF_INET6 = 10"

text \<open>The context byte of the header, then family, proto, port and address, or family, port,
  requested and rewritten address, or family and type, or level and option.\<close>

datatype audit_event =
    AuditConnect audit_kind u16 nat u8 u16 bytes
  | AuditBind audit_kind u16 nat u16 bytes bytes
  | AuditSock u16 nat nat
  | AuditSockopt u16 nat nat

record kennel_meta =
  me_magic :: u32
  me_abi_version :: u16
  me_ctx_byte :: u16
  me_proxy_addr_v4 :: u32
  me_proxy_port :: u16
  me_bind_port_min :: u16
  me_proxy_addr_v6 :: bytes

text \<open>The fields of a structure at their offsets in memory.\<close>

definition load_meta :: "bytes \<Rightarrow> kennel_meta" where
  "load_meta m = \<lparr>me_magic = u32_of_le (take 4 m), me_abi_version = u16_of_le (take 2 (drop 4 m)),
     me_ctx_byte = u16_of_le (take 2 (drop 6 m)), me_proxy_addr_v4 = u32_of_le (take 4 (drop 8 m)),
     me_proxy_port = u16_of_le (take 2 (drop 12 m)), me_bind_port_min = u16_of_le (take 2 (drop 14 m)),
     me_proxy_addr_v6 = take 16 (drop 16 m)\<rparr>"

record bind_subnet =
  bs_v4_addr :: u32
  bs_v4_prefix :: u32
  bs_v6_addr :: bytes
  bs_v6_prefix :: u8
  bs_n_ports :: u8
  bs_allowed_ports :: "u16 list"

definition load_bind_subnet :: "bytes \<Rightarrow> bind_subnet" where
  "load_bind_subnet b = \<lparr>bs_v4_addr = u32_of_le (take 4 b), bs_v4_prefix = u32_of_le (take 4 (drop 4 b)),
     bs_v6_addr = take 16 (drop 8 b), bs_v6_prefix = b ! 24, bs_n_ports = b ! 25,
     bs_allowed_ports = map u16_of_le (chunks_exact 2 (take 16 (drop 26 b)))\<rparr>"

record allow_value =
  av_port_min :: u16
  av_port_max :: u16
  av_protocol :: u8
  av_flags :: u8

definition load_entry :: "bytes \<Rightarrow> allow_value" where
  "load_entry v = \<lparr>av_port_min = u16_of_le (take 2 v), av_port_max = u16_of_le (take 2 (drop 2 v)),
     av_protocol = v ! 4, av_flags = v ! 5\<rparr>"

definition bpf_ntohs :: "u16 \<Rightarrow> u16" where
  "bpf_ntohs w = u16_of_be (u16_to_le w)"

definition kennel_ctx_load_ip6 :: "bpf_sock_addr \<Rightarrow> bytes" where
  "kennel_ctx_load_ip6 ctx = concat (map u32_to_le (sa_user_ip6 ctx))"

definition kennel_ctx_store_ip6 :: "bpf_sock_addr \<Rightarrow> bytes \<Rightarrow> bpf_sock_addr" where
  "kennel_ctx_store_ip6 ctx a = ctx\<lparr>sa_user_ip6 := map u32_of_le (chunks_exact 4 a)\<rparr>"

text \<open>An event is dropped when the ring has no room.\<close>

definition kennel_audit_connect ::
  "bool \<Rightarrow> audit_kind \<Rightarrow> nat \<Rightarrow> u8 \<Rightarrow> u16 \<Rightarrow> bytes \<Rightarrow> kennel_meta \<Rightarrow> audit_event list" where
  "kennel_audit_connect ring_full kind family proto port_be addr meta =
     (if ring_full then []
      else [AuditConnect kind (me_ctx_byte meta) family proto port_be
        (if family = AF_INET6 then addr else addr @ replicate 12 0)])"

definition kennel_audit_bind ::
  "bool \<Rightarrow> audit_kind \<Rightarrow> nat \<Rightarrow> u16 \<Rightarrow> bytes \<Rightarrow> bytes \<Rightarrow> kennel_meta \<Rightarrow> audit_event list" where
  "kennel_audit_bind ring_full kind family port_be requested rewritten meta =
     (if ring_full then [] else [AuditBind kind (me_ctx_byte meta) family port_be requested rewritten])"

definition kennel_entry_permits :: "allow_value \<Rightarrow> u8 \<Rightarrow> u16 \<Rightarrow> bool" where
  "kennel_entry_permits entry proto port_host \<longleftrightarrow>
     (if av_protocol entry \<noteq> 0 \<and> av_protocol entry \<noteq> proto then False
      else av_port_min entry \<le> port_host \<and> port_host \<le> av_port_max entry)"

text \<open>The verdict of a hook with the events it emits. The two families run the same decision on
  their own tries.\<close>

type_synonym verdict = "bool \<times> audit_event list"

definition lpm_decide :: "trie_lookup \<Rightarrow> lpm_entry list \<Rightarrow> lpm_entry list \<Rightarrow> bytes \<Rightarrow> u8 \<Rightarrow> u16 \<Rightarrow> bool" where
  "lpm_decide lookup denies allows key proto port_host \<longleftrightarrow>
     (if lookup denies key \<noteq> None then False
      else case lookup allows key of
        None \<Rightarrow> False
      | Some entry \<Rightarrow> kennel_entry_permits (load_entry entry) proto port_host)"

definition kennel_decide_v4 ::
  "trie_lookup \<Rightarrow> bool \<Rightarrow> kernel_maps \<Rightarrow> u32 \<Rightarrow> u16 \<Rightarrow> u8 \<Rightarrow> audit_kind \<Rightarrow> audit_kind \<Rightarrow> kennel_meta \<Rightarrow> verdict" where
  "kennel_decide_v4 lookup ring_full maps daddr_be port_be proto deny_kind allow_kind meta =
     (let key = u32_to_le 32 @ u32_to_le daddr_be; port_host = bpf_ntohs port_be;
          ok = lpm_decide lookup (km_deny_v4 maps) (km_allow_v4 maps) key proto port_host
      in (ok, kennel_audit_connect ring_full (if ok then allow_kind else deny_kind) AF_INET proto port_be
            (u32_to_le daddr_be) meta))"

definition kennel_decide_v6 ::
  "trie_lookup \<Rightarrow> bool \<Rightarrow> kernel_maps \<Rightarrow> bytes \<Rightarrow> u16 \<Rightarrow> u8 \<Rightarrow> audit_kind \<Rightarrow> audit_kind \<Rightarrow> kennel_meta \<Rightarrow> verdict" where
  "kennel_decide_v6 lookup ring_full maps daddr port_be proto deny_kind allow_kind meta =
     (let key = u32_to_le 128 @ daddr; port_host = bpf_ntohs port_be;
          ok = lpm_decide lookup (km_deny_v6 maps) (km_allow_v6 maps) key proto port_host
      in (ok, kennel_audit_connect ring_full (if ok then allow_kind else deny_kind) AF_INET6 proto port_be
            daddr meta))"

definition kennel_bind_decide_v4 ::
  "trie_lookup \<Rightarrow> bool \<Rightarrow> kernel_maps \<Rightarrow> u32 \<Rightarrow> u16 \<Rightarrow> u8 \<Rightarrow> bytes \<Rightarrow> bytes \<Rightarrow> kennel_meta \<Rightarrow> verdict" where
  "kennel_bind_decide_v4 lookup ring_full maps addr_be port_be proto requested rewritten meta =
     (let key = u32_to_le 32 @ u32_to_le addr_be; port_host = bpf_ntohs port_be;
          ok = lpm_decide lookup (km_bind_deny_v4 maps) (km_bind_allow_v4 maps) key proto port_host
      in (ok, kennel_audit_bind ring_full (if ok then AUDIT_NET_BIND_ALLOW else AUDIT_NET_BIND_DENY) AF_INET port_be
            requested rewritten meta))"

definition kennel_bind_decide_v6 ::
  "trie_lookup \<Rightarrow> bool \<Rightarrow> kernel_maps \<Rightarrow> bytes \<Rightarrow> u16 \<Rightarrow> u8 \<Rightarrow> bytes \<Rightarrow> bytes \<Rightarrow> kennel_meta \<Rightarrow> verdict" where
  "kennel_bind_decide_v6 lookup ring_full maps addr port_be proto requested rewritten meta =
     (let key = u32_to_le 128 @ addr; port_host = bpf_ntohs port_be;
          ok = lpm_decide lookup (km_bind_deny_v6 maps) (km_bind_allow_v6 maps) key proto port_host
      in (ok, kennel_audit_bind ring_full (if ok then AUDIT_NET_BIND_ALLOW else AUDIT_NET_BIND_DENY) AF_INET6 port_be
            requested rewritten meta))"

definition kennel_connect4 :: "trie_lookup \<Rightarrow> bool \<Rightarrow> kernel_maps \<Rightarrow> bpf_sock_addr \<Rightarrow> verdict" where
  "kennel_connect4 lookup ring_full maps ctx =
     (case km_meta maps of
        None \<Rightarrow> (False, [])
      | Some meta \<Rightarrow> kennel_decide_v4 lookup ring_full maps (sa_user_ip4 ctx) (ucast (sa_user_port ctx))
          (ucast (sa_protocol ctx)) AUDIT_NET_CONNECT_DENY AUDIT_NET_CONNECT_ALLOW (load_meta meta))"

definition kennel_connect6 :: "trie_lookup \<Rightarrow> bool \<Rightarrow> kernel_maps \<Rightarrow> bpf_sock_addr \<Rightarrow> verdict" where
  "kennel_connect6 lookup ring_full maps ctx =
     (case km_meta maps of
        None \<Rightarrow> (False, [])
      | Some meta \<Rightarrow> kennel_decide_v6 lookup ring_full maps (kennel_ctx_load_ip6 ctx) (ucast (sa_user_port ctx))
          (ucast (sa_protocol ctx)) AUDIT_NET_CONNECT_DENY AUDIT_NET_CONNECT_ALLOW (load_meta meta))"

definition kennel_sendmsg4 :: "trie_lookup \<Rightarrow> bool \<Rightarrow> kernel_maps \<Rightarrow> bpf_sock_addr \<Rightarrow> verdict" where
  "kennel_sendmsg4 lookup ring_full maps ctx =
     (case km_meta maps of
        None \<Rightarrow> (False, [])
      | Some meta \<Rightarrow> kennel_decide_v4 lookup ring_full maps (sa_user_ip4 ctx) (ucast (sa_user_port ctx))
          IPPROTO_UDP AUDIT_NET_SENDMSG_DENY AUDIT_NET_CONNECT_ALLOW (load_meta meta))"

definition kennel_sendmsg6 :: "trie_lookup \<Rightarrow> bool \<Rightarrow> kernel_maps \<Rightarrow> bpf_sock_addr \<Rightarrow> verdict" where
  "kennel_sendmsg6 lookup ring_full maps ctx =
     (case km_meta maps of
        None \<Rightarrow> (False, [])
      | Some meta \<Rightarrow> kennel_decide_v6 lookup ring_full maps (kennel_ctx_load_ip6 ctx) (ucast (sa_user_port ctx))
          IPPROTO_UDP AUDIT_NET_SENDMSG_DENY AUDIT_NET_CONNECT_ALLOW (load_meta meta))"

text \<open>The loop over the eight port slots.\<close>

definition port_listed :: "bind_subnet \<Rightarrow> u16 \<Rightarrow> bool" where
  "port_listed bs hport \<longleftrightarrow> list_ex (\<lambda>i. i < unat (bs_n_ports bs) \<and> bs_allowed_ports bs ! i = hport) [0..<8]"

definition kennel_bind4 :: "trie_lookup \<Rightarrow> bool \<Rightarrow> kernel_maps \<Rightarrow> bpf_sock_addr \<Rightarrow> verdict \<times> bpf_sock_addr" where
  "kennel_bind4 lookup ring_full maps ctx =
     (case km_meta maps of None \<Rightarrow> ((False, []), ctx) | Some mb \<Rightarrow>
      case km_bind_subnet maps of None \<Rightarrow> ((False, []), ctx) | Some sb \<Rightarrow>
        (let meta = load_meta mb; bs = load_bind_subnet sb;
             addr = sa_user_ip4 ctx; port_be = ucast (sa_user_port ctx) :: u16;
             requested = u32_to_le addr @ replicate 12 0; rewritten = replicate 16 0;
             audit = (\<lambda>kind rw. kennel_audit_bind ring_full kind AF_INET port_be requested rw meta)
         in if port_be = 0 then ((True, audit AUDIT_NET_BIND_ALLOW rewritten), ctx)
            else if me_bind_port_min meta \<noteq> 0 \<and> bpf_ntohs port_be < me_bind_port_min meta
            then ((False, audit AUDIT_NET_BIND_DENY rewritten), ctx)
            else if bs_n_ports bs \<noteq> 0 \<and> \<not> port_listed bs (bpf_ntohs port_be)
            then ((False, audit AUDIT_NET_BIND_DENY rewritten), ctx)
            else if addr = 0
            then (let rewritten = u32_to_le (bs_v4_addr bs) @ replicate 12 0;
                      (ok, evs) = kennel_bind_decide_v4 lookup ring_full maps (bs_v4_addr bs) port_be
                        (ucast (sa_protocol ctx)) requested rewritten meta
                  in ((ok, audit AUDIT_NET_BIND_REWRITE rewritten @ evs), ctx\<lparr>sa_user_ip4 := bs_v4_addr bs\<rparr>))
            else (kennel_bind_decide_v4 lookup ring_full maps addr port_be (ucast (sa_protocol ctx)) requested
                    rewritten meta, ctx)))"

definition kennel_is_any6 :: "bytes \<Rightarrow> bool" where
  "kennel_is_any6 a \<longleftrightarrow> list_all (\<lambda>b. b = 0) a"

definition kennel_bind6 :: "trie_lookup \<Rightarrow> bool \<Rightarrow> kernel_maps \<Rightarrow> bpf_sock_addr \<Rightarrow> verdict \<times> bpf_sock_addr" where
  "kennel_bind6 lookup ring_full maps ctx =
     (case km_meta maps of None \<Rightarrow> ((False, []), ctx) | Some mb \<Rightarrow>
      case km_bind_subnet maps of None \<Rightarrow> ((False, []), ctx) | Some sb \<Rightarrow>
        (let meta = load_meta mb; bs = load_bind_subnet sb;
             addr = kennel_ctx_load_ip6 ctx; port_be = ucast (sa_user_port ctx) :: u16;
             rewritten = replicate 16 0;
             audit = (\<lambda>kind rw. kennel_audit_bind ring_full kind AF_INET6 port_be addr rw meta)
         in if port_be = 0 then ((True, audit AUDIT_NET_BIND_ALLOW rewritten), ctx)
            else if me_bind_port_min meta \<noteq> 0 \<and> bpf_ntohs port_be < me_bind_port_min meta
            then ((False, audit AUDIT_NET_BIND_DENY rewritten), ctx)
            else if bs_n_ports bs \<noteq> 0 \<and> \<not> port_listed bs (bpf_ntohs port_be)
            then ((False, audit AUDIT_NET_BIND_DENY rewritten), ctx)
            else if kennel_is_any6 addr
            then (let (ok, evs) = kennel_bind_decide_v6 lookup ring_full maps (bs_v6_addr bs) port_be
                        (ucast (sa_protocol ctx)) addr (bs_v6_addr bs) meta
                  in ((ok, audit AUDIT_NET_BIND_REWRITE (bs_v6_addr bs) @ evs),
                      kennel_ctx_store_ip6 ctx (bs_v6_addr bs)))
            else (kennel_bind_decide_v6 lookup ring_full maps addr port_be (ucast (sa_protocol ctx)) addr
                    rewritten meta, ctx)))"

definition kennel_sock_create :: "bool \<Rightarrow> kernel_maps \<Rightarrow> nat \<Rightarrow> nat \<Rightarrow> verdict" where
  "kennel_sock_create ring_full maps family stype =
     (if family = AF_INET \<or> family = AF_INET6 then (True, [])
      else (False, case km_meta maps of
              None \<Rightarrow> []
            | Some meta \<Rightarrow> if ring_full then [] else [AuditSock (me_ctx_byte (load_meta meta)) family stype]))"

text \<open>The option value and length after the hook, which always lets the call proceed.\<close>

definition kennel_setsockopt :: "bool \<Rightarrow> kernel_maps \<Rightarrow> nat \<Rightarrow> nat \<Rightarrow> bytes \<Rightarrow> nat \<Rightarrow> bytes \<times> nat \<times> audit_event list" where
  "kennel_setsockopt ring_full maps level optname optval optlen =
     (if level \<noteq> 41 \<or> optname \<noteq> 26 then (optval, optlen, [])
      else case optval of
        [] \<Rightarrow> (optval, optlen, [])
      | b # rest \<Rightarrow>
          if b \<noteq> 1
          then (1 # rest, 1, case km_meta maps of
                  None \<Rightarrow> []
                | Some meta \<Rightarrow> if ring_full then [] else [AuditSockopt (me_ctx_byte (load_meta meta)) 41 26])
          else (optval, optlen, []))"

section \<open>Longest-prefix lookup\<close>

definition lpm_step :: "bytes \<Rightarrow> lpm_entry \<Rightarrow> lpm_entry option \<Rightarrow> lpm_entry option" where
  "lpm_step key e best =
     (if lpm_covers (fst e) key \<and> (case best of None \<Rightarrow> True | Some e' \<Rightarrow> key_plen (fst e') \<le> key_plen (fst e))
      then Some e else best)"

lemma lpm_best_snoc: "lpm_best best (es @ [e]) key = lpm_step key e (lpm_best best es key)"
proof (induction best es key rule: lpm_best.induct)
  case (1 best key)
  then show ?case by (cases e) (auto simp: lpm_step_def split: option.splits)
qed auto

lemma lpm_wins_snoc:
  "lpm_wins (es @ [e]) key i \<longleftrightarrow>
     (if i < length es
      then lpm_wins es key i \<and> (lpm_covers (fst e) key \<longrightarrow> key_plen (fst e) < key_plen (fst (es ! i)))
      else i = length es \<and> lpm_covers (fst e) key
        \<and> (\<forall>j < length es. lpm_covers (fst (es ! j)) key \<longrightarrow> key_plen (fst (es ! j)) \<le> key_plen (fst e)))"
  by (auto simp: lpm_wins_def nth_append less_Suc_eq le_less)

lemma lpm_best_correct:
  "(list_all (\<lambda>e. \<not> lpm_covers (fst e) key) es \<and> lpm_best None es key = None)
   \<or> (\<exists>i. lpm_wins es key i \<and> lpm_best None es key = Some (es ! i))"
proof (induction es rule: rev_induct)
  case Nil
  then show ?case by simp
next
  case (snoc e es)
  show ?case
  proof (cases "lpm_covers (fst e) key")
    case False
    then show ?thesis using snoc by (auto simp: lpm_best_snoc lpm_step_def lpm_wins_snoc lpm_wins_def nth_append)
  next
    case True
    from snoc show ?thesis
    proof (elim disjE exE conjE)
      assume "list_all (\<lambda>e. \<not> lpm_covers (fst e) key) es" "lpm_best None es key = None"
      then have "lpm_wins (es @ [e]) key (length es)" "lpm_best None (es @ [e]) key = Some e"
        using True by (auto simp: lpm_wins_snoc lpm_best_snoc lpm_step_def list_all_iff)
      then show ?thesis by auto
    next
      fix i assume w: "lpm_wins es key i" and b: "lpm_best None es key = Some (es ! i)"
      then have i: "i < length es" by (simp add: lpm_wins_def)
      show ?thesis
      proof (cases "key_plen (fst (es ! i)) \<le> key_plen (fst e)")
        case le: True
        have "key_plen (fst (es ! j)) \<le> key_plen (fst e)" if "j < length es" "lpm_covers (fst (es ! j)) key" for j
          using w that le unfolding lpm_wins_def by fastforce
        then have "lpm_wins (es @ [e]) key (length es)" using True by (simp add: lpm_wins_snoc)
        moreover have "lpm_best None (es @ [e]) key = Some e" using True b le by (simp add: lpm_best_snoc lpm_step_def)
        ultimately show ?thesis by auto
      next
        case False
        then have "lpm_wins (es @ [e]) key i" using w i by (simp add: lpm_wins_snoc)
        moreover have "lpm_best None (es @ [e]) key = Some ((es @ [e]) ! i)"
          using False b i by (simp add: lpm_best_snoc lpm_step_def nth_append)
        ultimately show ?thesis by blast
      qed
    qed
  qed
qed

lemma lpm_winsD:
  "lpm_wins es key i \<Longrightarrow> j < length es \<Longrightarrow> lpm_covers (fst (es ! j)) key \<Longrightarrow>
   key_plen (fst (es ! j)) < key_plen (fst (es ! i)) \<or> key_plen (fst (es ! j)) = key_plen (fst (es ! i)) \<and> j \<le> i"
  by (simp add: lpm_wins_def)

lemma lpm_wins_unique: "lpm_wins es key i \<Longrightarrow> lpm_wins es key j \<Longrightarrow> i = j"
proof -
  assume w: "lpm_wins es key i" "lpm_wins es key j"
  then have "i < length es" "j < length es" "lpm_covers (fst (es ! i)) key" "lpm_covers (fst (es ! j)) key"
    by (simp_all add: lpm_wins_def)
  with lpm_winsD [OF w(1), of j] lpm_winsD [OF w(2), of i] show "i = j" by linarith
qed

lemma lpm_reference_law: "lpm_law lpm_reference"
proof -
  have "lpm_reference es key = None" if "list_all (\<lambda>e. \<not> lpm_covers (fst e) key) es" for es key
    using lpm_best_correct [of key es] that by (auto simp: lpm_reference_def lpm_wins_def list_all_length)
  moreover have "lpm_reference es key = Some (snd (es ! i))" if w: "lpm_wins es key i" for es key i
  proof -
    have "\<not> list_all (\<lambda>e. \<not> lpm_covers (fst e) key) es" using w by (auto simp: lpm_wins_def list_all_length)
    then obtain j where "lpm_wins es key j" "lpm_best None es key = Some (es ! j)"
      using lpm_best_correct [of key es] by blast
    then show ?thesis using lpm_wins_unique [OF w] by (simp add: lpm_reference_def)
  qed
  ultimately show ?thesis by (simp add: lpm_law_def)
qed

text \<open>The law determines the lookup.\<close>

lemma lpm_law_cases:
  assumes "lpm_law lookup"
  obtains "list_all (\<lambda>e. \<not> lpm_covers (fst e) key) es" "lookup es key = None"
  | i where "lpm_wins es key i" "lookup es key = Some (snd (es ! i))"
proof -
  consider "list_all (\<lambda>e. \<not> lpm_covers (fst e) key) es" | i where "lpm_wins es key i"
    using lpm_best_correct [of key es] by blast
  then show thesis
  proof cases
    case 1
    then show thesis using that(1) assms by (simp add: lpm_law_def)
  next
    case (2 i)
    then show thesis using that(2) [of i] assms by (simp add: lpm_law_def)
  qed
qed

lemma lookup_None_iff:
  "lpm_law lookup \<Longrightarrow> lookup es key = None \<longleftrightarrow> list_all (\<lambda>e. \<not> lpm_covers (fst e) key) es"
  by (rule lpm_law_cases [of lookup key es]) (auto simp: lpm_wins_def list_all_length)

lemma lookup_Some_mem:
  assumes "lpm_law lookup" "lookup es key = Some v"
  shows "\<exists>k. (k, v) \<in> set es \<and> lpm_covers k key"
  using assms(2) by (rule_tac lpm_law_cases [OF assms(1), of key es]) (auto simp: lpm_wins_def in_set_conv_nth, metis prod.collapse)

section \<open>Entries and rules\<close>

text \<open>The rule covers the address, with the containment test of the egress decision.\<close>

definition rule_covers :: "NetRule \<Rightarrow> IpAddr \<Rightarrow> bool" where
  "rule_covers r a \<longleftrightarrow>
     (case parse_ip (nr_cidr r) of
        None \<Rightarrow> False
      | Some b \<Rightarrow> nr_prefix_len r \<le> family_max b \<and> contains_addr b (nr_prefix_len r) a)"

definition rule_permits :: "NetRule \<Rightarrow> u8 \<Rightarrow> u16 \<Rightarrow> bool" where
  "rule_permits r proto port \<longleftrightarrow>
     (nr_protocol r = ProtoAny \<or> proto_byte (nr_protocol r) = proto)
     \<and> nr_port_min r \<le> port \<and> port \<le> nr_port_max r"

definition v4_key :: "Ipv4Addr \<Rightarrow> bytes" where "v4_key a = u32_to_le 32 @ v4_octets a"
definition v6_key :: "Ipv6Addr \<Rightarrow> bytes" where "v6_key a = u32_to_le 128 @ v6_octets a"

lemma key_plen_lpm [simp]: "key_plen (lpm_v4_key bs p) = unat p" "key_plen (lpm_v6_key bs p) = unat p"
proof -
  have "unat (ucast p :: u32) = unat p"
    using unat_u8_lt [of p] by (simp add: unsigned_ucast_eq take_bit_nat_eq_self)
  then show "key_plen (lpm_v4_key bs p) = unat p" "key_plen (lpm_v6_key bs p) = unat p"
    by (simp_all add: key_plen_def lpm_v4_key_def lpm_v6_key_def u32_of_to_le)
qed

lemma lpm_covers_v4: "lpm_covers (lpm_v4_key (v4_octets b) p) (v4_key a) \<longleftrightarrow> p \<le> 32 \<and> contains_addr (V4 b) p (V4 a)"
proof -
  have "lpm_covers (lpm_v4_key (v4_octets b) p) (v4_key a) \<longleftrightarrow>
      unat p \<le> 32 \<and> unat b div 2 ^ (32 - unat p) = unat a div 2 ^ (32 - unat p)"
    unfolding lpm_covers_def Let_def key_plen_lpm by (simp add: lpm_v4_key_def v4_key_def)
  moreover have "p \<le> 32 \<longleftrightarrow> unat p \<le> 32" by (simp add: word_le_nat_alt)
  ultimately show ?thesis using contains_V4_iff [of p b a] by metis
qed

lemma lpm_covers_v6: "lpm_covers (lpm_v6_key (v6_octets b) p) (v6_key a) \<longleftrightarrow> p \<le> 128 \<and> contains_addr (V6 b) p (V6 a)"
proof -
  have "lpm_covers (lpm_v6_key (v6_octets b) p) (v6_key a) \<longleftrightarrow>
      unat p \<le> 128 \<and> unat b div 2 ^ (128 - unat p) = unat a div 2 ^ (128 - unat p)"
    unfolding lpm_covers_def Let_def key_plen_lpm by (simp add: lpm_v6_key_def v6_key_def)
  moreover have "p \<le> 128 \<longleftrightarrow> unat p \<le> 128" by (simp add: word_le_nat_alt)
  ultimately show ?thesis using contains_V6_iff [of p b a] by metis
qed

lemma load_allow_entry [simp]:
  "load_entry (allow_entry lo hi p f) = \<lparr>av_port_min = lo, av_port_max = hi, av_protocol = proto_byte p, av_flags = f\<rparr>"
proof -
  have "take 2 (allow_entry lo hi p f) = u16_to_le lo" "take 2 (drop 2 (allow_entry lo hi p f)) = u16_to_le hi"
    "drop 4 (allow_entry lo hi p f) = [proto_byte p, f, 0, 0]"
    by (simp_all add: allow_entry_def)
  moreover have "allow_entry lo hi p f ! 4 = hd (drop 4 (allow_entry lo hi p f))"
    "allow_entry lo hi p f ! 5 = hd (tl (drop 4 (allow_entry lo hi p f)))"
    by (simp_all add: allow_entry_def nth_append)
  ultimately show ?thesis by (simp add: load_entry_def u16_of_to_le)
qed

lemma entry_permits_rule:
  "kennel_entry_permits (load_entry (allow_entry (nr_port_min r) (nr_port_max r) (nr_protocol r) f)) proto port
   \<longleftrightarrow> rule_permits r proto port"
  by (cases "nr_protocol r") (auto simp: kennel_entry_permits_def rule_permits_def IPPROTO_TCP_def IPPROTO_UDP_def)

text \<open>The entry of a rule in the table of a family; the encoding is the entries of all rules.\<close>

definition rule_value :: "NetRule \<Rightarrow> bytes" where
  "rule_value r = allow_entry (nr_port_min r) (nr_port_max r) (nr_protocol r) 0"

definition v4_entry :: "NetRule \<Rightarrow> lpm_entry option" where
  "v4_entry r = (case parse_ip (nr_cidr r) of
     Some (V4 b) \<Rightarrow> Some (lpm_v4_key (v4_octets b) (nr_prefix_len r), rule_value r) | _ \<Rightarrow> None)"

definition v6_entry :: "NetRule \<Rightarrow> lpm_entry option" where
  "v6_entry r = (case parse_ip (nr_cidr r) of
     Some (V6 b) \<Rightarrow> Some (lpm_v6_key (v6_octets b) (nr_prefix_len r), rule_value r) | _ \<Rightarrow> None)"

lemma encode_rules_iff:
  "encode_rules rs = Inr t \<longleftrightarrow>
    list_all (\<lambda>r. parse_ip (nr_cidr r) \<noteq> None) rs \<and> t = (List.map_filter v4_entry rs, List.map_filter v6_entry rs)"
proof (induction rs arbitrary: t)
  case (Cons r rs)
  then show ?case
    by (cases "parse_ip (nr_cidr r)")
      (auto simp: Let_def and_then_Inr_iff map_filter_simps v4_entry_def v6_entry_def rule_value_def split: IpAddr.splits)
qed (auto simp: map_filter_simps)

text \<open>The key a hook looks up for an address, and the table of its family.\<close>

fun addr_key :: "IpAddr \<Rightarrow> bytes" where
  "addr_key (V4 a) = v4_key a"
| "addr_key (V6 a) = v6_key a"

fun family_table :: "IpAddr \<Rightarrow> 'e list \<times> 'e list \<Rightarrow> 'e list" where
  "family_table (V4 a) (t4, t6) = t4"
| "family_table (V6 a) (t4, t6) = t6"

fun rule_entry :: "IpAddr \<Rightarrow> NetRule \<Rightarrow> lpm_entry option" where
  "rule_entry (V4 a) r = v4_entry r"
| "rule_entry (V6 a) r = v6_entry r"

lemma rule_covers_entry: "rule_covers r a \<longleftrightarrow> (\<exists>k. rule_entry a r = Some (k, rule_value r) \<and> lpm_covers k (addr_key a))"
  by (cases a) (auto simp: rule_covers_def v4_entry_def v6_entry_def lpm_covers_v4 lpm_covers_v6
    split: option.splits IpAddr.splits)

lemma rule_entry_value: "rule_entry a r = Some (k, v) \<Longrightarrow> v = rule_value r"
  by (cases a) (auto simp: v4_entry_def v6_entry_def split: option.splits IpAddr.splits)

lemma set_map_filter: "set (List.map_filter f xs) = {y. \<exists>x \<in> set xs. f x = Some y}"
  by (induction xs) (auto simp: map_filter_simps split: option.splits)

lemma encoded_table:
  "encode_rules rs = Inr t \<Longrightarrow> set (family_table a t) = {e. \<exists>r \<in> set rs. rule_entry a r = Some e}"
  by (cases a) (auto simp: encode_rules_iff set_map_filter)

lemma encoded_covers_iff:
  "encode_rules rs = Inr t \<Longrightarrow>
   list_all (\<lambda>e. \<not> lpm_covers (fst e) (addr_key a)) (family_table a t) \<longleftrightarrow> list_all (\<lambda>r. \<not> rule_covers r a) rs"
  by (auto simp: list_all_iff encoded_table rule_covers_entry dest: rule_entry_value)

lemma encoded_permits:
  assumes "encode_rules rs = Inr t" "(k, v) \<in> set (family_table a t)" "lpm_covers k (addr_key a)"
    "kennel_entry_permits (load_entry v) proto port"
  shows "\<exists>r \<in> set rs. rule_covers r a \<and> rule_permits r proto port"
proof -
  obtain r where "r \<in> set rs" "rule_entry a r = Some (k, v)" using assms(1,2) by (auto simp: encoded_table)
  with assms(3,4) show ?thesis using rule_entry_value [of a r k v] entry_permits_rule [of r 0 proto port]
    by (auto simp: rule_covers_entry rule_value_def)
qed

lemma decide_allows_iff:
  assumes "lpm_law lookup"
  shows "lpm_decide lookup denies allows key proto port \<longleftrightarrow>
    list_all (\<lambda>e. \<not> lpm_covers (fst e) key) denies
    \<and> (\<exists>i. lpm_wins allows key i \<and> kennel_entry_permits (load_entry (snd (allows ! i))) proto port)"
proof -
  have "(case lookup allows key of None \<Rightarrow> False | Some entry \<Rightarrow> kennel_entry_permits (load_entry entry) proto port)
      \<longleftrightarrow> (\<exists>i. lpm_wins allows key i \<and> kennel_entry_permits (load_entry (snd (allows ! i))) proto port)"
  proof (rule lpm_law_cases [OF assms, of key allows])
    assume "list_all (\<lambda>e. \<not> lpm_covers (fst e) key) allows" "lookup allows key = None"
    then show ?thesis by (auto simp: lpm_wins_def list_all_length)
  next
    fix i assume "lpm_wins allows key i" "lookup allows key = Some (snd (allows ! i))"
    then show ?thesis by (auto dest: lpm_wins_unique)
  qed
  then show ?thesis using lookup_None_iff [OF assms, of denies key] by (auto simp: lpm_decide_def)
qed

text \<open>The hooks' contexts for an address, a port and a protocol.\<close>

definition bpf_htons :: "u16 \<Rightarrow> u16" where
  "bpf_htons p = u16_of_le (u16_to_be p)"

definition ctx_for :: "IpAddr \<Rightarrow> u16 \<Rightarrow> u8 \<Rightarrow> bpf_sock_addr" where
  "ctx_for a port proto =
     \<lparr>sa_user_ip4 = (case a of V4 x \<Rightarrow> u32_of_le (v4_octets x) | V6 x \<Rightarrow> 0),
      sa_user_ip6 = (case a of V4 x \<Rightarrow> replicate 4 0 | V6 x \<Rightarrow> map u32_of_le (chunks_exact 4 (v6_octets x))),
      sa_user_port = ucast (bpf_htons port), sa_protocol = ucast proto\<rparr>"

lemma ntohs_htons [simp]: "bpf_ntohs (bpf_htons p) = p"
proof -
  have "u16_to_le (u16_of_le bs) = bs" if "length bs = 2" for bs
    using be_bytes_of_nat_be_val [of "rev bs", where 'a = 16] that by (simp add: u16_to_le_def u16_of_le_def)
  then show ?thesis by (simp add: bpf_ntohs_def bpf_htons_def u16_of_to_be)
qed

lemma ucast_back [simp]: "ucast (ucast (w :: u16) :: u32) = w" "ucast (ucast (b :: u8) :: u32) = b"
  by (rule bit_word_eqI, simp add: bit_simps)+

lemma ctx_for_simps [simp]:
  "sa_user_port (ctx_for a port proto) = ucast (bpf_htons port)" "sa_protocol (ctx_for a port proto) = ucast proto"
  "sa_user_ip4 (ctx_for (V4 x) port proto) = u32_of_le (v4_octets x)"
  by (simp_all add: ctx_for_def)

lemma load_ip6_ctx [simp]: "kennel_ctx_load_ip6 (ctx_for (V6 x) port proto) = v6_octets x"
proof -
  have "concat (map u32_to_le (map u32_of_le (chunks_exact 4 bs))) = bs" if "length bs mod 4 = 0" for bs
    using that
  proof (induction "4 :: nat" bs rule: chunks_exact.induct)
    case (1 xs)
    show ?case
    proof (cases "length xs < 4")
      case True
      then have "xs = []" using 1(2) by (simp add: mod_less)
      then show ?thesis by (simp add: chunks_exact.simps)
    next
      case False
      then show ?thesis using 1 by (subst chunks_exact.simps) (simp add: to_of_bytes mod_if)
    qed
  qed
  then show ?thesis by (simp add: kennel_ctx_load_ip6_def ctx_for_def)
qed

end
