(* ===== verification/Btree_Map.thy ===== *)
theory Btree_Map
  imports "HOL-Library.Char_ord" "HOL-Library.List_Lexorder"
begin

text \<open>
  Rust's \<open>BTreeMap\<close> as a key-sorted association list, and the contracts its clients rely on: a keyed
  map, a pool of identifiers, and the composition of the two in which every key owns one identifier.
\<close>

section \<open>Ordered maps\<close>

fun bt_insert :: "'k::linorder \<Rightarrow> 'v \<Rightarrow> ('k \<times> 'v) list \<Rightarrow> ('k \<times> 'v) list" where
  "bt_insert k v [] = [(k, v)]"
| "bt_insert k v ((a, b) # m) =
     (if k < a then (k, v) # (a, b) # m else if k = a then (k, v) # m else (a, b) # bt_insert k v m)"

definition bt_remove :: "'k \<Rightarrow> ('k \<times> 'v) list \<Rightarrow> ('k \<times> 'v) list" where
  "bt_remove k m = filter (\<lambda>(a, _). a \<noteq> k) m"

definition bt_get :: "('k \<times> 'v) list \<Rightarrow> 'k \<Rightarrow> 'v option" where
  "bt_get m k = map_of m k"

definition bt_adjust :: "'k \<Rightarrow> ('v \<Rightarrow> 'v) \<Rightarrow> ('k \<times> 'v) list \<Rightarrow> ('k \<times> 'v) list" where
  "bt_adjust k f m = map (\<lambda>(a, b). (a, if a = k then f b else b)) m"

definition bt_inv :: "('k::linorder \<times> 'v) list \<Rightarrow> bool" where
  "bt_inv m \<longleftrightarrow> sorted_wrt (<) (map fst m)"

lemma set_bt_insert_keys: "set (map fst (bt_insert k v m)) = insert k (set (map fst m))"
  by (induction k v m rule: bt_insert.induct) auto

lemma bt_get_insert: "bt_get (bt_insert k v m) = (bt_get m)(k \<mapsto> v)"
  by (induction k v m rule: bt_insert.induct) (auto simp: bt_get_def fun_eq_iff)

lemma bt_get_remove: "bt_get (bt_remove k m) = (bt_get m)(k := None)"
  unfolding bt_get_def bt_remove_def by (induction m) (auto simp: fun_eq_iff)

lemma bt_get_adjust: "bt_get (bt_adjust k f m) = (bt_get m)(k := map_option f (bt_get m k))"
  unfolding bt_get_def bt_adjust_def by (induction m) (auto simp: fun_eq_iff)

lemma bt_inv_insert: "bt_inv m \<Longrightarrow> bt_inv (bt_insert k v m)"
proof (induction k v m rule: bt_insert.induct)
  case (2 k v a b m)
  then have "\<forall>x \<in> set (map fst m). a < x" "bt_inv m" by (auto simp: bt_inv_def)
  with 2 show ?case
    using set_bt_insert_keys [of k v m] by (auto simp: bt_inv_def)
qed (simp add: bt_inv_def)

lemma bt_inv_remove: "bt_inv m \<Longrightarrow> bt_inv (bt_remove k m)"
  unfolding bt_inv_def bt_remove_def by (induction m) auto

lemma map_fst_bt_adjust [simp]: "map fst (bt_adjust k f m) = map fst m"
  by (induction m) (auto simp: bt_adjust_def)

lemma bt_inv_adjust: "bt_inv m \<Longrightarrow> bt_inv (bt_adjust k f m)"
  by (simp add: bt_inv_def)

lemma bt_inv_distinct: "bt_inv m \<Longrightarrow> distinct (map fst m)"
  by (simp add: bt_inv_def strict_sorted_iff)

lemma bt_get_iff: "bt_inv m \<Longrightarrow> bt_get m k = Some v \<longleftrightarrow> (k, v) \<in> set m"
  by (simp add: bt_get_def bt_inv_distinct)

lemma dom_bt_get: "dom (bt_get m) = fst ` set m"
  by (simp add: bt_get_def [abs_def] dom_map_of_conv_image_fst)

section \<open>Contracts\<close>

locale keyed_map =
  fixes get :: "'m \<Rightarrow> 'k \<Rightarrow> 'v option" and ins :: "'k \<Rightarrow> 'v \<Rightarrow> 'm \<Rightarrow> 'm" and del :: "'k \<Rightarrow> 'm \<Rightarrow> 'm"
    and inv :: "'m \<Rightarrow> bool"
  assumes get_ins: "inv m \<Longrightarrow> get (ins k v m) = (get m)(k \<mapsto> v)"
    and get_del: "inv m \<Longrightarrow> get (del k m) = (get m)(k := None)"
    and inv_ins: "inv m \<Longrightarrow> inv (ins k v m)"
    and inv_del: "inv m \<Longrightarrow> inv (del k m)"

interpretation btree: keyed_map bt_get bt_insert bt_remove bt_inv
  by unfold_locales (simp_all add: bt_get_insert bt_get_remove bt_inv_insert bt_inv_remove)

locale id_pool =
  fixes used :: "'s \<Rightarrow> 'i set" and alloc :: "'s \<Rightarrow> ('i \<times> 's) option" and free :: "'i \<Rightarrow> 's \<Rightarrow> 's"
  assumes alloc_fresh: "alloc s = Some (i, s') \<Longrightarrow> i \<notin> used s"
    and used_alloc: "alloc s = Some (i, s') \<Longrightarrow> used s' = insert i (used s)"
    and used_free: "used (free i s) = used s - {i}"

text \<open>Every key owns one identifier, and the identifiers in use are exactly those.\<close>

definition one_each :: "('k \<rightharpoonup> 'i) \<Rightarrow> 'i set \<Rightarrow> bool" where
  "one_each f U \<longleftrightarrow> inj_on f (dom f) \<and> ran f = U"

lemma one_each_iff:
  "one_each f U \<longleftrightarrow> (\<forall>k l i. f k = Some i \<longrightarrow> f l = Some i \<longrightarrow> k = l) \<and> (\<forall>i. i \<in> U \<longleftrightarrow> (\<exists>k. f k = Some i))"
  by (auto simp: one_each_def inj_on_def ran_def dom_def set_eq_iff)

lemma one_each_insert:
  assumes "one_each f U" "f k = None" "i \<notin> U"
  shows "one_each (f(k \<mapsto> i)) (insert i U)"
proof -
  have "f l \<noteq> Some i" for l using assms(1,3) by (auto simp: one_each_iff)
  with assms show ?thesis unfolding one_each_iff by (simp, metis option.discI)
qed

lemma one_each_delete: "one_each f U \<Longrightarrow> f k = Some i \<Longrightarrow> one_each (f(k := None)) (U - {i})"
  unfolding one_each_iff by (simp, metis option.inject)

locale assigned = keyed_map get ins del inv + id_pool used alloc free
  for get :: "'m \<Rightarrow> 'k \<Rightarrow> 'v option" and ins del inv
    and used :: "'s \<Rightarrow> 'i set" and alloc free +
  fixes id_of :: "'v \<Rightarrow> 'i"
begin

lemma assign_keeps:
  assumes "inv m" "one_each (map_option id_of \<circ> get m) (used s)" "get m k = None"
    and "alloc s = Some (id_of v, s')"
  shows "one_each (map_option id_of \<circ> get (ins k v m)) (used s')"
proof -
  have "map_option id_of \<circ> get (ins k v m) = (map_option id_of \<circ> get m)(k \<mapsto> id_of v)"
    using assms(1) by (auto simp: get_ins fun_eq_iff)
  moreover have "one_each ((map_option id_of \<circ> get m)(k \<mapsto> id_of v)) (insert (id_of v) (used s))"
    by (rule one_each_insert [OF assms(2)]) (simp_all add: assms(3) alloc_fresh [OF assms(4)])
  ultimately show ?thesis by (simp add: used_alloc [OF assms(4)])
qed

lemma unassign_keeps:
  assumes "inv m" "one_each (map_option id_of \<circ> get m) (used s)" "get m k = Some v"
  shows "one_each (map_option id_of \<circ> get (del k m)) (used (free (id_of v) s))"
proof -
  have "map_option id_of \<circ> get (del k m) = (map_option id_of \<circ> get m)(k := None)"
    using assms(1) by (auto simp: get_del fun_eq_iff)
  then show ?thesis
    using one_each_delete [OF assms(2), of k "id_of v"] assms(3) by (simp add: used_free)
qed

end

end
