(* ===== verification/Egress_Conduit.thy ===== *)
theory Egress_Conduit
  imports Net_Addr Wire_Codec
begin

text \<open>
  The dial delegate (\<open>kennel-host-delegate/src/netproxy/conduit.rs\<close> and \<open>udp.rs\<close>): the command the
  daemon sends with the conduit descriptor, and what the delegate does with a received message.  The
  operating system's \<open>connect\<close>, \<open>bind\<close> and \<open>getaddrinfo\<close> are parameters.
\<close>

section \<open>The command\<close>

definition MAX_ADDRS :: nat where "MAX_ADDRS = 16"
definition TAG_V4 :: u8 where "TAG_V4 = 4"
definition TAG_V6 :: u8 where "TAG_V6 = 6"

fun put_addr :: "IpAddr \<Rightarrow> bytes" where
  "put_addr (V4 a) = TAG_V4 # v4_octets a"
| "put_addr (V6 a) = TAG_V6 # v6_octets a"

definition encode_command :: "u16 \<Rightarrow> IpAddr list \<Rightarrow> bytes" where
  "encode_command port addrs =
     u16_to_be port @ word_of_nat (min (length addrs) MAX_ADDRS)
     # put_items put_addr (take MAX_ADDRS addrs)"

fun take_addr :: "IpAddr cursor" where
  "take_addr [] = None"
| "take_addr (tag # after) =
     (if tag = TAG_V4 then
        do { (raw, remainder) \<leftarrow> split_at_checked 4 after; Some (V4 (v4_from raw), remainder) }
      else if tag = TAG_V6 then
        do { (raw, remainder) \<leftarrow> split_at_checked 16 after; Some (V6 (v6_from raw), remainder) }
      else None)"

definition decode_command :: "bytes \<Rightarrow> (u16 \<times> IpAddr list) option" where
  "decode_command data =
     (case data of
        p_hi # p_lo # count # rest \<Rightarrow>
          if unat count = 0 \<or> unat count > MAX_ADDRS then None
          else do { (addrs, rest) \<leftarrow> take_items take_addr (unat count) rest;
                    if rest = [] then Some (u16_of_be [p_hi, p_lo], addrs) else None }
      | _ \<Rightarrow> None)"

section \<open>The delegate\<close>

text \<open>
  One received message: its bytes, and how many descriptors came with it.  The buffer holds 512
  bytes.  The result is the list of connection attempts, in order, and the address that was spliced
  if one of them succeeded.
\<close>

definition CONDUIT_BUF :: nat where "CONDUIT_BUF = 512"

fun dial_first :: "(IpAddr \<Rightarrow> u16 \<Rightarrow> bool) \<Rightarrow> u16 \<Rightarrow> IpAddr list \<Rightarrow> (IpAddr \<times> u16) list \<times> IpAddr option" where
  "dial_first connects port [] = ([], None)"
| "dial_first connects port (a # as) =
     (if connects a port then ([(a, port)], Some a)
      else let (tried, hit) = dial_first connects port as in ((a, port) # tried, hit))"

definition handle_conduit ::
    "(IpAddr \<Rightarrow> u16 \<Rightarrow> bool) \<Rightarrow> bytes \<Rightarrow> nat \<Rightarrow> (IpAddr \<times> u16) list \<times> IpAddr option" where
  "handle_conduit connects msg n_fds =
     (if n_fds \<noteq> 1 then ([], None)
      else case decode_command (take CONDUIT_BUF msg) of
        None \<Rightarrow> ([], None)
      | Some (port, addrs) \<Rightarrow> dial_first connects port addrs)"

section \<open>The UDP mode\<close>

datatype io_error = OsError string | ErrNotFound

definition udp_resolve :: "(string \<Rightarrow> string + (IpAddr \<times> u16) list) \<Rightarrow> string \<Rightarrow> io_error + IpAddr list" where
  "udp_resolve to_socket_addrs name =
     (case to_socket_addrs name of
        Inl e \<Rightarrow> Inl (OsError e)
      | Inr sas \<Rightarrow> (let addrs = map fst sas in if addrs = [] then Inl ErrNotFound else Inr addrs))"

text \<open>\<open>connect_udp\<close>: bind the unspecified address of the peer's family, then connect.  The two system
  calls are parameters; a socket is what \<open>bind\<close> returns.\<close>

definition connect_udp ::
    "(IpAddr \<times> u16 \<Rightarrow> io_error + 's) \<Rightarrow> ('s \<Rightarrow> IpAddr \<times> u16 \<Rightarrow> io_error + 's) \<Rightarrow>
     IpAddr \<Rightarrow> u16 \<Rightarrow> io_error + 's" where
  "connect_udp os_bind os_connect addr port =
     (let bind_addr = (case addr of V4 _ \<Rightarrow> (V4 0, 0) | V6 _ \<Rightarrow> (V6 0, 0))
      in case os_bind bind_addr of
           Inl e \<Rightarrow> Inl e
         | Inr sock \<Rightarrow> os_connect sock (addr, port))"

section \<open>The command is read as written\<close>

lemma take_addr_iff: "take_addr cur = Some (a, rest) \<longleftrightarrow> cur = put_addr a @ rest"
proof
  assume "take_addr cur = Some (a, rest)"
  then show "cur = put_addr a @ rest"
    by (cases cur) (auto simp: bind_eq_Some_conv split_at_checked_iff octets_v4_from octets_v6_from
      split: if_splits)
next
  assume "cur = put_addr a @ rest"
  then show "take_addr cur = Some (a, rest)"
    by (cases a) (auto simp: TAG_V4_def TAG_V6_def)
qed

interpretation addr: field_codec put_addr take_addr "\<lambda>_. True"
  by unfold_locales (simp add: take_addr_iff)

text \<open>The longest command: a port, a count and sixteen IPv6 addresses.\<close>

lemma length_put_addr: "length (put_addr a) \<le> 17"
  by (cases a) simp_all

lemma length_put_addrs: "length (put_items put_addr as) \<le> 17 * length as"
proof (induction as)
  case Nil
  show ?case by (simp add: put_items_def)
next
  case (Cons a as)
  then show ?case using length_put_addr [of a] by (simp add: put_items_def)
qed

lemma length_encode_command: "length (encode_command port addrs) \<le> 275"
  using length_put_addrs [of "take MAX_ADDRS addrs"]
  by (simp add: encode_command_def MAX_ADDRS_def)

lemma decode_command_iff:
  "decode_command data = Some (port, addrs) \<longleftrightarrow>
     addrs \<noteq> [] \<and> length addrs \<le> MAX_ADDRS \<and> data = encode_command port addrs"
proof
  assume "decode_command data = Some (port, addrs)"
  then obtain hi lo c rest where d: "data = hi # lo # c # rest" "unat c \<noteq> 0" "unat c \<le> MAX_ADDRS"
    and p: "u16_of_be [hi, lo] = port"
    and a: "take_items take_addr (unat c) rest = Some (addrs, [])"
    by (auto simp: decode_command_def bind_eq_Some_conv split: list.splits if_splits)
  from a have "length addrs = unat c" "rest = put_items put_addr addrs"
    by (simp_all add: addr.take_items_iff)
  moreover from this d(3) have "c = word_of_nat (min (length addrs) MAX_ADDRS)"
    by (simp add: min_absorb1)
  ultimately show "addrs \<noteq> [] \<and> length addrs \<le> MAX_ADDRS \<and> data = encode_command port addrs"
    using d p by (auto simp: encode_command_def u16_of_be_eq_iff)
next
  assume r: "addrs \<noteq> [] \<and> length addrs \<le> MAX_ADDRS \<and> data = encode_command port addrs"
  then have "unat (word_of_nat (length addrs) :: u8) = length addrs"
    by (simp add: unat_of_nat MAX_ADDRS_def)
  moreover obtain hi lo where "u16_to_be port = [hi, lo]" by (rule u16_to_be_pair)
  ultimately show "decode_command data = Some (port, addrs)"
    using r by (auto simp: decode_command_def encode_command_def bind_eq_Some_conv
      addr.take_items_iff u16_of_be_eq_iff list_all_iff)
qed

interpretation command: canonical_codec "\<lambda>(port, addrs). encode_command port addrs" decode_command
  "\<lambda>(port, addrs). addrs \<noteq> [] \<and> length addrs \<le> MAX_ADDRS"
  by unfold_locales (auto simp: decode_command_iff)

text \<open>More than sixteen addresses are cut to the first sixteen.\<close>

lemma encode_command_take: "encode_command port addrs = encode_command port (take MAX_ADDRS addrs)"
  by (simp add: encode_command_def)

lemma decode_encode_command:
  "addrs \<noteq> [] \<Longrightarrow> decode_command (encode_command port addrs) = Some (port, take MAX_ADDRS addrs)"
  by (subst encode_command_take) (simp add: decode_command_iff MAX_ADDRS_def)

section \<open>The attempts of the delegate\<close>

lemma dial_first_eq:
  "dial_first connects port as =
     (map (\<lambda>a. (a, port)) (takeWhile (\<lambda>a. \<not> connects a port) as
        @ take 1 (dropWhile (\<lambda>a. \<not> connects a port) as)),
      find (\<lambda>a. connects a port) as)"
  by (induction as) (auto simp: Let_def split: prod.splits)

lemma dial_first_attempts: "(a, p) \<in> set (fst (dial_first connects port as)) \<Longrightarrow> p = port \<and> a \<in> set as"
  by (induction as) (auto split: if_splits prod.splits)

lemma handle_encoded_command:
  assumes "addrs \<noteq> []"
  shows "handle_conduit connects (encode_command port addrs) 1 =
    dial_first connects port (take MAX_ADDRS addrs)"
proof -
  have "take CONDUIT_BUF (encode_command port addrs) = encode_command port addrs"
    using length_encode_command [of port addrs] by (simp add: CONDUIT_BUF_def)
  with assms show ?thesis by (simp add: handle_conduit_def decode_encode_command)
qed

text \<open>The delegate dials what the daemon pinned and nothing else: on the command the daemon encodes, with
  its one descriptor, it tries the pinned addresses in the daemon's order on the requested port (at
  most the first sixteen), stops at the first that connects, and splices that one; the 512-byte
  buffer never truncates a command.\<close>

theorem conduit_dials_pinned:
  assumes "pinned \<noteq> []"
  shows "handle_conduit connects (encode_command port pinned) 1 =
    (let first = take 16 pinned in
     (map (\<lambda>a. (a, port)) (takeWhile (\<lambda>a. \<not> connects a port) first
        @ take 1 (dropWhile (\<lambda>a. \<not> connects a port) first)),
      find (\<lambda>a. connects a port) first))"
  by (simp only: handle_encoded_command [OF assms] dial_first_eq MAX_ADDRS_def Let_def)

theorem conduit_dials_pinned_witness:
  "handle_conduit (\<lambda>a p. a = V6 1) (encode_command 443 [V4 7, V6 1, V4 9]) 1 =
     ([(V4 7, 443), (V6 1, 443)], Some (V6 1))"
  using conduit_dials_pinned [of "[V4 7, V6 1, V4 9]" "\<lambda>a p. a = V6 1" 443] by simp

text \<open>A message that is not exactly the encoding of one to sixteen addresses, or that comes with no
  descriptor or more than one, makes the delegate dial nothing.\<close>

theorem conduit_refuses_malformed:
  assumes "n_fds \<noteq> 1 \<or> (\<forall>port addrs. addrs \<noteq> [] \<and> length addrs \<le> 16 \<longrightarrow> take 512 msg \<noteq> encode_command port addrs)"
  shows "handle_conduit connects msg n_fds = ([], None)"
proof (cases "n_fds = 1")
  case True
  with assms have "decode_command (take 512 msg) = None"
    by (auto simp: command.dec_None_iff MAX_ADDRS_def)
  then show ?thesis by (simp add: handle_conduit_def CONDUIT_BUF_def)
qed (simp add: handle_conduit_def)

theorem conduit_refuses_malformed_witness:
  "handle_conduit (\<lambda>_ _. True) [1, 187] 1 = ([], None)"
  by (rule conduit_refuses_malformed) (auto simp: encode_command_def dest: arg_cong [of _ _ length])

end
