(* ===== verification/Egress_Inet.thy ===== *)
theory Egress_Inet
  imports Egress_Allow Ip_Parse Settled
begin

text \<open>
  The egress decision of the daemon (\<open>kenneld/src/inet.rs\<close>) and the resolver it calls
  (\<open>kenneld/src/inet/dns.rs\<close>): the runtime built from the signed network policy, and
  \<open>decide\<close>, which pins the vetted addresses of a request.  The operating system's
  \<open>getaddrinfo\<close> is a parameter.  The lemmas describe every outcome of \<open>decide\<close> and carry the deny
  rules of the policy document through to the pinned addresses.
\<close>

section \<open>The resolver\<close>

datatype ResolveError = NotFound | Backend string

type_synonym resolver_fun = "string \<Rightarrow> ResolveError + IpAddr list"

text \<open>\<open>to_socket_addrs\<close> on \<open>(name, 0)\<close> gives socket addresses or an error message.\<close>

definition system_resolve :: "(string \<Rightarrow> string + (IpAddr \<times> u16) list) \<Rightarrow> resolver_fun" where
  "system_resolve to_socket_addrs name =
     (case to_socket_addrs name of
        Inr sas \<Rightarrow> (let addrs = map fst sas in if addrs = [] then Inl NotFound else Inr addrs)
      | Inl e \<Rightarrow> Inl (Backend e))"

section \<open>The runtime\<close>

record NetRuntime =
  ruleset :: Ruleset
  accept_private_resolved :: bool
  host_services :: "(IpAddr \<times> u16) list"
  command_socket :: "string option"

primrec proxy_net_mode :: "PolicyNetMode \<Rightarrow> NetMode" where
  "proxy_net_mode PolicyConstrained = Constrained"
| "proxy_net_mode PolicyUnconstrained = Unconstrained"
| "proxy_net_mode PolicyNone = NetNone"
| "proxy_net_mode PolicyHost = NetNone"

primrec rule_protocol :: "Protocol \<Rightarrow> RuleProtocol" where
  "rule_protocol ProtoAny = AnyProto"
| "rule_protocol ProtoTcp = TcpOnly"
| "rule_protocol ProtoUdp = UdpOnly"

definition ports_for :: "u16 \<Rightarrow> u16 \<Rightarrow> u16 list" where
  "ports_for port_min port_max =
     (if port_min = 0 \<and> port_max = 65535 then []
      else map word_of_nat [unat port_min ..< Suc (unat port_max)])"

definition cidr_of :: "NetRule \<Rightarrow> Cidr option" where
  "cidr_of rule =
     (case parse_ip (nr_cidr rule) of
        None \<Rightarrow> None
      | Some a \<Rightarrow> (case Cidr_new a (nr_prefix_len rule) of Inl _ \<Rightarrow> None | Inr c \<Rightarrow> Some c))"

definition rule_from_cidr :: "NetRule \<Rightarrow> Rule option" where
  "rule_from_cidr rule =
     (case cidr_of rule of
        None \<Rightarrow> None
      | Some c \<Rightarrow> Some \<lparr>matcher = CidrMatcher c,
                       ports = ports_for (nr_port_min rule) (nr_port_max rule),
                       protocol = rule_protocol (nr_protocol rule)\<rparr>)"

definition rule_from_name :: "NameRule \<Rightarrow> Rule" where
  "rule_from_name rule =
     \<lparr>matcher = NameMatcher (nm_name rule), ports = nm_ports rule,
      protocol = rule_protocol (nm_protocol rule)\<rparr>"

definition deny_from_cidr :: "NetRule \<Rightarrow> DenyRule option" where
  "deny_from_cidr rule =
     (case cidr_of rule of
        None \<Rightarrow> None
      | Some c \<Rightarrow> Some \<lparr>deny_matcher = DenyCidr c,
                       deny_ports = ports_for (nr_port_min rule) (nr_port_max rule)\<rparr>)"

definition from_policy ::
    "NetPolicy \<Rightarrow> (IpAddr \<times> u16) list \<Rightarrow> string option \<Rightarrow> NetRuntime" where
  "from_policy net services sock =
     (let allow_rules = List.map_filter rule_from_cidr (net_allow net)
                        @ map rule_from_name (net_allow_names net);
          deny_rules = List.map_filter deny_from_cidr (net_deny_invariant net @ net_deny_author net)
      in \<lparr>ruleset = \<lparr>mode = proxy_net_mode (net_mode net), allow = allow_rules, deny = deny_rules\<rparr>,
          accept_private_resolved = False, host_services = services, command_socket = sock\<rparr>)"

definition denied_runtime :: NetRuntime where
  "denied_runtime =
     \<lparr>ruleset = \<lparr>mode = NetNone, allow = [], deny = []\<rparr>, accept_private_resolved = False,
      host_services = [], command_socket = None\<rparr>"

definition is_host_service :: "NetRuntime \<Rightarrow> IpAddr \<Rightarrow> u16 \<Rightarrow> bool" where
  "is_host_service rt addr port = list_ex (\<lambda>s. fst s = addr \<and> snd s = port) (host_services rt)"

section \<open>The decision\<close>

datatype InetDecision = Pinned "IpAddr list" | Denied | Unreachable

text \<open>The filter of a resolver's answer: the deny rules and the special-use gate.\<close>

definition vetted :: "NetRuntime \<Rightarrow> u16 \<Rightarrow> Transport \<Rightarrow> IpAddr \<Rightarrow> bool" where
  "vetted rt port transport addr \<longleftrightarrow>
     decide_resolved (ruleset rt) addr port transport = DAllow
     \<and> (accept_private_resolved rt \<or> \<not> is_special_use addr)"

definition decide_ruleset ::
    "NetRuntime \<Rightarrow> resolver_fun \<Rightarrow> Destination \<Rightarrow> u16 \<Rightarrow> Transport \<Rightarrow> InetDecision" where
  "decide_ruleset rt resolve dest port transport =
     (case decide_request (ruleset rt) dest port transport of
        RDeny _ \<Rightarrow> Denied
      | RAllow \<Rightarrow> (case dest of Addr addr \<Rightarrow> Pinned [addr] | Name _ \<Rightarrow> Unreachable)
      | RResolve \<Rightarrow> (case dest of
            Name name \<Rightarrow> (case resolve name of
                Inl _ \<Rightarrow> Unreachable
              | Inr addrs \<Rightarrow> (let pinned = filter (vetted rt port transport) addrs in
                  if pinned = [] then Unreachable else Pinned pinned))
          | Addr _ \<Rightarrow> Unreachable))"

definition decide ::
    "NetRuntime \<Rightarrow> resolver_fun \<Rightarrow> Destination \<Rightarrow> u16 \<Rightarrow> Transport \<Rightarrow> InetDecision" where
  "decide rt resolve dest port transport =
     (case dest of
        Addr addr \<Rightarrow>
          if is_host_service rt addr port then Pinned [addr]
          else if \<not> accept_private_resolved rt \<and> is_special_use addr then Denied
          else decide_ruleset rt resolve dest port transport
      | Name _ \<Rightarrow> decide_ruleset rt resolve dest port transport)"

section \<open>Port ranges\<close>

lemma port_in_range_iff:
  fixes lo hi p :: u16
  shows "p \<in> set (map word_of_nat [unat lo ..< Suc (unat hi)]) \<longleftrightarrow> lo \<le> p \<and> p \<le> hi"
proof
  assume "p \<in> set (map word_of_nat [unat lo ..< Suc (unat hi)])"
  then obtain n where n: "p = word_of_nat n" "unat lo \<le> n" "n \<le> unat hi" by auto
  then have "unat p = n" using unat_u16_lt [of hi] by (simp add: unat_of_nat)
  with n show "lo \<le> p \<and> p \<le> hi" by (simp add: word_le_nat_alt)
next
  assume "lo \<le> p \<and> p \<le> hi"
  then have "unat p \<in> set [unat lo ..< Suc (unat hi)]" by (auto simp: word_le_nat_alt)
  then show "p \<in> set (map word_of_nat [unat lo ..< Suc (unat hi)])"
    by (simp only: set_map) (rule image_eqI [of _ _ "unat p"], simp)
qed

lemma u16_le_max: "(p :: u16) \<le> 65535"
  using unat_u16_lt [of p] by (simp add: word_le_nat_alt)

text \<open>A port set built from a well-formed range matches exactly the ports of the range.\<close>

lemma port_matches_ports_for:
  assumes "lo \<le> hi"
  shows "port_matches (ports_for lo hi) p \<longleftrightarrow> lo \<le> p \<and> p \<le> hi"
proof (cases "lo = 0 \<and> hi = 65535")
  case True
  then show ?thesis by (simp add: ports_for_def port_matches_def u16_le_max)
next
  case False
  have "lo \<in> set (map word_of_nat [unat lo ..< Suc (unat hi)])"
    using assms by (simp only: port_in_range_iff) simp
  then have "map (word_of_nat :: nat \<Rightarrow> u16) [unat lo ..< Suc (unat hi)] \<noteq> []" by force
  with False show ?thesis
    by (simp only: ports_for_def port_matches_def List.member_iff port_in_range_iff if_False) simp
qed

lemma port_matches_ports_forI: "lo \<le> p \<Longrightarrow> p \<le> hi \<Longrightarrow> port_matches (ports_for lo hi) p"
  using port_matches_ports_for [of lo hi p] by auto

section \<open>Outcomes of the decision\<close>

lemma vetted_iff:
  "vetted rt port t a \<longleftrightarrow>
     \<not> denied_addr (ruleset rt) a port \<and> (accept_private_resolved rt \<or> \<not> is_special_use a)"
  by (simp add: vetted_def decide_resolved_def)

lemma decide_ruleset_Addr:
  "decide_ruleset rt res (Addr a) port t =
     (if decide_request (ruleset rt) (Addr a) port t = RAllow then Pinned [a] else Denied)"
  using decide_request_Addr_not_RResolve [of "ruleset rt" a port t]
  by (auto simp: decide_ruleset_def split: RequestDecision.split)

lemma decide_Name:
  "decide rt res (Name n) port t =
     (if decide_request (ruleset rt) (Name n) port t = RResolve
      then (case res n of Inl _ \<Rightarrow> Unreachable
            | Inr as \<Rightarrow> (if filter (vetted rt port t) as = [] then Unreachable
                        else Pinned (filter (vetted rt port t) as)))
      else Denied)"
  using decide_request_Name_not_RAllow [of "ruleset rt" n port t]
  by (auto simp: decide_def decide_ruleset_def Let_def split: RequestDecision.split sum.split)

lemma decide_Addr:
  "decide rt res (Addr a) port t =
     (if is_host_service rt a port then Pinned [a]
      else if decide_request (ruleset rt) (Addr a) port t = RAllow
              \<and> (accept_private_resolved rt \<or> \<not> is_special_use a) then Pinned [a]
      else Denied)"
  by (auto simp: decide_def decide_ruleset_Addr)

text \<open>Where a pinned address comes from.\<close>

lemma decide_Pinned_cases:
  assumes "decide rt res dest port t = Pinned as" "a \<in> set as"
  shows "dest = Addr a \<and> is_host_service rt a port
    \<or> mode (ruleset rt) \<noteq> NetNone \<and> vetted rt port t a
      \<and> (dest = Addr a \<or> (\<exists>n all. dest = Name n \<and> res n = Inr all \<and> a \<in> set all
                          \<and> \<not> name_denied (ruleset rt) n port))"
proof (cases dest)
  case (Name n)
  with assms(1) have req: "decide_request (ruleset rt) (Name n) port t = RResolve"
    by (auto simp: decide_Name split: if_splits)
  with assms Name obtain all where "res n = Inr all" "as = filter (vetted rt port t) all"
    by (auto simp: decide_Name split: sum.splits if_splits)
  with assms(2) Name req show ?thesis by (auto simp: decide_request_Name_RResolve_iff)
next
  case (Addr b)
  with assms show ?thesis
    by (auto simp: decide_Addr decide_request_Addr_RAllow_iff vetted_iff split: if_splits)
qed

lemma decide_Pinned_nonempty: "decide rt res dest port t \<noteq> Pinned []"
  by (cases dest) (auto simp: decide_Name decide_Addr split: sum.splits)

section \<open>What the client of a resolver may rely on\<close>

text \<open>
  The contract of the \<open>Resolver\<close> trait: an answer is never empty (\<open>NotFound\<close> stands for that case).
  Under it, a permitted name is unreachable exactly when the resolver failed or every one of its
  answers was refused.
\<close>

locale resolver =
  fixes resolve :: resolver_fun
  assumes answer_nonempty: "resolve n \<noteq> Inr []"
begin

lemma unreachable_iff:
  "decide rt resolve (Name n) port t = Unreachable \<longleftrightarrow>
     decide_request (ruleset rt) (Name n) port t = RResolve
     \<and> ((\<exists>e. resolve n = Inl e)
        \<or> (\<exists>as. resolve n = Inr as \<and> as \<noteq> [] \<and> (\<forall>a \<in> set as. \<not> vetted rt port t a)))"
  using answer_nonempty [of n]
  by (auto simp: decide_Name filter_empty_conv split: sum.splits)

end

interpretation system: resolver "system_resolve gai" for gai
  by unfold_locales (simp add: system_resolve_def Let_def split: sum.split)

section \<open>The policy's rules in the runtime\<close>

text \<open>What a rule of the policy document covers: the addresses of its network on the ports of its range.\<close>

definition rule_covers :: "NetRule \<Rightarrow> IpAddr \<Rightarrow> u16 \<Rightarrow> bool" where
  "rule_covers r a port \<longleftrightarrow>
     (case cidr_of r of Some c \<Rightarrow> contains c a | None \<Rightarrow> False)
     \<and> nr_port_min r \<le> port \<and> port \<le> nr_port_max r"

lemma from_policy_simps [simp]:
  "mode (ruleset (from_policy net s k)) = proxy_net_mode (net_mode net)"
  "accept_private_resolved (from_policy net s k) = False"
  "host_services (from_policy net s k) = s"
  by (simp_all add: from_policy_def Let_def)

lemma from_policy_deny:
  assumes "r \<in> set (net_deny_invariant net) \<union> set (net_deny_author net)" "rule_covers r a port"
  shows "denied_addr (ruleset (from_policy net s k)) a port"
proof -
  from assms(2) obtain c where c: "cidr_of r = Some c" "contains c a"
    and port: "port_matches (ports_for (nr_port_min r) (nr_port_max r)) port"
    by (auto simp: rule_covers_def port_matches_ports_forI split: option.splits)
  let ?d = "\<lparr>deny_matcher = DenyCidr c, deny_ports = ports_for (nr_port_min r) (nr_port_max r)\<rparr>"
  have "deny_from_cidr r = Some ?d" using c(1) by (simp add: deny_from_cidr_def)
  with assms(1) have "?d \<in> set (deny (ruleset (from_policy net s k)))"
    by (force simp: from_policy_def Let_def map_filter_def)
  with c(2) port show ?thesis by (force simp: denied_addr_def list_ex_iff)
qed

text \<open>What a pinned address of a policy's runtime is, for the services built on the decision.\<close>

lemma pinned_cases:
  assumes "decide (from_policy net services sock) res dest port t = Pinned as" "a \<in> set as"
  shows "dest = Addr a \<and> (a, port) \<in> set services
    \<or> \<not> is_special_use a
      \<and> (\<forall>r \<in> set (net_deny_invariant net) \<union> set (net_deny_author net). \<not> rule_covers r a port)
      \<and> net_mode net \<in> {PolicyConstrained, PolicyUnconstrained}"
proof -
  have modes: "proxy_net_mode m \<noteq> NetNone \<Longrightarrow> m \<in> {PolicyConstrained, PolicyUnconstrained}" for m
    by (cases m) simp_all
  have "is_host_service (from_policy net services sock) a port \<Longrightarrow> (a, port) \<in> set services"
    by (auto simp: is_host_service_def list_ex_iff)
  with decide_Pinned_cases [OF assms] show ?thesis
    using from_policy_deny [of _ net a port services sock] modes [of "net_mode net"]
    by (auto simp: vetted_iff)
qed

lemma floor_net_runtime:
  "from_policy (floor_net m) s k =
     \<lparr>ruleset = \<lparr>mode = proxy_net_mode m, allow = [],
        deny = [\<lparr>deny_matcher = DenyCidr \<lparr>base = V4 0xa9fea9fe, prefix_len = 32\<rparr>, deny_ports = []\<rparr>]\<rparr>,
      accept_private_resolved = False, host_services = s, command_socket = k\<rparr>"
  by (simp add: from_policy_def floor_net_def deny_from_cidr_def cidr_of_def Cidr_new_def
    parse_ip_metadata ports_for_def map_filter_def)

lemmas decide_eval = decide_def decide_ruleset_def decide_request_def vetted_def decide_resolved_def
  denied_addr_def name_denied_def port_matches_def contains_def is_host_service_def
  floor_net_runtime system_resolve_def

text \<open>A literal address in special-use space is refused even when the policy allows it by address: no
  allow rule of the signed policy makes a private, loopback or link-local literal reachable through
  the proxy, only a sanctioned host service does.\<close>

theorem special_use_literal_refused:
  assumes "is_special_use a" "(a, port) \<notin> set services"
  shows "decide (from_policy net services sock) res (Addr a) port t = Denied"
  using assms by (auto simp: decide_Addr is_host_service_def list_ex_iff)

theorem special_use_literal_refused_witness:
  "decide (from_policy ((floor_net PolicyConstrained)
      \<lparr>net_allow := [\<lparr>nr_cidr = ''10.0.0.1'', nr_prefix_len = 32, nr_port_min = 0,
                      nr_port_max = 65535, nr_protocol = ProtoAny\<rparr>]\<rparr>) [] None)
     (system_resolve (\<lambda>_. Inr [])) (Addr (V4 0x0a000001)) 443 Tcp = Denied"
  by (rule special_use_literal_refused) (simp_all add: v4_class_iffs)

text \<open>The classification and the deny rules do not canonicalise IPv4-mapped IPv6 addresses: in
  unconstrained mode the literal \<open>::ffff:169.254.169.254\<close>, the mapped form of the metadata address, is
  pinned although the policy carries the mandatory metadata deny and refuses the IPv4 literal.\<close>

theorem mapped_metadata_literal_pinned:
  "parse_ip ''::ffff:169.254.169.254'' = Some (V6 0xffffa9fea9fe)
   \<and> decide (from_policy (floor_net PolicyUnconstrained) [] sock) res (Addr (V6 0xffffa9fea9fe)) 80 Tcp
       = Pinned [V6 0xffffa9fea9fe]
   \<and> decide (from_policy (floor_net PolicyUnconstrained) [] sock) res (Addr (V4 0xa9fea9fe)) 80 Tcp = Denied"
  by (simp add: decide_eval parse_ip_v4_mapped v4_class_iffs v6_class_iffs)

text \<open>With the operating system's resolver, a name the ruleset lets through is reported unreachable exactly
  when \<open>getaddrinfo\<close> failed, gave nothing, or gave only addresses that a deny rule covers or that are
  special-use; in every other case at least one address is pinned.\<close>

theorem system_name_unreachable_iff:
  "decide (from_policy net services sock) (system_resolve gai) (Name n) port t = Unreachable \<longleftrightarrow>
     decide_request (ruleset (from_policy net services sock)) (Name n) port t = RResolve
     \<and> (case gai n of
          Inl e \<Rightarrow> True
        | Inr sas \<Rightarrow> list_all (\<lambda>(a, p). denied_addr (ruleset (from_policy net services sock)) a port
                                       \<or> is_special_use a) sas)"
proof -
  have "(\<exists>e. system_resolve gai n = Inl e)
      \<or> (\<exists>as. system_resolve gai n = Inr as \<and> as \<noteq> []
              \<and> (\<forall>a \<in> set as. \<not> vetted (from_policy net services sock) port t a))
    \<longleftrightarrow> (case gai n of Inl e \<Rightarrow> True
        | Inr sas \<Rightarrow> list_all (\<lambda>(a, p). denied_addr (ruleset (from_policy net services sock)) a port
                                       \<or> is_special_use a) sas)"
    by (force simp: system_resolve_def vetted_iff list_all_iff Let_def split: sum.split)
  then show ?thesis by (simp only: system.unreachable_iff)
qed

end
