(* ===== verification/Egress_Service.thy ===== *)
theory Egress_Service
  imports Egress_Inet Egress_Conduit Binder_Service
begin

text \<open>
  The \<open>CONNECT_INET\<close> service end to end: the daemon's handler of a workload's request
  (\<open>kenneld/src/binder.rs\<close>, \<open>inet_connect\<close>) decodes the payload, decides it, and drives the delegate;
  the delegate dials.  The operating system is the parameters: \<open>getaddrinfo\<close>, whether the daemon
  reaches the delegate's socket, and which addresses accept a TCP connection.
\<close>

section \<open>The handler\<close>

definition MAX_NAME :: nat where "MAX_NAME = 255"

definition decode_transport :: "u8 \<Rightarrow> Transport option" where
  "decode_transport b = (if b = TCP then Some Tcp else if b = UDP then Some Udp else None)"

definition decode_request :: "bytes \<Rightarrow> nat \<Rightarrow> (Transport \<times> u16 \<times> Destination) option" where
  "decode_request data max_host =
     do { (transport_byte, port, host) \<leftarrow> inet_decode_request data max_host;
          transport \<leftarrow> decode_transport transport_byte;
          let dest = (case parse_ip host of Some a \<Rightarrow> Addr a | None \<Rightarrow> Name host);
          Some (transport, port, dest) }"

text \<open>\<open>dial_via_delegate\<close>: the socket pair, the connection to the delegate and the send succeed
  together or the call fails; what reaches the delegate is the command.\<close>

definition dial_via_delegate :: "bool \<Rightarrow> u16 \<Rightarrow> IpAddr list \<Rightarrow> bytes option" where
  "dial_via_delegate delegate_up port pinned =
     (if delegate_up then Some (encode_command port pinned) else None)"

datatype Outcome = OutAllow | OutDeny | OutError

datatype Reply = ReplyData bytes | ReplyFd

definition status_OK :: u8 where "status_OK = 0"
definition status_DENIED :: u8 where "status_DENIED = 1"
definition status_NOT_FOUND :: u8 where "status_NOT_FOUND = 2"
definition status_BAD_REQUEST :: u8 where "status_BAD_REQUEST = 4"

text \<open>The reply, the audit record (destination, port, outcome), and the command sent to the delegate.\<close>

record InetConnect =
  ic_reply :: Reply
  ic_event :: "Destination option \<times> u16 \<times> Outcome"
  ic_command :: "bytes option"

definition inet_connect ::
    "NetRuntime \<Rightarrow> (string \<Rightarrow> string + (IpAddr \<times> u16) list) \<Rightarrow> bool \<Rightarrow> bytes \<Rightarrow> InetConnect" where
  "inet_connect net gai delegate_up data =
     (case decode_request data MAX_NAME of
        None \<Rightarrow> \<lparr>ic_reply = ReplyData [status_BAD_REQUEST], ic_event = (None, 0, OutError),
                 ic_command = None\<rparr>
      | Some (transport, port, dest) \<Rightarrow>
          (let (outcome, reply, command) =
             (case decide net (system_resolve gai) dest port transport of
                Denied \<Rightarrow> (OutDeny, ReplyData [status_DENIED], None)
              | Unreachable \<Rightarrow> (OutError, ReplyData [status_NOT_FOUND], None)
              | Pinned addrs \<Rightarrow>
                  (case command_socket net of
                     None \<Rightarrow> (OutError, ReplyData [status_NOT_FOUND], None)
                   | Some sock \<Rightarrow>
                       (case dial_via_delegate delegate_up port addrs of
                          None \<Rightarrow> (OutError, ReplyData [status_NOT_FOUND], None)
                        | Some cmd \<Rightarrow> (OutAllow, ReplyFd, Some cmd))))
           in \<lparr>ic_reply = reply, ic_event = (Some dest, port, outcome), ic_command = command\<rparr>))"

text \<open>The TCP connections the delegate attempts on behalf of one request.\<close>

definition dialled ::
    "NetRuntime \<Rightarrow> (string \<Rightarrow> string + (IpAddr \<times> u16) list) \<Rightarrow> (IpAddr \<Rightarrow> u16 \<Rightarrow> bool) \<Rightarrow> bytes \<Rightarrow>
     (IpAddr \<times> u16) list" where
  "dialled net gai connects data =
     (case ic_command (inet_connect net gai True data) of
        None \<Rightarrow> []
      | Some cmd \<Rightarrow> fst (handle_conduit connects cmd 1))"

section \<open>Outcomes of the handler\<close>

lemma decode_request_Some:
  "decode_request data n = Some (t, port, dest) \<Longrightarrow>
     \<exists>tb host. inet_decode_request data n = Some (tb, port, host) \<and> decode_transport tb = Some t
       \<and> dest = (case parse_ip host of Some a \<Rightarrow> Addr a | None \<Rightarrow> Name host)"
  by (auto simp: decode_request_def bind_eq_Some_conv Let_def)

lemma inet_connect_command:
  "ic_command (inet_connect net gai up data) = Some cmd \<longleftrightarrow>
     (\<exists>t port dest as. decode_request data MAX_NAME = Some (t, port, dest)
        \<and> decide net (system_resolve gai) dest port t = Pinned as
        \<and> command_socket net \<noteq> None \<and> up \<and> cmd = encode_command port as)"
  by (auto simp: inet_connect_def dial_via_delegate_def Let_def
    split: option.splits InetDecision.splits)

lemma dialledE:
  assumes "(a, p) \<in> set (dialled net gai connects data)"
  obtains t dest as where "decode_request data MAX_NAME = Some (t, p, dest)"
    "decide net (system_resolve gai) dest p t = Pinned as" "a \<in> set as"
proof -
  from assms obtain cmd where cmd: "ic_command (inet_connect net gai True data) = Some cmd"
    "(a, p) \<in> set (fst (handle_conduit connects cmd 1))"
    by (cases "ic_command (inet_connect net gai True data)") (auto simp: dialled_def)
  then obtain t port dest as where d: "decode_request data MAX_NAME = Some (t, port, dest)"
    "decide net (system_resolve gai) dest port t = Pinned as" "cmd = encode_command port as"
    by (auto simp: inet_connect_command)
  moreover from d(2) have "as \<noteq> []" using decide_Pinned_nonempty by metis
  ultimately have "(a, p) \<in> set (fst (dial_first connects port (take MAX_ADDRS as)))"
    using cmd(2) by (simp add: handle_encoded_command del: One_nat_def)
  then have "p = port" "a \<in> set as"
    using dial_first_attempts in_set_takeD by metis+
  with d(1,2) show thesis by (intro that) simp_all
qed

text \<open>C1. From the workload's bytes to the network: whatever a workload sends on \<open>CONNECT_INET\<close>, whatever
  the resolver answers and whichever addresses accept connections, every TCP connection the delegate
  attempts goes to the port of a well-formed request and to an address that is a sanctioned host
  service literal, or is outside special-use space and covered by no deny rule of the policy; a
  kennel in mode \<open>none\<close> or \<open>host\<close> reaches host services only.\<close>

theorem egress_dials_vetted:
  assumes "(a, p) \<in> set (dialled (from_policy net services sock) gai connects data)"
  shows "(a, p) \<in> set services
    \<or> \<not> is_special_use a
      \<and> (\<forall>r \<in> set (net_deny_invariant net) \<union> set (net_deny_author net). \<not> rule_covers r a p)
      \<and> net_mode net \<in> {PolicyConstrained, PolicyUnconstrained}"
proof -
  obtain t dest as where d: "decide (from_policy net services sock) (system_resolve gai) dest p t = Pinned as"
      and a: "a \<in> set as"
    using dialledE [OF assms] by metis
  from pinned_cases [OF d a] show ?thesis by auto
qed

text \<open>A request for a host name, decoded.\<close>

lemma decode_name_request:
  assumes "is_str host" "host \<noteq> []" "length host \<le> MAX_NAME" "parse_ip host = None"
  shows "decode_request (inet_encode_request TCP port host) MAX_NAME = Some (Tcp, port, Name host)"
    and "decode_request (inet_encode_request UDP port host) MAX_NAME = Some (Udp, port, Name host)"
proof -
  have "inet_decode_request (inet_encode_request b port host) MAX_NAME = Some (b, port, host)" for b
    using assms by (simp add: inet_decode_request_iff)
  with assms(4) show "decode_request (inet_encode_request TCP port host) MAX_NAME = Some (Tcp, port, Name host)"
    and "decode_request (inet_encode_request UDP port host) MAX_NAME = Some (Udp, port, Name host)"
    by (simp_all add: decode_request_def decode_transport_def TCP_def UDP_def)
qed

lemma example_host: "is_str ''api.example.com''" "''api.example.com'' \<noteq> []" "length ''api.example.com'' \<le> MAX_NAME"
  by (simp_all add: is_str_def as_bytes_def byte_of_char_def MAX_NAME_def)

lemmas example_request = decode_name_request [OF example_host parse_ip_name]

theorem egress_dials_vetted_witness:
  "\<not> is_special_use (V4 0x08080808)
   \<and> list_all (\<lambda>r. \<not> rule_covers r (V4 0x08080808) 443)
        (net_deny_invariant (floor_net PolicyUnconstrained))"
proof -
  let ?rt = "from_policy (floor_net PolicyUnconstrained) [] (Some ''/run/k'')"
  let ?gai = "\<lambda>_ :: string. Inr [(V4 0xa9fea9fe, 0 :: u16), (V4 0x08080808, 0)] :: string + (IpAddr \<times> u16) list"
  have d: "decide ?rt (system_resolve ?gai) (Name ''api.example.com'') 443 Tcp = Pinned [V4 0x08080808]"
    by (simp add: decide_eval contains_V4_iff v4_class_iffs Let_def del: contains_addr.simps)
  have "command_socket ?rt = Some ''/run/k''" by (simp add: from_policy_def Let_def)
  with d have "ic_command (inet_connect ?rt ?gai True (inet_encode_request TCP 443 ''api.example.com''))
      = Some (encode_command 443 [V4 0x08080808])"
    by (simp add: inet_connect_def example_request dial_via_delegate_def)
  then have "(V4 0x08080808, 443) \<in>
      set (dialled ?rt ?gai (\<lambda>_ _. True) (inet_encode_request TCP 443 ''api.example.com''))"
    by (simp add: dialled_def handle_encoded_command MAX_ADDRS_def del: One_nat_def)
  from egress_dials_vetted [OF this] show ?thesis by (simp add: list_all_iff)
qed

text \<open>A constrained policy with one name rule, for UDP only.\<close>

definition udp_only_net :: NetPolicy where
  "udp_only_net = (floor_net PolicyConstrained)
     \<lparr>net_allow_names := [\<lparr>nm_name = ''api.example.com'', nm_ports = [443], nm_protocol = ProtoUdp\<rparr>]\<rparr>"

lemma udp_only_runtime:
  "from_policy udp_only_net s k =
     \<lparr>ruleset = \<lparr>mode = Constrained,
        allow = [\<lparr>matcher = NameMatcher ''api.example.com'', ports = [443], protocol = UdpOnly\<rparr>],
        deny = [\<lparr>deny_matcher = DenyCidr \<lparr>base = V4 0xa9fea9fe, prefix_len = 32\<rparr>, deny_ports = []\<rparr>]\<rparr>,
      accept_private_resolved = False, host_services = s, command_socket = k\<rparr>"
  using floor_net_runtime [of PolicyConstrained s k]
  by (simp add: udp_only_net_def from_policy_def Let_def floor_net_def rule_from_name_def)

text \<open>The transport of a request takes part in the decision but not in the dial: with a policy that
  allows a host for UDP only, a TCP request for it is refused, and the same request with the UDP
  transport byte makes the delegate open a TCP connection to the host.\<close>

theorem udp_request_dialled_over_tcp:
  assumes "gai ''api.example.com'' = Inr [(V4 0x08080808, 0)]"
  shows "dialled (from_policy udp_only_net [] (Some ''/run/k'')) gai connects
       (inet_encode_request TCP 443 ''api.example.com'') = []
     \<and> dialled (from_policy udp_only_net [] (Some ''/run/k'')) gai connects
       (inet_encode_request UDP 443 ''api.example.com'') = [(V4 0x08080808, 443)]"
proof
  let ?rt = "from_policy udp_only_net [] (Some ''/run/k'')"
  note rules = decide_eval allow_name_match_def allow_name_matches_def eq_ignore_ascii_case_def
  have "decide ?rt (system_resolve gai) (Name ''api.example.com'') 443 Tcp = Denied"
    by (simp add: udp_only_runtime rules)
  then show "dialled ?rt gai connects (inet_encode_request TCP 443 ''api.example.com'') = []"
    by (simp add: dialled_def inet_connect_def example_request)
  have "decide ?rt (system_resolve gai) (Name ''api.example.com'') 443 Udp = Pinned [V4 0x08080808]"
    using assms by (simp add: udp_only_runtime rules contains_V4_iff v4_class_iffs Let_def
      del: contains_addr.simps)
  moreover have "command_socket ?rt = Some ''/run/k''" by (simp add: from_policy_def Let_def)
  ultimately show "dialled ?rt gai connects (inet_encode_request UDP 443 ''api.example.com'')
      = [(V4 0x08080808, 443)]"
    by (simp add: dialled_def inet_connect_def example_request dial_via_delegate_def
      handle_encoded_command MAX_ADDRS_def del: One_nat_def)
qed

theorem udp_request_dialled_over_tcp_witness:
  "dialled (from_policy udp_only_net [] (Some ''/run/k'')) (\<lambda>_. Inr [(V4 0x08080808, 0)]) (\<lambda>_ _. True)
     (inet_encode_request UDP 443 ''api.example.com'') = [(V4 0x08080808, 443)]"
  using udp_request_dialled_over_tcp [of "\<lambda>_. Inr [(V4 0x08080808, 0)]" "\<lambda>_ _. True"] by simp

end
