(* ===== verification/Flow_Table.thy ===== *)
theory Flow_Table
  imports Net_Addr Btree_Map "HOL-Library.AList"
begin

text \<open>
  The flow table of the tun broker (\<open>kennel-tun-broker/src/table.rs\<close>): observed flows under a cap, expired
  when idle.  A \<open>HashMap\<close> is an association list with distinct keys; nothing below depends on its
  order.  A socket is a number, an instant a number of nanoseconds.
\<close>

interpretation hash_map: keyed_map map_of AList.update AList.delete "\<lambda>m. distinct (map fst m)"
  by unfold_locales (simp_all add: update_conv' delete_conv' distinct_update distinct_delete)

section \<open>Flows\<close>

record FlowKey =
  fk_synthetic :: Ipv6Addr
  fk_dst_port :: u16
  fk_src_port :: u16

record Flow =
  fl_socket :: nat
  fl_last_seen :: nat

record FlowTable =
  ft_max_flows :: nat
  ft_idle_timeout :: nat
  ft_flows :: "(FlowKey \<times> Flow) list"

datatype AtCapacity = AtCapacity

definition FlowTable_new :: "nat \<Rightarrow> nat \<Rightarrow> FlowTable" where
  "FlowTable_new max_flows idle_timeout =
     \<lparr>ft_max_flows = max_flows, ft_idle_timeout = idle_timeout, ft_flows = []\<rparr>"

definition touch :: "FlowTable \<Rightarrow> FlowKey \<Rightarrow> nat \<Rightarrow> nat option \<times> FlowTable" where
  "touch t key now =
     (case map_of (ft_flows t) key of
        None \<Rightarrow> (None, t)
      | Some flow \<Rightarrow> (Some (fl_socket flow),
                      t\<lparr>ft_flows := AList.update key (flow\<lparr>fl_last_seen := now\<rparr>) (ft_flows t)\<rparr>))"

definition admit :: "FlowTable \<Rightarrow> FlowKey \<Rightarrow> nat \<Rightarrow> nat \<Rightarrow> AtCapacity + FlowTable" where
  "admit t key socket now =
     (if map_of (ft_flows t) key = None \<and> length (ft_flows t) \<ge> ft_max_flows t then Inl AtCapacity
      else Inr (t\<lparr>ft_flows := AList.update key \<lparr>fl_socket = socket, fl_last_seen = now\<rparr> (ft_flows t)\<rparr>))"

definition expired :: "FlowTable \<Rightarrow> nat \<Rightarrow> FlowKey list" where
  "expired t now = map fst (filter (\<lambda>(_, flow). now - fl_last_seen flow \<ge> ft_idle_timeout t) (ft_flows t))"

definition sweep :: "FlowTable \<Rightarrow> nat \<Rightarrow> FlowKey list \<times> FlowTable" where
  "sweep t now =
     (expired t now, t\<lparr>ft_flows := fold AList.delete (expired t now) (ft_flows t)\<rparr>)"

definition remove_flow :: "FlowTable \<Rightarrow> FlowKey \<Rightarrow> bool \<times> FlowTable" where
  "remove_flow t key = (map_of (ft_flows t) key \<noteq> None, t\<lparr>ft_flows := AList.delete key (ft_flows t)\<rparr>)"

definition live_synthetics :: "FlowTable \<Rightarrow> Ipv6Addr set" where
  "live_synthetics t = set (map (\<lambda>(k, _). fk_synthetic k) (ft_flows t))"

definition flow_count :: "FlowTable \<Rightarrow> nat" where
  "flow_count t = length (ft_flows t)"

section \<open>The table stays within its cap\<close>

definition table_ok :: "FlowTable \<Rightarrow> bool" where
  "table_ok t \<longleftrightarrow> distinct (map fst (ft_flows t)) \<and> length (ft_flows t) \<le> ft_max_flows t"

lemma length_update_absent: "map_of m k = None \<Longrightarrow> length (AList.update k v m) = length m + 1"
  by (induction m) (auto split: if_splits)

lemma length_update_present: "map_of m k \<noteq> None \<Longrightarrow> length (AList.update k v m) = length m"
  by (induction m) (auto split: if_splits)

lemma touch_ok: "table_ok t \<Longrightarrow> table_ok (snd (touch t key now))"
  by (auto simp: touch_def table_ok_def distinct_update length_update_present split: option.splits)

lemma admit_ok: "table_ok t \<Longrightarrow> admit t key socket now = Inr t' \<Longrightarrow> table_ok t'"
  by (cases "map_of (ft_flows t) key = None")
    (auto simp: admit_def table_ok_def distinct_update length_update_present length_update_absent split: if_splits)

lemma map_of_fold_delete:
  "map_of (fold AList.delete ks m) k = (if k \<in> set ks then None else map_of m k)"
  by (induction ks arbitrary: m) (simp_all add: delete_conv' fun_upd_def)

lemma distinct_fold_delete: "distinct (map fst m) \<Longrightarrow> distinct (map fst (fold AList.delete ks m))"
  by (induction ks arbitrary: m) (simp_all add: distinct_delete)

lemma length_fold_delete: "length (fold AList.delete ks m) \<le> length m"
proof (induction ks arbitrary: m)
  case (Cons k ks)
  have "length (AList.delete k m) \<le> length m" by (simp add: length_delete_le)
  with Cons [of "AList.delete k m"] show ?case by simp
qed simp

lemma sweep_ok: "table_ok t \<Longrightarrow> table_ok (snd (sweep t now))"
  using length_fold_delete [of "expired t now" "ft_flows t"]
  by (auto simp: sweep_def table_ok_def distinct_fold_delete)

lemma remove_ok: "table_ok t \<Longrightarrow> table_ok (snd (remove_flow t key))"
  using length_delete_le [of key "ft_flows t"] by (auto simp: remove_flow_def table_ok_def distinct_delete)

text \<open>A sweep removes exactly the idle flows, and reports exactly what it removed.\<close>

lemma sweep_exact:
  assumes "distinct (map fst (ft_flows t))"
  shows "map_of (ft_flows (snd (sweep t now))) k =
    (case map_of (ft_flows t) k of None \<Rightarrow> None
     | Some flow \<Rightarrow> if now - fl_last_seen flow \<ge> ft_idle_timeout t then None else Some flow)"
    "k \<in> set (fst (sweep t now)) \<longleftrightarrow>
       (\<exists>flow. map_of (ft_flows t) k = Some flow \<and> now - fl_last_seen flow \<ge> ft_idle_timeout t)"
proof -
  show e: "k \<in> set (fst (sweep t now)) \<longleftrightarrow>
       (\<exists>flow. map_of (ft_flows t) k = Some flow \<and> now - fl_last_seen flow \<ge> ft_idle_timeout t)"
    using assms by (force simp: sweep_def expired_def)
  then show "map_of (ft_flows (snd (sweep t now))) k =
    (case map_of (ft_flows t) k of None \<Rightarrow> None
     | Some flow \<Rightarrow> if now - fl_last_seen flow \<ge> ft_idle_timeout t then None else Some flow)"
    by (auto simp: sweep_def map_of_fold_delete split: option.splits)
qed

end
