(* ===== verification/Rust_Fmt.thy ===== *)
theory Rust_Fmt
  imports Rust_Text
begin

text \<open>
  The number formatting of Rust's \<open>format!\<close> the components use: \<open>{}\<close> and \<open>{:x}\<close> of an unsigned
  integer, the zero-padded \<open>{:0w x}\<close>, and the laws that tie them to parsing.
\<close>

definition digit_char :: "nat \<Rightarrow> char" where
  "digit_char d = (if d < 10 then char_of (48 + d) else char_of (87 + d))"

fun show_radix :: "nat \<Rightarrow> nat \<Rightarrow> string" where
  "show_radix b n = (if b < 2 \<or> n < b then [digit_char n] else show_radix b (n div b) @ [digit_char (n mod b)])"

declare show_radix.simps [simp del]

definition show_dec :: "nat \<Rightarrow> string" where "show_dec n = show_radix 10 n"
definition show_hex :: "nat \<Rightarrow> string" where "show_hex n = show_radix 16 n"

definition pad_zero :: "nat \<Rightarrow> string \<Rightarrow> string" where
  "pad_zero w s = replicate (w - length s) CHR ''0'' @ s"

section \<open>Digits\<close>

lemma of_char_digit_char: "d < 16 \<Longrightarrow> (of_char (digit_char d) :: nat) = (if d < 10 then 48 + d else 87 + d)"
  by (simp add: digit_char_def of_char_of)

lemma digit_val_digit_char: "d < 16 \<Longrightarrow> d < radix \<Longrightarrow> digit_val radix (digit_char d) = Some d"
  by (simp add: digit_val_def Let_def of_char_digit_char)

lemma show_radix_not_Nil [simp]: "show_radix b n \<noteq> []"
  by (subst show_radix.simps) simp

lemma show_radix_digits:
  "2 \<le> b \<Longrightarrow> b \<le> 16 \<Longrightarrow> c \<in> set (show_radix b n) \<Longrightarrow> \<exists>d < b. c = digit_char d"
proof (induction b n rule: show_radix.induct)
  case (1 b n)
  show ?case
  proof (cases "n < b")
    case True
    with "1.prems" show ?thesis by (auto simp: show_radix.simps [of b n])
  next
    case False
    with "1.prems" have "c \<in> set (show_radix b (n div b)) \<or> c = digit_char (n mod b)"
      by (auto simp: show_radix.simps [of b n])
    moreover from "1.prems" have "n mod b < b" by simp
    moreover have "c \<in> set (show_radix b (n div b)) \<Longrightarrow> ?thesis"
      using "1.IH" "1.prems" False by simp
    ultimately show ?thesis by blast
  qed
qed

lemma show_radix_no_char:
  assumes "2 \<le> b" "b \<le> 16" "\<forall>d < 16. digit_char d \<noteq> c"
  shows "c \<notin> set (show_radix b n)"
proof
  assume "c \<in> set (show_radix b n)"
  then obtain d where "d < b" "c = digit_char d" using show_radix_digits [OF assms(1,2)] by blast
  moreover from this assms(2) have "d < 16" by linarith
  ultimately show False using assms(3) by blast
qed

lemma digit_char_neq:
  assumes "(of_char c :: nat) < 48 \<or> 122 < (of_char c :: nat)"
  shows "\<forall>d < 16. digit_char d \<noteq> c"
proof (intro allI impI notI)
  fix d :: nat assume "d < 16" "digit_char d = c"
  then have "(if d < 10 then 48 + d else 87 + d) = (of_char c :: nat)"
    using of_char_digit_char [of d] by simp
  with assms \<open>d < 16\<close> show False by (simp split: if_splits)
qed

lemma show_dec_no_char:
  "(of_char c :: nat) < 48 \<or> 122 < (of_char c :: nat) \<Longrightarrow> c \<notin> set (show_dec n)"
  unfolding show_dec_def by (rule show_radix_no_char) (simp_all add: digit_char_neq)

section \<open>The value of a printed number\<close>

definition radix_val :: "nat \<Rightarrow> string \<Rightarrow> nat" where
  "radix_val b s = foldl (\<lambda>acc c. acc * b + the (digit_val b c)) 0 s"

lemma radix_val_snoc: "radix_val b (s @ [c]) = radix_val b s * b + the (digit_val b c)"
  by (simp add: radix_val_def)

lemma radix_val_show: "2 \<le> b \<Longrightarrow> b \<le> 16 \<Longrightarrow> radix_val b (show_radix b n) = n"
proof (induction b n rule: show_radix.induct)
  case (1 b n)
  show ?case
  proof (cases "n < b")
    case True
    with "1.prems" have "digit_val b (digit_char n) = Some n" by (intro digit_val_digit_char) simp_all
    with True show ?thesis by (simp add: show_radix.simps [of b n] radix_val_def)
  next
    case False
    from "1.prems" have "n mod b < b" by simp
    moreover from this "1.prems" have "n mod b < 16" by linarith
    ultimately have "digit_val b (digit_char (n mod b)) = Some (n mod b)" by (simp add: digit_val_digit_char)
    with False "1.IH" "1.prems" show ?thesis
      by (simp add: show_radix.simps [of b n] radix_val_snoc)
  qed
qed

lemma radix_val_pad: "2 \<le> b \<Longrightarrow> radix_val b (pad_zero w s) = radix_val b s"
proof -
  assume "2 \<le> b"
  then have "digit_val b CHR ''0'' = Some 0" by (simp add: digit_val_def)
  then have "foldl (\<lambda>acc c. acc * b + the (digit_val b c)) 0 (replicate k CHR ''0'') = 0" for k
    by (induction k) simp_all
  then show ?thesis by (simp add: radix_val_def pad_zero_def)
qed

lemma show_dec_inject [simp]: "show_dec m = show_dec n \<longleftrightarrow> m = n"
proof -
  have "radix_val 10 (show_dec k) = k" for k
    by (simp add: show_dec_def radix_val_show)
  then show ?thesis by metis
qed

lemma pad_hex_inject: "pad_zero w (show_hex m) = pad_zero w (show_hex n) \<longleftrightarrow> m = n"
proof -
  have "radix_val 16 (pad_zero w (show_hex k)) = k" for k
    by (simp add: radix_val_pad show_hex_def radix_val_show)
  then show ?thesis by metis
qed

lemma show_dec_no_dash [simp]: "CHR ''-'' \<notin> set (show_dec n)"
  by (rule show_dec_no_char) simp

section \<open>Parsing what was printed\<close>

lemma parse_dec_snoc:
  "parse_dec hi acc (s @ [c]) =
     (case parse_dec hi acc s of None \<Rightarrow> None
      | Some v \<Rightarrow> (case digit_val 10 c of None \<Rightarrow> None | Some d \<Rightarrow> if v * 10 + d > hi then None else Some (v * 10 + d)))"
  by (induction s arbitrary: acc) (auto split: option.splits)

lemma parse_dec_show: "n \<le> hi \<Longrightarrow> parse_dec hi 0 (show_radix 10 n) = Some n"
proof (induction n rule: less_induct)
  case (less n)
  show ?case
  proof (cases "n < 10")
    case True
    with less.prems show ?thesis
      by (simp add: show_radix.simps [of 10 n] digit_val_digit_char)
  next
    case False
    then have "parse_dec hi 0 (show_radix 10 (n div 10)) = Some (n div 10)"
      using less.prems by (intro less.IH) auto
    moreover have "digit_val 10 (digit_char (n mod 10)) = Some (n mod 10)"
      by (rule digit_val_digit_char) auto
    moreover have "n div 10 * 10 + n mod 10 = n" by simp
    ultimately show ?thesis
      using False less.prems by (simp add: show_radix.simps [of 10 n] parse_dec_snoc)
  qed
qed

lemma parse_u16_show_dec [simp]: "parse_u16 (show_dec (unat w)) = Some w"
proof -
  have "unat w \<le> 65535" using unsigned_less [of w, where 'a = nat] by simp
  then have p: "parse_dec 65535 0 (show_dec (unat w)) = Some (unat w)"
    by (simp add: show_dec_def parse_dec_show)
  have "CHR ''+'' \<notin> set (show_dec (unat w))"
    by (rule show_dec_no_char) simp
  moreover have "show_dec (unat w) \<noteq> []" by (simp add: show_dec_def)
  ultimately show ?thesis
    using p by (auto simp: parse_u16_def neq_Nil_conv split: list.splits)
qed

section \<open>Lines and paths\<close>

text \<open>\<open>str::lines\<close>: a line ends at a line feed, with one carriage return before it dropped; an empty
  last line is not reported.\<close>

definition strip_cr :: "string \<Rightarrow> string" where
  "strip_cr l = (case strip_suffix [CHR 0x0D] l of Some r \<Rightarrow> r | None \<Rightarrow> l)"

definition str_lines :: "string \<Rightarrow> string list" where
  "str_lines s = (let ps = split_on (CHR 0x0A) s
                  in map strip_cr (butlast ps) @ (if last ps = [] then [] else [last ps]))"

text \<open>\<open>Path::join\<close>: an absolute second path replaces the first.\<close>

definition path_join :: "string \<Rightarrow> string \<Rightarrow> string" where
  "path_join a b = (if starts_with ''/'' b \<or> a = [] then b
                    else if last a = CHR ''/'' then a @ b else a @ CHR ''/'' # b)"

end
