(* ===== verification/Rust_Path.thy ===== *)
theory Rust_Path
  imports Rust_Fmt "HOL-Library.Sublist"
begin

text \<open>
  The part of \<open>std::path\<close> the code uses, on Unix. A path is its string; what the operations compare
  are its components: repeated separators, \<open>.\<close> components after the first and a trailing separator are
  skipped, \<open>..\<close> is kept.
\<close>

datatype component = RootDir | CurDir | ParentDir | Normal string

text \<open>The separators and \<open>.\<close> components in front of the next component of a path body.\<close>

fun trim_left :: "string \<Rightarrow> string" where
  "trim_left [] = []"
| "trim_left (c # s) =
     (if c = CHR ''/'' then trim_left s
      else if c = CHR ''.'' \<and> s = [] then []
      else if c = CHR ''.'' \<and> hd s = CHR ''/'' then trim_left s
      else c # s)"

definition trim_right :: "string \<Rightarrow> string" where
  "trim_right s = rev (trim_left (rev s))"

lemma length_trim_left: "length (trim_left s) \<le> length s"
  by (induction s) auto

definition component_of :: "string \<Rightarrow> component" where
  "component_of c = (if c = ''..'' then ParentDir else Normal c)"

lemma trim_left_head: "trim_left s = c # r \<Longrightarrow> c \<noteq> CHR ''/''"
  by (induction s) (auto split: if_splits)

lemma body_rest_shorter:
  assumes "trim_left s \<noteq> []"
  shows "length (dropWhile (\<lambda>c. c \<noteq> CHR ''/'') (trim_left s)) < length s"
proof -
  from assms obtain c r where t: "trim_left s = c # r" by (cases "trim_left s") auto
  have "length (dropWhile (\<lambda>c. c \<noteq> CHR ''/'') r) \<le> length r" by (rule length_dropWhile_le)
  then show ?thesis using t trim_left_head [OF t] length_trim_left [of s] by simp
qed

function body_components :: "string \<Rightarrow> component list" where
  "body_components s =
     (let t = trim_left s in
      if t = [] then []
      else component_of (takeWhile (\<lambda>c. c \<noteq> CHR ''/'') t) # body_components (dropWhile (\<lambda>c. c \<noteq> CHR ''/'') t))"
  by pat_completeness auto

termination by (relation "measure length") (auto simp: body_rest_shorter)

declare body_components.simps [simp del]

fun starts_cur :: "string \<Rightarrow> bool" where
  "starts_cur (c # s) = (c = CHR ''.'' \<and> (s = [] \<or> hd s = CHR ''/''))"
| "starts_cur [] = False"

definition components :: "string \<Rightarrow> component list" where
  "components p =
     (case p of
        [] \<Rightarrow> []
      | c # r \<Rightarrow> if c = CHR ''/'' then RootDir # body_components r
                 else if starts_cur p then CurDir # body_components r
                 else body_components p)"

text \<open>\<open>Path::eq\<close>, \<open>Path::starts_with\<close>, \<open>Path::is_absolute\<close>.\<close>

definition path_eq :: "string \<Rightarrow> string \<Rightarrow> bool" where
  "path_eq p q \<longleftrightarrow> components p = components q"

definition path_starts_with :: "string \<Rightarrow> string \<Rightarrow> bool" where
  "path_starts_with p base \<longleftrightarrow> prefix (components base) (components p)"

definition is_absolute :: "string \<Rightarrow> bool" where
  "is_absolute p \<longleftrightarrow> p \<noteq> [] \<and> hd p = CHR ''/''"

text \<open>
  \<open>Path::strip_prefix\<close>: the string behind the components of the base, with the separators and \<open>.\<close>
  components at both its ends removed. With an empty base nothing is consumed.
\<close>

fun skip_components :: "nat \<Rightarrow> string \<Rightarrow> string" where
  "skip_components 0 s = s"
| "skip_components (Suc n) s = skip_components n (dropWhile (\<lambda>c. c \<noteq> CHR ''/'') (trim_left s))"

definition path_strip_prefix :: "string \<Rightarrow> string \<Rightarrow> string option" where
  "path_strip_prefix p base =
     (if \<not> path_starts_with p base then None
      else case components base of
        [] \<Rightarrow> Some p
      | c # cs \<Rightarrow>
          Some (trim_left (trim_right
            (skip_components (length cs)
              (if c = RootDir \<or> c = CurDir then tl p else dropWhile (\<lambda>c. c \<noteq> CHR ''/'') (trim_left p))))))"

section \<open>Components of composed paths\<close>

lemma trim_left_slash_append: "trim_left (a @ CHR ''/'' # b) = (if trim_left a = [] then trim_left b else trim_left a @ CHR ''/'' # b)"
proof (induction a)
  case Nil
  then show ?case by simp
next
  case (Cons c a)
  then show ?case by (cases a) auto
qed

lemma dropWhile_slash_append:
  "dropWhile (\<lambda>c. c \<noteq> CHR ''/'') (a @ CHR ''/'' # b) = dropWhile (\<lambda>c. c \<noteq> CHR ''/'') a @ CHR ''/'' # b"
  "takeWhile (\<lambda>c. c \<noteq> CHR ''/'') (a @ CHR ''/'' # b) = takeWhile (\<lambda>c. c \<noteq> CHR ''/'') a"
  by (induction a) auto

lemma body_components_slash: "body_components (CHR ''/'' # b) = body_components b"
  by (subst (1 2) body_components.simps) simp

lemma body_components_Nil [simp]: "body_components [] = []"
  by (simp add: body_components.simps)

lemma body_components_append_slash: "body_components (a @ CHR ''/'' # b) = body_components a @ body_components b"
proof (induction a rule: body_components.induct)
  case (1 s)
  show ?case
  proof (cases "trim_left s = []")
    case True
    then show ?thesis
      using body_components.simps [of "s @ CHR ''/'' # b"] body_components.simps [of b] body_components.simps [of s]
      by (simp add: trim_left_slash_append)
  next
    case False
    let ?r = "dropWhile (\<lambda>c. c \<noteq> CHR ''/'') (trim_left s)"
    from 1 [OF refl False] have "body_components (?r @ CHR ''/'' # b) = body_components ?r @ body_components b" .
    then show ?thesis using False body_components.simps [of "s @ CHR ''/'' # b"] body_components.simps [of s]
      by (simp add: trim_left_slash_append dropWhile_slash_append Let_def)
  qed
qed

lemma path_join_relative:
  "\<not> is_absolute rel \<Longrightarrow> base \<noteq> [] \<Longrightarrow>
   path_join base rel = (if last base = CHR ''/'' then base @ rel else base @ CHR ''/'' # rel)"
  by (auto simp: path_join_def is_absolute_def starts_with_iff)

lemma components_join:
  assumes "is_absolute base" "\<not> is_absolute rel"
  shows "components (path_join base rel) = components base @ body_components rel"
proof -
  from assms(1) obtain b where base: "base = CHR ''/'' # b" by (cases base) (auto simp: is_absolute_def)
  show ?thesis
  proof (cases "last base = CHR ''/''")
    case True
    show ?thesis
    proof (cases b rule: rev_cases)
      case Nil
      then show ?thesis using assms(2) base by (simp add: path_join_relative components_def)
    next
      case (snoc b' c)
      then have "b = b' @ CHR ''/'' # []" using True base by (auto split: if_splits)
      then show ?thesis using assms(2) base True body_components_append_slash [of b' rel] body_components_append_slash [of b' "[]"]
        by (simp add: path_join_relative components_def)
    qed
  next
    case False
    then show ?thesis using assms(2) base body_components_append_slash [of b rel]
      by (simp add: path_join_relative components_def)
  qed
qed

text \<open>A body trimmed at either end keeps its components.\<close>

lemma trim_left_idem: "trim_left (trim_left s) = trim_left s"
  by (induction s) auto

lemma body_components_trim_left [simp]: "body_components (trim_left s) = body_components s"
  by (subst (1 2) body_components.simps) (simp add: trim_left_idem)

lemma body_components_trim_right [simp]: "body_components (trim_right s) = body_components s"
proof (induction s rule: rev_induct)
  case Nil
  then show ?case by (simp add: trim_right_def)
next
  case (snoc c s)
  have slash: "body_components (x @ ''/'') = body_components x" for x
    using body_components_append_slash [of x "[]"] by simp
  have dot: "body_components (x @ ''/.'') = body_components x" for x
    using body_components_append_slash [of x "''.''"] by (simp add: body_components.simps [of "''.''"])
  consider "c = CHR ''/''" | "c = CHR ''.''" "s = []" | s' where "c = CHR ''.''" "s = s' @ ''/''"
    | "c \<noteq> CHR ''/''" "c \<noteq> CHR ''.'' \<or> s \<noteq> [] \<and> last s \<noteq> CHR ''/''"
    by (metis append_butlast_last_id)
  then show ?case
  proof cases
    case 1
    then show ?thesis using snoc slash [of s] by (simp add: trim_right_def)
  next
    case 2
    then show ?thesis by (simp add: trim_right_def body_components.simps)
  next
    case 3
    then have "trim_right (s @ [c]) = trim_right s" by (simp add: trim_right_def)
    then show ?thesis using 3 snoc slash [of s'] dot [of s'] by simp
  next
    case 4
    then have "trim_right (s @ [c]) = s @ [c]" by (cases "rev s") (auto simp: trim_right_def hd_rev)
    then show ?thesis by simp
  qed
qed

lemma body_components_skip: "body_components (skip_components n s) = drop n (body_components s)"
proof (induction n arbitrary: s)
  case 0
  then show ?case by simp
next
  case (Suc n)
  show ?case
  proof (cases "trim_left s = []")
    case True
    then have "body_components s = []" by (simp add: body_components.simps)
    then show ?thesis using Suc True by simp
  next
    case False
    then have "drop 1 (body_components s) = body_components (dropWhile (\<lambda>c. c \<noteq> CHR ''/'') (trim_left s))"
      by (subst body_components.simps) (simp add: Let_def)
    then show ?thesis using Suc drop_drop [of n 1 "body_components s"] by simp
  qed
qed

lemma strip_prefix_relative:
  assumes "path_strip_prefix p base = Some rel" "is_absolute base"
  shows "\<not> is_absolute rel \<and> components p = components base @ body_components rel"
proof -
  from assms(2) obtain b where base: "components base = RootDir # body_components b"
    by (cases base) (auto simp: is_absolute_def components_def)
  from assms(1) have pre: "prefix (components base) (components p)"
    by (auto simp: path_strip_prefix_def path_starts_with_def split: if_splits)
  have body_no_root: "RootDir \<notin> set (body_components s)" for s
    by (induction s rule: body_components.induct) (subst body_components.simps, auto simp: Let_def component_of_def)
  obtain q where p: "p = CHR ''/'' # q" "components p = RootDir # body_components q"
  proof (cases p)
    case Nil
    then show ?thesis using pre base by (simp add: components_def)
  next
    case (Cons c r)
    have "RootDir \<in> set (components p)" using pre base by (auto simp: prefix_def)
    then show ?thesis using that Cons body_no_root [of p] body_no_root [of r]
      by (auto simp: components_def split: if_splits)
  qed
  have rel: "rel = trim_left (trim_right (skip_components (length (body_components b)) q))"
    using assms(1) base p by (auto simp: path_strip_prefix_def split: if_splits)
  have "body_components rel = drop (length (body_components b)) (body_components q)"
    unfolding rel by (simp add: body_components_skip)
  moreover have "\<not> is_absolute rel"
    unfolding rel is_absolute_def using trim_left_head by (metis list.exhaust_sel)
  moreover have "take (length (body_components b)) (body_components q) = body_components b"
    using pre base p by (auto simp: prefix_def)
  ultimately show ?thesis using base p by (metis append_Cons append_take_drop_id)
qed

text \<open>Re-rooting a path: joining what is left of it behind a base onto another base.\<close>

lemma rebase_components:
  assumes "path_strip_prefix p base = Some rel" "is_absolute base" "is_absolute root"
  shows "components (path_join root rel) = components root @ drop (length (components base)) (components p)"
  using strip_prefix_relative [OF assms(1,2)] components_join [OF assms(3), of rel] by simp

end
