(* ===== verification/Spawn_Plan.thy ===== *)
theory Spawn_Plan
  imports Bpf_Acl Rust_Path Btree_Map
begin

text \<open>
  The enforcement plan (\<open>kennel-lib-spawn/src/plan.rs\<close>): the translation of a verified settled policy
  into namespaces, bind mounts, Landlock rules, seccomp filters, resource limits and BPF tables. The
  sets of rights are words of flags, as in \<open>kennel-lib-landlock\<close> and \<open>kennel-lib-syscall\<close>.
  System-call numbers are libc's: \<open>libc\<close> gives the number of a name. Descriptors that the daemon fills in
  at bring-up are natural numbers. The home directory the daemon passes is an absolute path.
\<close>

section \<open>Flags\<close>

type_synonym AccessFs = u64
type_synonym AccessNet = u64
type_synonym Namespaces = u32

definition FS_EXECUTE :: AccessFs where "FS_EXECUTE = 0x1"
definition FS_WRITE_FILE :: AccessFs where "FS_WRITE_FILE = 0x2"
definition FS_READ_FILE :: AccessFs where "FS_READ_FILE = 0x4"
definition FS_READ_DIR :: AccessFs where "FS_READ_DIR = 0x8"
definition FS_REMOVE_DIR :: AccessFs where "FS_REMOVE_DIR = 0x10"
definition FS_REMOVE_FILE :: AccessFs where "FS_REMOVE_FILE = 0x20"
definition FS_MAKE_CHAR :: AccessFs where "FS_MAKE_CHAR = 0x40"
definition FS_MAKE_DIR :: AccessFs where "FS_MAKE_DIR = 0x80"
definition FS_MAKE_REG :: AccessFs where "FS_MAKE_REG = 0x100"
definition FS_MAKE_SOCK :: AccessFs where "FS_MAKE_SOCK = 0x200"
definition FS_MAKE_FIFO :: AccessFs where "FS_MAKE_FIFO = 0x400"
definition FS_MAKE_BLOCK :: AccessFs where "FS_MAKE_BLOCK = 0x800"
definition FS_MAKE_SYM :: AccessFs where "FS_MAKE_SYM = 0x1000"
definition FS_REFER :: AccessFs where "FS_REFER = 0x2000"
definition FS_TRUNCATE :: AccessFs where "FS_TRUNCATE = 0x4000"
definition FS_IOCTL_DEV :: AccessFs where "FS_IOCTL_DEV = 0x8000"

lemmas access_fs_defs = FS_EXECUTE_def FS_WRITE_FILE_def FS_READ_FILE_def FS_READ_DIR_def FS_REMOVE_DIR_def
  FS_REMOVE_FILE_def FS_MAKE_CHAR_def FS_MAKE_DIR_def FS_MAKE_REG_def FS_MAKE_SOCK_def FS_MAKE_FIFO_def
  FS_MAKE_BLOCK_def FS_MAKE_SYM_def FS_REFER_def FS_TRUNCATE_def FS_IOCTL_DEV_def

definition NET_BIND_TCP :: AccessNet where "NET_BIND_TCP = 0x1"
definition NET_CONNECT_TCP :: AccessNet where "NET_CONNECT_TCP = 0x2"

definition NS_MOUNT :: Namespaces where "NS_MOUNT = 1"
definition NS_PID :: Namespaces where "NS_PID = 2"
definition NS_IPC :: Namespaces where "NS_IPC = 4"
definition NS_NET :: Namespaces where "NS_NET = 8"
definition NS_USER :: Namespaces where "NS_USER = 16"
definition NS_UTS :: Namespaces where "NS_UTS = 32"

lemmas namespace_defs = NS_MOUNT_def NS_PID_def NS_IPC_def NS_NET_def NS_USER_def NS_UTS_def

datatype Resource = RLIMIT_AS | RLIMIT_CORE | RLIMIT_CPU | RLIMIT_DATA | RLIMIT_FSIZE | RLIMIT_LOCKS
  | RLIMIT_MEMLOCK | RLIMIT_MSGQUEUE | RLIMIT_NICE | RLIMIT_NOFILE | RLIMIT_NPROC | RLIMIT_RTPRIO
  | RLIMIT_RTTIME | RLIMIT_SIGPENDING | RLIMIT_STACK

definition resource_table :: "(string \<times> Resource) list" where
  "resource_table = [(''as'', RLIMIT_AS), (''core'', RLIMIT_CORE), (''cpu'', RLIMIT_CPU), (''data'', RLIMIT_DATA),
     (''fsize'', RLIMIT_FSIZE), (''locks'', RLIMIT_LOCKS), (''memlock'', RLIMIT_MEMLOCK),
     (''msgqueue'', RLIMIT_MSGQUEUE), (''nice'', RLIMIT_NICE), (''nofile'', RLIMIT_NOFILE),
     (''nproc'', RLIMIT_NPROC), (''rtprio'', RLIMIT_RTPRIO), (''rttime'', RLIMIT_RTTIME),
     (''sigpending'', RLIMIT_SIGPENDING), (''stack'', RLIMIT_STACK)]"

definition resource_by_name :: "string \<Rightarrow> Resource option" where
  "resource_by_name name = map_of resource_table name"

definition denied_syscalls :: "string list" where
  "denied_syscalls = [''userfaultfd'', ''perf_event_open'', ''bpf'', ''process_vm_readv'', ''process_vm_writev'',
     ''kexec_load'', ''kexec_file_load'', ''mount'', ''umount2'', ''pivot_root'', ''swapon'', ''swapoff'', ''reboot'',
     ''init_module'', ''finit_module'', ''delete_module'', ''personality'', ''io_uring_setup'', ''io_uring_enter'',
     ''io_uring_register'', ''fsopen'', ''fsconfig'', ''fsmount'', ''move_mount'', ''open_tree'', ''mount_setattr'',
     ''open_by_handle_at'', ''name_to_handle_at'', ''ptrace'', ''add_key'', ''keyctl'', ''request_key'', ''setns'',
     ''unshare'']"

definition syscall_number :: "(string \<Rightarrow> int) \<Rightarrow> string \<Rightarrow> int option" where
  "syscall_number libc name =
     (if name = ''umount'' then Some (libc ''umount2'')
      else if name \<in> set denied_syscalls then Some (libc name) else None)"

datatype Action = ActionErrno u16 | ActionKillThread | ActionKillProcess

definition EPERM :: u16 where "EPERM = 1"

section \<open>The plan\<close>

record BindMount =
  bm_source :: string
  bm_target :: string
  bm_writable :: bool
  bm_exclusive :: bool
  bm_redirected :: bool

record EtcOverlay =
  eo_source :: string
  eo_view_path :: string

datatype Persistence = Discard | Persist

definition Persistence_from_settled :: "string \<Rightarrow> Persistence" where
  "Persistence_from_settled s = (if s = ''persist'' then Persist else Discard)"

record ImageRoot =
  im_image :: string
  im_persistence :: Persistence
  im_store_upper :: "(string \<times> string) option"
  im_readonly :: "string list"
  im_writable :: "string list"

record ShimView =
  sv_shim_root :: string
  sv_binds :: "BindMount list"
  sv_dev_allow :: "string list"
  sv_tmp_size_mib :: u32
  sv_proc_hidepid :: bool
  sv_binder :: bool
  sv_mask_paths :: "string list"
  sv_mask_dir_paths :: "string list"
  sv_image :: "ImageRoot option"
  sv_etc_overlays :: "EtcOverlay list"

record AuxProcess =
  aux_path :: string
  aux_args :: "string list"

record Plan =
  pl_namespaces :: Namespaces
  pl_cgroup :: string
  pl_cgroup_join :: bool
  pl_view :: "ShimView option"
  pl_new_root :: "string option"
  pl_landlock_fs :: "(string \<times> AccessFs) list"
  pl_landlock_net :: "(u16 \<times> AccessNet) list"
  pl_seccomp_deny :: "int list"
  pl_seccomp_deny_action :: Action
  pl_bpf_allow_v4 :: "lpm_entry list"
  pl_bpf_deny_v4 :: "lpm_entry list"
  pl_bpf_allow_v6 :: "lpm_entry list"
  pl_bpf_deny_v6 :: "lpm_entry list"
  pl_bpf_bind_allow_v4 :: "lpm_entry list"
  pl_bpf_bind_deny_v4 :: "lpm_entry list"
  pl_bpf_bind_allow_v6 :: "lpm_entry list"
  pl_bpf_bind_deny_v6 :: "lpm_entry list"
  pl_bpf_meta :: bytes
  pl_bind_allowed_ports :: "u16 list"
  pl_file_binds :: "(string \<times> string) list"
  pl_supplementary_groups :: "u32 list option"
  pl_ulimits :: "(Resource \<times> nat \<times> nat) list"
  pl_interactive_return_fd :: "nat option"
  pl_workload_fd :: "nat option"
  pl_stdio_fds :: "nat list option"
  pl_aux :: "AuxProcess list"
  pl_ttl_seconds :: "u64 option"
  pl_ttl_action :: TtlAction
  pl_hostname :: "string option"

definition HOST_LIBEXEC_DIR :: string where "HOST_LIBEXEC_DIR = ''/usr/libexec/kennel''"

definition PROTECTED_ETC_FLOOR :: "string list" where
  "PROTECTED_ETC_FLOOR = [''passwd'', ''group'', ''hostname'', ''ld.so.preload'', ''ld.so.cache'', ''ld.so.conf'',
     ''ld.so.conf.d'']"

section \<open>Resource limits\<close>

text \<open>\<open>str::split_whitespace\<close>\<close>

fun take_word :: "string \<Rightarrow> string \<times> string" where
  "take_word [] = ([], [])"
| "take_word (c # s) =
     (if strip_white (c # s) \<noteq> None then ([], c # s) else (let (w, r) = take_word s in (c # w, r)))"

lemma take_word_length: "length (snd (take_word s)) \<le> length s"
  by (induction s) (auto split: prod.splits)

lemma strip_white_trim_start: "strip_white (trim_start s) = None"
  by (induction s rule: trim_start.induct) (subst trim_start.simps, auto split: option.splits)

lemma length_trim_start: "length (trim_start s) \<le> length s"
proof (induction s rule: trim_start.induct)
  case (1 s)
  then show ?case by (subst trim_start.simps) (fastforce split: option.splits dest: strip_white_shorter)
qed

function split_whitespace :: "string \<Rightarrow> string list" where
  "split_whitespace s =
     (let t = trim_start s in if t = [] then [] else fst (take_word t) # split_whitespace (snd (take_word t)))"
  by pat_completeness auto

termination
proof (relation "measure length", goal_cases)
  case (2 s t)
  then obtain c r where t: "trim_start s = c # r" by (cases "trim_start s") auto
  then have "take_word t = (let (w, q) = take_word r in (c # w, q))"
    using strip_white_trim_start [of s] 2 by simp
  then have "length (snd (take_word t)) \<le> length r" using take_word_length [of r] by (simp split: prod.splits)
  then show ?case using t length_trim_start [of s] 2 by simp
qed simp

definition RLIM_INFINITY :: nat where "RLIM_INFINITY = 2 ^ 64 - 1"

definition parse_u64 :: "string \<Rightarrow> nat option" where
  "parse_u64 s =
     (case s of
        [] \<Rightarrow> None
      | c # cs \<Rightarrow> if c = CHR ''+'' then (if cs = [] then None else parse_dec (2 ^ 64 - 1) 0 cs)
                  else parse_dec (2 ^ 64 - 1) 0 s)"

definition parse_ulimit_value :: "string \<Rightarrow> string \<Rightarrow> SpawnPlanError + nat \<times> nat" where
  "parse_ulimit_value name val =
     (let bad = InvalidPolicy (''ulimit `'' @ name @ ''` has a malformed value `'' @ val @ ''`'');
          token = (\<lambda>t. if t = ''unlimited'' then Inr RLIM_INFINITY else ok_or (parse_u64 t) bad)
      in case split_whitespace val of
           [] \<Rightarrow> Inl bad
         | [s] \<Rightarrow> and_then (token s) (\<lambda>soft. Inr (soft, soft))
         | s # h # rest \<Rightarrow> and_then (token s) (\<lambda>soft. and_then (token h) (\<lambda>hard.
             if rest \<noteq> [] then Inl bad else Inr (soft, hard))))"

text \<open>A \<open>BTreeMap\<close> is iterated in the order of its keys.\<close>

definition btree_entries :: "(string \<rightharpoonup> 'v) \<Rightarrow> (string \<times> 'v) list" where
  "btree_entries m = map (\<lambda>k. (k, the (m k))) (sorted_list_of_set (dom m))"

fun resolve_limits :: "(string \<times> string) list \<Rightarrow> SpawnPlanError + (Resource \<times> nat \<times> nat) list" where
  "resolve_limits [] = Inr []"
| "resolve_limits ((name, val) # limits) =
     and_then (ok_or (resource_by_name name) (InvalidPolicy (''unknown ulimit resource `'' @ name @ ''`''))) (\<lambda>resource.
     and_then (parse_ulimit_value name val) (\<lambda>(soft, hard).
     and_then (resolve_limits limits) (\<lambda>rest. Inr ((resource, soft, hard) # rest))))"

definition resolve_ulimits :: "SettledPolicy \<Rightarrow> SpawnPlanError + (Resource \<times> nat \<times> nat) list" where
  "resolve_ulimits policy = resolve_limits (btree_entries (sp_ulimits policy))"

section \<open>Paths and access\<close>

definition single_port_tcp_grants :: "NetRule list \<Rightarrow> AccessNet \<Rightarrow> (u16 \<times> AccessNet) list" where
  "single_port_tcp_grants rules access =
     map (\<lambda>r. (nr_port_min r, access))
       (filter (\<lambda>r. (nr_protocol r = ProtoTcp \<or> nr_protocol r = ProtoAny) \<and> nr_port_min r = nr_port_max r) rules)"

definition read_access :: "bool \<Rightarrow> AccessFs" where
  "read_access executable =
     (let rights = FS_READ_FILE OR FS_READ_DIR in if executable then rights OR FS_EXECUTE else rights)"

definition plan_glob_root :: "string \<Rightarrow> string" where
  "plan_glob_root entry =
     (case or_else (strip_suffix ''/**'' entry) (strip_suffix ''/*'' entry) of Some t \<Rightarrow> t | None \<Rightarrow> entry)"

definition is_exec_wildcard :: "string \<Rightarrow> bool" where
  "is_exec_wildcard entry \<longleftrightarrow> trim entry = ''**'' \<or> trim entry = ''/**''"

definition dev_access :: AccessFs where
  "dev_access = FS_READ_FILE OR FS_WRITE_FILE OR FS_IOCTL_DEV"

definition write_access :: AccessFs where
  "write_access = FS_READ_FILE OR FS_READ_DIR OR FS_WRITE_FILE OR FS_MAKE_REG OR FS_MAKE_DIR OR FS_MAKE_SYM
     OR FS_MAKE_SOCK OR FS_MAKE_FIFO OR FS_REFER OR FS_REMOVE_FILE OR FS_REMOVE_DIR OR FS_TRUNCATE"

definition remap_target :: "string \<Rightarrow> string \<Rightarrow> string \<Rightarrow> string" where
  "remap_target path home shim_root =
     (case path_strip_prefix path home of None \<Rightarrow> path | Some rel \<Rightarrow> path_join shim_root rel)"

definition is_special_mount :: "string \<Rightarrow> bool" where
  "is_special_mount path \<longleftrightarrow> path_starts_with path ''/etc'' \<or> path_starts_with path ''/proc''"

definition is_overlayable_etc_path :: "string \<Rightarrow> bool" where
  "is_overlayable_etc_path path \<longleftrightarrow>
     (if \<not> path_starts_with path ''/etc'' \<or> path_eq path ''/etc'' then False
      else if ParentDir \<in> set (components path) then False
      else if CHR ''*'' \<in> set path then False
      else case drop 2 (components path) of
        Normal first # _ \<Rightarrow> first \<notin> set PROTECTED_ETC_FLOOR
      | _ \<Rightarrow> False)"

definition is_safe_dev_path :: "string \<Rightarrow> bool" where
  "is_safe_dev_path path \<longleftrightarrow>
     path_starts_with path ''/dev'' \<and> \<not> path_eq path ''/dev'' \<and> ParentDir \<notin> set (components path)"

section \<open>The filesystem grants\<close>

text \<open>One entry per glob-stripped source, in the order first seen; write wins.\<close>

fun add_grant :: "string \<Rightarrow> bool \<Rightarrow> (string \<times> bool) list \<Rightarrow> (string \<times> bool) list" where
  "add_grant source writable [] = [(source, writable)]"
| "add_grant source writable ((s, w) # grants) =
     (if path_eq s source then (s, w \<or> writable) # grants else (s, w) # add_grant source writable grants)"

definition grant_step :: "(string \<times> bool) list \<Rightarrow> string \<times> bool \<Rightarrow> (string \<times> bool) list" where
  "grant_step grants pw = add_grant (plan_glob_root (fst pw)) (snd pw) grants"

definition fs_grants :: "FsPolicy \<Rightarrow> (string \<times> bool) list" where
  "fs_grants fs =
     sort_key (\<lambda>(s, w). length s)
       (foldl grant_step [] (map (\<lambda>p. (p, False)) (fs_read fs) @ map (\<lambda>p. (p, True)) (fs_write fs)))"

text \<open>The redirects as a map from granted path to source; a later entry replaces an earlier one.\<close>

definition redirect_of :: "FsPolicy \<Rightarrow> string \<Rightarrow> string option" where
  "redirect_of fs path =
     map_of (map (\<lambda>r. (components (plan_glob_root (rd_path r)), plan_glob_root (rd_source r))) (rev (fs_redirect fs)))
       (components path)"

definition plan_grant_rule :: "string \<Rightarrow> string \<Rightarrow> bool \<Rightarrow> string \<times> bool \<Rightarrow> string \<times> AccessFs" where
  "plan_grant_rule home shim_root permissive_exec g =
     (remap_target (fst g) home shim_root, if snd g then write_access else read_access permissive_exec)"

definition grant_bind :: "FsPolicy \<Rightarrow> string \<Rightarrow> string \<Rightarrow> string \<times> bool \<Rightarrow> BindMount option" where
  "grant_bind fs home shim_root g =
     (if is_special_mount (fst g) then None
      else let exclusive = (snd g \<and> list_ex (\<lambda>p. path_eq (plan_glob_root p) (fst g)) (fs_exclusive fs));
               (source, redirected) = (case redirect_of fs (fst g) of None \<Rightarrow> (fst g, False) | Some src \<Rightarrow> (src, True))
           in Some \<lparr>bm_source = source, bm_target = remap_target (fst g) home shim_root, bm_writable = snd g,
                bm_exclusive = exclusive, bm_redirected = redirected\<rparr>)"

definition exec_access :: AccessFs where
  "exec_access = FS_EXECUTE OR FS_READ_FILE"

fun exec_rules :: "EffectivePolicy \<Rightarrow> string \<Rightarrow> string \<Rightarrow> string list \<Rightarrow> SpawnPlanError + (string \<times> AccessFs) list" where
  "exec_rules ep home shim_root [] = Inr []"
| "exec_rules ep home shim_root (entry # entries) =
     (let root = plan_glob_root entry in
      if ex_deny_writable (ep_exec ep) \<and> list_ex (\<lambda>w. path_starts_with root w) (fs_write (ep_fs ep))
      then Inl (InvalidPolicy (''exec.allow `'' @ entry @ ''` lies under a writable path, but deny_writable is set''))
      else and_then (exec_rules ep home shim_root entries) (\<lambda>rest.
        Inr ((remap_target root home shim_root, exec_access) # rest)))"

fun dev_paths :: "string list \<Rightarrow> SpawnPlanError + string list" where
  "dev_paths [] = Inr []"
| "dev_paths (d # ds) =
     (let path = plan_glob_root d in
      if \<not> is_safe_dev_path path
      then Inl (InvalidPolicy (''fs.dev.allow entry must be a device under /dev, got `'' @ d @ ''`''))
      else and_then (dev_paths ds) (\<lambda>rest. Inr (path # rest)))"

definition etc_overlays :: "FsPolicy \<Rightarrow> EtcOverlay list" where
  "etc_overlays fs =
     map (\<lambda>p. \<lparr>eo_source = (case redirect_of fs p of Some s \<Rightarrow> s | None \<Rightarrow> p), eo_view_path = p\<rparr>)
       (filter is_overlayable_etc_path (fs_read fs))"

definition image_root :: "RootfsRuntime \<Rightarrow> ImageRoot option" where
  "image_root rf =
     (if rf_path rf = [] then None
      else Some \<lparr>im_image = rf_path rf, im_persistence = Persistence_from_settled (rf_persistence rf),
        im_store_upper = None, im_readonly = map plan_glob_root (rf_readonly rf),
        im_writable = map plan_glob_root (rf_writable rf)\<rparr>)"

section \<open>The plan of a policy\<close>

definition plan_namespaces :: "SettledPolicy \<Rightarrow> Namespaces" where
  "plan_namespaces policy =
     (let ns = NS_USER OR NS_MOUNT OR NS_PID OR NS_IPC;
          ns = (if net_mode (ep_net (sp_effective_policy policy)) \<noteq> PolicyHost then ns OR NS_NET else ns)
      in if id_hostname (sp_identity policy) \<noteq> None then ns OR NS_UTS else ns)"

definition home_of :: "SettledPolicy \<Rightarrow> string" where
  "home_of policy = ''/home/'' @ id_user (sp_identity policy)"

text \<open>The rules that follow those of the grants, the allowlist and the devices.\<close>

definition fixed_rules :: "SettledPolicy \<Rightarrow> (string \<times> AccessFs) list" where
  "fixed_rules policy =
     (let fs = ep_fs (sp_effective_policy policy) in
      (if fs_home_readonly fs then [] else [(home_of policy, write_access)])
      @ (if tmp_writable (fs_tmp fs) then [(''/tmp'', write_access), (''/dev/shm'', write_access)] else [])
      @ [(''/'', if rf_path (sp_rootfs policy) = [] then FS_READ_DIR else write_access OR FS_EXECUTE)]
      @ [(''/dev/binderfs/binder'', dev_access), (''/dev/binderfs'', FS_READ_DIR),
         (''/dev/binderfs/features'', FS_READ_DIR OR FS_READ_FILE)])"

definition seccomp_action :: "SeccompAction \<Rightarrow> Action" where
  "seccomp_action a = (case a of Errno \<Rightarrow> ActionErrno EPERM | KillThread \<Rightarrow> ActionKillThread | KillProcess \<Rightarrow> ActionKillProcess)"

definition permissive_exec :: "SettledPolicy \<Rightarrow> bool" where
  "permissive_exec policy \<longleftrightarrow> list_ex is_exec_wildcard (ex_allow (ep_exec (sp_effective_policy policy)))"

text \<open>The execution gate: the allowlist and the loaders, nothing under the wildcard.\<close>

definition exec_gate :: "SettledPolicy \<Rightarrow> string \<Rightarrow> SpawnPlanError + (string \<times> AccessFs) list" where
  "exec_gate policy home =
     (let ep = sp_effective_policy policy; shim_root = home_of policy in
      if permissive_exec policy then Inr []
      else and_then (exec_rules ep home shim_root (ex_allow (ep_exec ep))) (\<lambda>rules.
        Inr (rules @ map (\<lambda>l. (remap_target l home shim_root, exec_access)) (ex_loaders (ep_exec ep)))))"

definition plan_binds :: "SettledPolicy \<Rightarrow> string \<Rightarrow> BindMount list" where
  "plan_binds policy home =
     (let fs = ep_fs (sp_effective_policy policy) in
      List.map_filter (grant_bind fs home (home_of policy)) (fs_grants fs))"

definition mask_files :: "SettledPolicy \<Rightarrow> string \<Rightarrow> string \<Rightarrow> string list" where
  "mask_files policy home name =
     (if trust_manifest (ep_trust (sp_effective_policy policy))
      then map (\<lambda>b. path_join (bm_target b) name) (filter bm_writable (plan_binds policy home)) else [])"

definition plan_view :: "SettledPolicy \<Rightarrow> string \<Rightarrow> string list \<Rightarrow> ShimView" where
  "plan_view policy home devs =
     (let ep = sp_effective_policy policy in
      \<lparr>sv_shim_root = home_of policy, sv_binds = plan_binds policy home, sv_dev_allow = devs,
       sv_tmp_size_mib = tmp_size_mib (fs_tmp (ep_fs ep)), sv_proc_hidepid = proc_hidepid (ep_proc ep),
       sv_binder = True, sv_mask_paths = mask_files policy home ''.trust-manifest.json'',
       sv_mask_dir_paths = mask_files policy home ''.trust-manifest.d'' @ [HOST_LIBEXEC_DIR],
       sv_image = image_root (sp_rootfs policy), sv_etc_overlays = etc_overlays (ep_fs ep)\<rparr>)"

definition plan_landlock_net :: "NetPolicy \<Rightarrow> (u16 \<times> AccessNet) list" where
  "plan_landlock_net net =
     (if net_mode net = PolicyHost then single_port_tcp_grants (net_bpf_connect_allow net) NET_CONNECT_TCP else [])
     @ single_port_tcp_grants (net_bpf_bind_allow net) NET_BIND_TCP"

definition Plan_from_policy :: "(string \<Rightarrow> int) \<Rightarrow> SettledPolicy \<Rightarrow> u16 \<Rightarrow> string \<Rightarrow> string \<Rightarrow> SpawnPlanError + Plan" where
  "Plan_from_policy libc policy ctx namespace home =
     (let ep = sp_effective_policy policy;
          rules = map (plan_grant_rule home (home_of policy) (permissive_exec policy)) (fs_grants (ep_fs ep))
      in and_then (exec_gate policy home) (\<lambda>exec.
         and_then (dev_paths (dev_allow (fs_dev (ep_fs ep)))) (\<lambda>devs.
         and_then (resolve_ulimits policy) (\<lambda>ulimits.
         and_then (BpfAcls_from_policy (ep_net ep)) (\<lambda>acls.
         Inr \<lparr>pl_namespaces = plan_namespaces policy,
           pl_cgroup = ''/sys/fs/cgroup/'' @ namespace @ ''/'' @ show_dec (unat ctx),
           pl_cgroup_join = True, pl_view = Some (plan_view policy home devs), pl_new_root = None,
           pl_landlock_fs = rules @ exec @ map (\<lambda>d. (d, dev_access)) devs @ fixed_rules policy,
           pl_landlock_net = plan_landlock_net (ep_net ep),
           pl_seccomp_deny = List.map_filter (syscall_number libc) (sec_deny (ep_seccomp ep)),
           pl_seccomp_deny_action = seccomp_action (sec_deny_action (ep_seccomp ep)),
           pl_bpf_allow_v4 = ba_allow_v4 acls, pl_bpf_deny_v4 = ba_deny_v4 acls,
           pl_bpf_allow_v6 = ba_allow_v6 acls, pl_bpf_deny_v6 = ba_deny_v6 acls,
           pl_bpf_bind_allow_v4 = ba_bind_allow_v4 acls, pl_bpf_bind_deny_v4 = ba_bind_deny_v4 acls,
           pl_bpf_bind_allow_v6 = ba_bind_allow_v6 acls, pl_bpf_bind_deny_v6 = ba_bind_deny_v6 acls,
           pl_bpf_meta = stamp_bind_port_min (meta_bytes ctx) (net_bind_port_min (ep_net ep)),
           pl_bind_allowed_ports = net_bind_allowed_ports (ep_net ep),
           pl_file_binds = [], pl_supplementary_groups = None, pl_ulimits = ulimits,
           pl_interactive_return_fd = None, pl_workload_fd = None, pl_stdio_fds = None, pl_aux = [],
           pl_ttl_seconds = lc_ttl_seconds (ep_lifecycle ep), pl_ttl_action = lc_ttl_action (ep_lifecycle ep),
           pl_hostname = id_hostname (sp_identity policy)\<rparr>)))))"

definition redirected_source_within :: "Plan \<Rightarrow> string \<Rightarrow> string option" where
  "redirected_source_within plan dir =
     Option.bind (pl_view plan) (\<lambda>view.
       find (\<lambda>src. path_starts_with src dir \<or> path_starts_with dir src)
         (map bm_source (filter bm_redirected (sv_binds view))))"

definition grant_cwd :: "Plan \<Rightarrow> string \<Rightarrow> bool \<Rightarrow> Plan" where
  "grant_cwd plan host_dir writable =
     plan\<lparr>pl_landlock_fs := pl_landlock_fs plan @ [(host_dir, if writable then write_access else read_access False)],
       pl_view := map_option (\<lambda>view. view\<lparr>sv_binds := sv_binds view @
         [\<lparr>bm_source = host_dir, bm_target = host_dir, bm_writable = writable, bm_exclusive = False,
           bm_redirected = False\<rparr>]\<rparr>) (pl_view plan)\<rparr>"

definition stamp_proxy :: "Plan \<Rightarrow> ProxyEndpoint \<Rightarrow> Plan" where
  "stamp_proxy plan endpoint =
     (let own_loopback = allow_entry 0 0xffff ProtoAny KENNEL_ALLOW_FLAG_PROXY;
          any_port = allow_entry 0 0xffff ProtoAny 0;
          own4 = (case px_v4 endpoint of None \<Rightarrow> [] | Some v4 \<Rightarrow> [(lpm_v4_key (v4_octets v4) HOST_PREFIX_V4, own_loopback)]);
          bind4 = (case px_v4 endpoint of None \<Rightarrow> [] | Some v4 \<Rightarrow> [(lpm_v4_key (v4_octets v4) LOOPBACK_PREFIX_V4, any_port)])
      in plan\<lparr>pl_bpf_meta := stamp_proxy_meta (pl_bpf_meta plan) endpoint,
           pl_bpf_allow_v4 := pl_bpf_allow_v4 plan @ own4,
           pl_bpf_allow_v6 := pl_bpf_allow_v6 plan @ [(lpm_v6_key (v6_octets (px_v6 endpoint)) HOST_PREFIX_V6, own_loopback)],
           pl_landlock_net :=
             (if list_ex (\<lambda>(p, _). p = px_port endpoint) (pl_landlock_net plan) then pl_landlock_net plan
              else pl_landlock_net plan @ [(px_port endpoint, NET_CONNECT_TCP)]),
           pl_bpf_bind_allow_v4 := pl_bpf_bind_allow_v4 plan @ bind4,
           pl_bpf_bind_allow_v6 := pl_bpf_bind_allow_v6 plan
             @ [(lpm_v6_key (v6_octets (px_v6 endpoint)) LOOPBACK_PREFIX_V6, any_port)]\<rparr>)"

section \<open>What a plan grants\<close>

lemma Plan_from_policyD:
  assumes "Plan_from_policy libc policy ctx namespace home = Inr plan"
  obtains exec devs acls where
    "exec_gate policy home = Inr exec"
    "dev_paths (dev_allow (fs_dev (ep_fs (sp_effective_policy policy)))) = Inr devs"
    "BpfAcls_from_policy (ep_net (sp_effective_policy policy)) = Inr acls"
    "pl_landlock_fs plan =
       map (plan_grant_rule home (home_of policy) (permissive_exec policy)) (fs_grants (ep_fs (sp_effective_policy policy)))
       @ exec @ map (\<lambda>d. (d, dev_access)) devs @ fixed_rules policy"
    "pl_view plan = Some (plan_view policy home devs)"
    "pl_namespaces plan = plan_namespaces policy"
    "\<lparr>ba_allow_v4 = pl_bpf_allow_v4 plan, ba_allow_v6 = pl_bpf_allow_v6 plan, ba_deny_v4 = pl_bpf_deny_v4 plan,
      ba_deny_v6 = pl_bpf_deny_v6 plan, ba_bind_allow_v4 = pl_bpf_bind_allow_v4 plan,
      ba_bind_allow_v6 = pl_bpf_bind_allow_v6 plan, ba_bind_deny_v4 = pl_bpf_bind_deny_v4 plan,
      ba_bind_deny_v6 = pl_bpf_bind_deny_v6 plan\<rparr> = acls"
    "pl_bpf_meta plan = stamp_bind_port_min (meta_bytes ctx) (net_bind_port_min (ep_net (sp_effective_policy policy)))"
    "pl_bind_allowed_ports plan = net_bind_allowed_ports (ep_net (sp_effective_policy policy))"
    "pl_landlock_net plan = plan_landlock_net (ep_net (sp_effective_policy policy))"
proof -
  from assms obtain exec devs ulimits acls where
    "exec_gate policy home = Inr exec"
    "dev_paths (dev_allow (fs_dev (ep_fs (sp_effective_policy policy)))) = Inr devs"
    "resolve_ulimits policy = Inr ulimits" "BpfAcls_from_policy (ep_net (sp_effective_policy policy)) = Inr acls"
    unfolding Plan_from_policy_def Let_def and_then_Inr_iff by blast
  then show thesis using assms by (intro that [of exec devs acls]) (auto simp: Plan_from_policy_def Let_def)
qed

section \<open>Rights\<close>

lemma access_bits [simp]:
  "write_access AND FS_EXECUTE = 0" "dev_access AND FS_EXECUTE = 0" "read_access False AND FS_EXECUTE = 0"
  "FS_READ_DIR AND FS_EXECUTE = 0" "(FS_READ_DIR OR FS_READ_FILE) AND FS_EXECUTE = 0"
  "exec_access AND FS_WRITE_FILE = 0" "read_access b AND FS_WRITE_FILE = 0" "FS_READ_DIR AND FS_WRITE_FILE = 0"
  "(FS_READ_DIR OR FS_READ_FILE) AND FS_WRITE_FILE = 0"
  unfolding write_access_def dev_access_def read_access_def exec_access_def access_fs_defs Let_def
  by (cases b; simp)+

section \<open>The collapsed grants\<close>

definition grant_map :: "(string \<times> bool) list \<Rightarrow> component list \<rightharpoonup> bool" where
  "grant_map gs = map_of (map (\<lambda>(s, w). (components s, w)) gs)"

lemma grant_map_add:
  "grant_map (add_grant src w gs) = (grant_map gs)(components src \<mapsto> grant_map gs (components src) = Some True \<or> w)"
  by (induction src w gs rule: add_grant.induct) (auto simp: grant_map_def path_eq_def fun_eq_iff)

lemma grant_keys_add:
  "set (map (components \<circ> fst) (add_grant src w gs)) = insert (components src) (set (map (components \<circ> fst) gs))"
  by (induction src w gs rule: add_grant.induct) (auto simp: path_eq_def)

lemma distinct_add_grant:
  "distinct (map (components \<circ> fst) gs) \<Longrightarrow> distinct (map (components \<circ> fst) (add_grant src w gs))"
proof (induction src w gs rule: add_grant.induct)
  case (2 source writable s w grants)
  have "components s \<notin> set (map (components \<circ> fst) (add_grant source writable grants))" if "\<not> path_eq s source"
    using 2 that grant_keys_add [of source writable grants] by (auto simp: path_eq_def)
  then show ?case using 2 by (cases "path_eq s source") simp_all
qed simp

lemma grants_fold:
  "distinct (map (components \<circ> fst) (foldl grant_step [] ps))
   \<and> grant_map (foldl grant_step [] ps) =
     (\<lambda>c. if \<exists>pw \<in> set ps. components (plan_glob_root (fst pw)) = c
          then Some (\<exists>pw \<in> set ps. components (plan_glob_root (fst pw)) = c \<and> snd pw) else None)"
proof (induction ps rule: rev_induct)
  case Nil
  then show ?case by (simp add: grant_map_def)
next
  case (snoc pw ps)
  then have d: "distinct (map (components \<circ> fst) (foldl grant_step [] (ps @ [pw])))"
    using distinct_add_grant [OF snoc [THEN conjunct1]] by (simp add: grant_step_def [of _ pw])
  show ?case
    unfolding foldl_append foldl.simps grant_step_def [of _ pw] grant_map_add snoc [THEN conjunct2]
    using d by (auto simp: fun_eq_iff o_def grant_step_def [of _ pw])
qed

text \<open>A grant is writable exactly when a write entry names its path.\<close>

lemma fs_grants_iff:
  assumes "(s, w) \<in> set (fs_grants fs)"
  shows "w \<longleftrightarrow> (\<exists>p \<in> set (fs_write fs). path_eq (plan_glob_root p) s)"
    and "\<exists>p \<in> set (fs_read fs) \<union> set (fs_write fs). path_eq (plan_glob_root p) s"
proof -
  let ?ps = "map (\<lambda>p. (p, False)) (fs_read fs) @ map (\<lambda>p. (p, True)) (fs_write fs)"
  let ?gs = "foldl grant_step [] ?ps"
  have m: "(s, w) \<in> set ?gs" using assms by (simp add: fs_grants_def)
  have "distinct (map fst (map (\<lambda>(s, w). (components s, w)) ?gs))"
    using grants_fold [of ?ps] by (simp add: o_def case_prod_beta')
  moreover have "(components s, w) \<in> set (map (\<lambda>(s, w). (components s, w)) ?gs)"
    using m by force
  ultimately have "grant_map ?gs (components s) = Some w"
    unfolding grant_map_def by (rule map_of_is_SomeI)
  then have "(\<exists>pw \<in> set ?ps. components (plan_glob_root (fst pw)) = components s)
      \<and> w = (\<exists>pw \<in> set ?ps. components (plan_glob_root (fst pw)) = components s \<and> snd pw)"
    using grants_fold [of ?ps, THEN conjunct2] by (simp split: if_splits)
  moreover have "(\<exists>pw \<in> set ?ps. P pw) \<longleftrightarrow> (\<exists>p \<in> set (fs_read fs). P (p, False)) \<or> (\<exists>p \<in> set (fs_write fs). P (p, True))" for P
    by auto
  ultimately show "w \<longleftrightarrow> (\<exists>p \<in> set (fs_write fs). path_eq (plan_glob_root p) s)"
    "\<exists>p \<in> set (fs_read fs) \<union> set (fs_write fs). path_eq (plan_glob_root p) s"
    by (auto simp: path_eq_def)
qed

text \<open>Every entry has its grant.\<close>

lemma fs_grants_complete:
  assumes "p \<in> set (fs_read fs) \<union> set (fs_write fs)"
  shows "\<exists>(s, w) \<in> set (fs_grants fs). path_eq (plan_glob_root p) s"
proof -
  let ?ps = "map (\<lambda>p. (p, False)) (fs_read fs) @ map (\<lambda>p. (p, True)) (fs_write fs)"
  let ?gs = "foldl grant_step [] ?ps"
  have "\<exists>pw \<in> set ?ps. components (plan_glob_root (fst pw)) = components (plan_glob_root p)"
    using assms by (auto intro: rev_bexI)
  then obtain w where "grant_map ?gs (components (plan_glob_root p)) = Some w"
    using grants_fold [of ?ps, THEN conjunct2] by simp
  then show ?thesis unfolding fs_grants_def grant_map_def
    by (force simp: path_eq_def dest!: map_of_SomeD)
qed

section \<open>The execution gate and the devices\<close>

lemma exec_rules_mem:
  "exec_rules ep home root es = Inr rules \<Longrightarrow> (path, acc) \<in> set rules \<Longrightarrow>
   \<exists>e \<in> set es. path = remap_target (plan_glob_root e) home root
     \<and> (ex_deny_writable (ep_exec ep) \<longrightarrow> list_all (\<lambda>w. \<not> path_starts_with (plan_glob_root e) w) (fs_write (ep_fs ep)))"
proof (induction es arbitrary: rules)
  case (Cons e es)
  then show ?case
    by (auto simp: Let_def and_then_Inr_iff list_ex_iff list_all_iff split: if_splits)
qed simp

lemma dev_paths_mem: "dev_paths ds = Inr devs \<Longrightarrow> d \<in> set devs \<Longrightarrow> is_safe_dev_path d \<and> d \<in> plan_glob_root ` set ds"
proof (induction ds arbitrary: devs)
  case (Cons e es)
  then show ?case by (auto simp: Let_def and_then_Inr_iff split: if_splits)
qed simp

lemma fixed_rules_execute:
  "(path, acc) \<in> set (fixed_rules policy) \<Longrightarrow> rf_path (sp_rootfs policy) = [] \<Longrightarrow> acc AND FS_EXECUTE = 0"
  by (auto simp: fixed_rules_def Let_def split: if_splits)

lemma fixed_rules_write:
  "(path, acc) \<in> set (fixed_rules policy) \<Longrightarrow> rf_path (sp_rootfs policy) = [] \<Longrightarrow> acc AND FS_WRITE_FILE \<noteq> 0 \<Longrightarrow>
   \<not> fs_home_readonly (ep_fs (sp_effective_policy policy)) \<and> path = home_of policy
   \<or> tmp_writable (fs_tmp (ep_fs (sp_effective_policy policy))) \<and> path \<in> {''/tmp'', ''/dev/shm''}
   \<or> path = ''/dev/binderfs/binder''"
  by (cases "fs_home_readonly (ep_fs (sp_effective_policy policy))"; cases "tmp_writable (fs_tmp (ep_fs (sp_effective_policy policy)))";
    simp add: fixed_rules_def Let_def; elim disjE conjE; simp)

section \<open>An example plan\<close>

text \<open>A policy that grants a work tree for writing, with a glob as templates write it, and a tool inside it
  for execution.\<close>

definition plan_demo :: SettledPolicy where
  "plan_demo = floor_policy\<lparr>sp_ulimits := Map.empty,
     sp_effective_policy := (sp_effective_policy floor_policy)
       \<lparr>ep_fs := (ep_fs (sp_effective_policy floor_policy))
          \<lparr>fs_read := [''/etc/fonts''], fs_write := [''/work/**'']\<rparr>,
        ep_exec := (ep_exec (sp_effective_policy floor_policy))
          \<lparr>ex_allow := [''/work/bin/tool''], ex_loaders := [''/lib/ld.so'']\<rparr>\<rparr>\<rparr>"

definition demo_home :: string where "demo_home = ''/home/u''"

definition demo_plan :: Plan where
  "demo_plan = projr (Plan_from_policy (\<lambda>_. 0) plan_demo 7 ''kennel-1000'' demo_home)"

lemma parse_metadata_rule: "parse_ip ''169.254.169.254'' = Some (V4 0xa9fea9fe)"
  by (rule parse_ip_metadata)

lemma components_eval:
  "components ''/etc'' = [RootDir, Normal ''etc'']" "components ''/proc'' = [RootDir, Normal ''proc'']"
  "components ''/dev'' = [RootDir, Normal ''dev'']"
  "components ''/etc/fonts'' = [RootDir, Normal ''etc'', Normal ''fonts'']"
  "components ''/work'' = [RootDir, Normal ''work'']"
  "components ''/work/**'' = [RootDir, Normal ''work'', Normal ''**'']"
  "components ''/work/bin/tool'' = [RootDir, Normal ''work'', Normal ''bin'', Normal ''tool'']"
  "components ''/lib/ld.so'' = [RootDir, Normal ''lib'', Normal ''ld.so'']"
  "components ''/home/u'' = [RootDir, Normal ''home'', Normal ''u'']"
  by (simp_all add: components_def body_components.simps component_of_def)

lemma set_trim: "set (trim s) \<subseteq> set s"
proof -
  have "strip_white t = Some r \<Longrightarrow> set r \<subseteq> set t" for t r
    by (auto dest: strip_white_Some)
  then have "set (trim_start t) \<subseteq> set t" for t
    by (induction t rule: trim_start.induct) (subst trim_start.simps, fastforce split: option.splits)
  moreover have "strip_white_end t = Some r \<Longrightarrow> set r \<subseteq> set t" for t r
    by (auto simp: strip_white_end_def split: list.splits dest!: map_filter_head)
  then have "set (trim_end t) \<subseteq> set t" for t
    by (induction t rule: trim_end.induct) (subst trim_end.simps, fastforce split: option.splits)
  ultimately show ?thesis unfolding trim_def by blast
qed

lemma no_star_no_wildcard: "CHR ''*'' \<notin> set e \<Longrightarrow> \<not> is_exec_wildcard e"
  using set_trim [of e] by (auto simp: is_exec_wildcard_def)

lemma plan_demo_not_permissive: "\<not> permissive_exec plan_demo"
  by (simp add: permissive_exec_def plan_demo_def no_star_no_wildcard)

lemma plan_demo_exec:
  "exec_gate plan_demo demo_home = Inr [(''/work/bin/tool'', exec_access), (''/lib/ld.so'', exec_access)]"
  using plan_demo_not_permissive
  by (simp add: exec_gate_def Let_def) (simp add: plan_demo_def floor_policy_def plan_glob_root_def strip_suffix_def
    path_starts_with_def components_eval remap_target_def path_strip_prefix_def demo_home_def)

lemma plan_demo_grants: "fs_grants (ep_fs (sp_effective_policy plan_demo)) = [(''/work'', True), (''/etc/fonts'', False)]"
  by (simp add: fs_grants_def grant_step_def plan_demo_def plan_glob_root_def strip_suffix_def path_eq_def components_eval)

lemma demo_plan_ok: "Plan_from_policy (\<lambda>_. 0) plan_demo 7 ''kennel-1000'' demo_home = Inr demo_plan"
proof -
  have "dev_paths (dev_allow (fs_dev (ep_fs (sp_effective_policy plan_demo)))) = Inr []"
    by (simp add: plan_demo_def floor_policy_def)
  moreover have "resolve_ulimits plan_demo = Inr []"
    by (simp add: resolve_ulimits_def btree_entries_def plan_demo_def)
  moreover have "\<exists>acls. BpfAcls_from_policy (ep_net (sp_effective_policy plan_demo)) = Inr acls"
    by (simp add: BpfAcls_from_policy_def plan_demo_def floor_policy_def floor_net_def connect_allow_rules_def
      connect_deny_rules_def parse_metadata_rule)
  ultimately show ?thesis using plan_demo_exec unfolding demo_plan_def Plan_from_policy_def Let_def by auto
qed

lemma demo_plan_rules:
  "pl_landlock_fs demo_plan = [(''/work'', write_access), (''/etc/fonts'', read_access False),
     (''/work/bin/tool'', exec_access), (''/lib/ld.so'', exec_access)] @ fixed_rules plan_demo"
proof -
  have "dev_paths (dev_allow (fs_dev (ep_fs (sp_effective_policy plan_demo)))) = Inr []"
    by (simp add: plan_demo_def floor_policy_def)
  moreover from Plan_from_policyD [OF demo_plan_ok] obtain exec devs where
    "exec_gate plan_demo demo_home = Inr exec"
    "dev_paths (dev_allow (fs_dev (ep_fs (sp_effective_policy plan_demo)))) = Inr devs"
    "pl_landlock_fs demo_plan = map (plan_grant_rule demo_home (home_of plan_demo) (permissive_exec plan_demo))
      (fs_grants (ep_fs (sp_effective_policy plan_demo))) @ exec @ map (\<lambda>d. (d, dev_access)) devs @ fixed_rules plan_demo"
    by metis
  ultimately show ?thesis
    using plan_demo_exec by (simp add: plan_demo_grants plan_demo_not_permissive plan_grant_rule_def remap_target_def
      path_strip_prefix_def path_starts_with_def components_eval demo_home_def)
qed

lemma demo_plan_view: "pl_view demo_plan = Some (plan_view plan_demo demo_home [])"
proof -
  have "dev_paths (dev_allow (fs_dev (ep_fs (sp_effective_policy plan_demo)))) = Inr []"
    by (simp add: plan_demo_def floor_policy_def)
  then show ?thesis using Plan_from_policyD [OF demo_plan_ok] by (metis sum.inject(2))
qed

lemma demo_plan_image: "rf_path (sp_rootfs plan_demo) = []"
  by (simp add: plan_demo_def floor_policy_def)

section \<open>Properties\<close>

text \<open>C16. Execution is denied by default. In a plan for a policy without the execution wildcard and without an image
  root, a Landlock rule carries the execute right only for an entry of the allowlist or one of the
  resolved loaders; being readable or writable makes nothing executable. With \<open>deny_writable\<close>, no such
  entry lies below a path that \<open>fs.write\<close> names literally.\<close>

theorem exec_gate_sound:
  assumes "Plan_from_policy libc policy ctx namespace home = Inr plan" "\<not> permissive_exec policy"
    "rf_path (sp_rootfs policy) = []" "(path, acc) \<in> set (pl_landlock_fs plan)" "acc AND FS_EXECUTE \<noteq> 0"
  shows "(\<exists>e \<in> set (ex_allow (ep_exec (sp_effective_policy policy))).
       path = remap_target (plan_glob_root e) home (home_of policy)
       \<and> (ex_deny_writable (ep_exec (sp_effective_policy policy)) \<longrightarrow>
          (\<forall>w \<in> set (fs_write (ep_fs (sp_effective_policy policy))). \<not> path_starts_with (plan_glob_root e) w)))
    \<or> (\<exists>l \<in> set (ex_loaders (ep_exec (sp_effective_policy policy))). path = remap_target l home (home_of policy))"
proof -
  from Plan_from_policyD [OF assms(1)] obtain exec devs where
    exec: "exec_gate policy home = Inr exec"
    and rules: "pl_landlock_fs plan = map (plan_grant_rule home (home_of policy) (permissive_exec policy))
        (fs_grants (ep_fs (sp_effective_policy policy))) @ exec @ map (\<lambda>d. (d, dev_access)) devs @ fixed_rules policy"
    by metis
  have "(path, acc) \<in> set exec"
    using assms(2-5) fixed_rules_execute [of path acc policy]
    by (auto simp: rules plan_grant_rule_def split: if_splits)
  then show ?thesis using exec assms(2) exec_rules_mem
    by (fastforce simp: exec_gate_def Let_def and_then_Inr_iff list_all_iff)
qed

theorem exec_gate_sound_witness:
  "(''/work/bin/tool'', exec_access) \<in> set (pl_landlock_fs demo_plan)
   \<and> ((\<exists>e \<in> set (ex_allow (ep_exec (sp_effective_policy plan_demo))).
         ''/work/bin/tool'' = remap_target (plan_glob_root e) demo_home (home_of plan_demo))
      \<or> (\<exists>l \<in> set (ex_loaders (ep_exec (sp_effective_policy plan_demo))).
         ''/work/bin/tool'' = remap_target l demo_home (home_of plan_demo)))"
proof -
  have "(''/work/bin/tool'', exec_access) \<in> set (pl_landlock_fs demo_plan)" by (simp add: demo_plan_rules)
  moreover have "exec_access AND FS_EXECUTE \<noteq> 0" by (simp add: exec_access_def FS_EXECUTE_def FS_READ_FILE_def)
  ultimately show ?thesis
    using exec_gate_sound [OF demo_plan_ok plan_demo_not_permissive demo_plan_image] by blast
qed

text \<open>C17. Writing is denied by default. In a plan without an image root, a Landlock rule carries the write right only
  for a path that an entry of \<open>fs.write\<close> names (globs stripped, moved below the kennel's home), an
  allowlisted device below \<open>/dev\<close>, the kennel's own home unless it is read-only, the private scratch
  directories when they are granted, and the binder device.\<close>

theorem write_gate_sound:
  assumes "Plan_from_policy libc policy ctx namespace home = Inr plan" "rf_path (sp_rootfs policy) = []"
    "(path, acc) \<in> set (pl_landlock_fs plan)" "acc AND FS_WRITE_FILE \<noteq> 0"
  shows "(\<exists>w \<in> set (fs_write (ep_fs (sp_effective_policy policy))). \<exists>s.
        path_eq (plan_glob_root w) s \<and> path = remap_target s home (home_of policy))
    \<or> is_safe_dev_path path \<and> path \<in> plan_glob_root ` set (dev_allow (fs_dev (ep_fs (sp_effective_policy policy))))
    \<or> \<not> fs_home_readonly (ep_fs (sp_effective_policy policy)) \<and> path = home_of policy
    \<or> tmp_writable (fs_tmp (ep_fs (sp_effective_policy policy))) \<and> path \<in> {''/tmp'', ''/dev/shm''}
    \<or> path = ''/dev/binderfs/binder''"
proof -
  from Plan_from_policyD [OF assms(1)] obtain exec devs where
    exec: "exec_gate policy home = Inr exec"
    and devs: "dev_paths (dev_allow (fs_dev (ep_fs (sp_effective_policy policy)))) = Inr devs"
    and rules: "pl_landlock_fs plan = map (plan_grant_rule home (home_of policy) (permissive_exec policy))
        (fs_grants (ep_fs (sp_effective_policy policy))) @ exec @ map (\<lambda>d. (d, dev_access)) devs @ fixed_rules policy"
    by metis
  have no_exec: "(path, acc) \<notin> set exec"
  proof
    have "exec_rules ep h r es = Inr rs \<Longrightarrow> e \<in> set rs \<Longrightarrow> snd e = exec_access" for ep h r es rs e
      by (induction es arbitrary: rs) (auto simp: Let_def and_then_Inr_iff split: if_splits)
    moreover assume "(path, acc) \<in> set exec"
    ultimately have "acc = exec_access"
      using exec by (fastforce simp: exec_gate_def Let_def and_then_Inr_iff split: if_splits)
    then show False using assms(4) by simp
  qed
  from assms(3) consider g where "g \<in> set (fs_grants (ep_fs (sp_effective_policy policy)))"
      "(path, acc) = plan_grant_rule home (home_of policy) (permissive_exec policy) g"
    | "path \<in> set devs" | "(path, acc) \<in> set (fixed_rules policy)"
    using no_exec by (auto simp: rules)
  then show ?thesis
  proof cases
    case 1
    then have "snd g" "path = remap_target (fst g) home (home_of policy)"
      using assms(4) by (auto simp: plan_grant_rule_def split: if_splits)
    moreover have "(fst g, snd g) \<in> set (fs_grants (ep_fs (sp_effective_policy policy)))" using 1(1) by simp
    ultimately show ?thesis using fs_grants_iff(1) by blast
  next
    case 2
    then show ?thesis using dev_paths_mem [OF devs] by blast
  next
    case 3
    then show ?thesis using fixed_rules_write assms(2,4) by blast
  qed
qed

theorem write_gate_sound_witness:
  "(''/work'', write_access) \<in> set (pl_landlock_fs demo_plan)
   \<and> (\<exists>w \<in> set (fs_write (ep_fs (sp_effective_policy plan_demo))). \<exists>s.
        path_eq (plan_glob_root w) s \<and> ''/work'' = remap_target s demo_home (home_of plan_demo))"
proof -
  have "(''/work'', write_access) \<in> set (pl_landlock_fs demo_plan)" by (simp add: demo_plan_rules)
  moreover have "write_access AND FS_WRITE_FILE \<noteq> 0" by (simp add: write_access_def access_fs_defs)
  moreover have "home_of plan_demo \<noteq> ''/work''" by (simp add: home_of_def)
  ultimately show ?thesis
    using write_gate_sound [OF demo_plan_ok demo_plan_image, of "''/work''" write_access]
    by (auto simp: is_safe_dev_path_def path_starts_with_def components_eval)
qed

text \<open>The check of \<open>deny_writable\<close> compares the allowlist with the entries of \<open>fs.write\<close> as written, while the write
  rule is placed on the entry with its glob removed. A write grant with a glob therefore passes the
  check, and the plan makes the tree writable and a file inside it executable, although the policy
  sets \<open>deny_writable\<close>.\<close>

lemma glob_write_defeats_deny_writable:
  "ex_deny_writable (ep_exec (sp_effective_policy plan_demo))
   \<and> Plan_from_policy (\<lambda>_. 0) plan_demo 7 ''kennel-1000'' demo_home = Inr demo_plan
   \<and> (''/work'', write_access) \<in> set (pl_landlock_fs demo_plan)
   \<and> (''/work/bin/tool'', exec_access) \<in> set (pl_landlock_fs demo_plan)
   \<and> path_starts_with ''/work/bin/tool'' ''/work''"
  by (simp add: demo_plan_ok demo_plan_rules)
    (simp add: plan_demo_def floor_policy_def path_starts_with_def components_eval)

text \<open>C27. The synthetic \<open>/etc\<close> floor holds: every overlay of a plan lands strictly below \<open>/etc\<close>, on a path without
  parent components whose first component is none of the protected entries, and names a path the
  policy grants for reading.\<close>

theorem etc_floor_kept:
  assumes "Plan_from_policy libc policy ctx namespace home = Inr plan" "pl_view plan = Some view"
    "ov \<in> set (sv_etc_overlays view)"
  shows "eo_view_path ov \<in> set (fs_read (ep_fs (sp_effective_policy policy)))
    \<and> (\<exists>c rest. components (eo_view_path ov) = RootDir # Normal ''etc'' # Normal c # rest
        \<and> c \<notin> set PROTECTED_ETC_FLOOR \<and> ParentDir \<notin> set rest)"
proof -
  from Plan_from_policyD [OF assms(1)] have "sv_etc_overlays view = etc_overlays (ep_fs (sp_effective_policy policy))"
    using assms(2) by (metis (no_types, lifting) ShimView.select_convs(10) option.sel plan_view_def)
  then have m: "eo_view_path ov \<in> set (fs_read (ep_fs (sp_effective_policy policy)))"
    "is_overlayable_etc_path (eo_view_path ov)"
    using assms(3) by (auto simp: etc_overlays_def)
  have "components ''/etc'' = [RootDir, Normal ''etc'']"
    by (simp add: components_def body_components.simps component_of_def)
  then obtain cs where cs: "components (eo_view_path ov) = RootDir # Normal ''etc'' # cs"
    using m(2) by (auto simp: is_overlayable_etc_path_def path_starts_with_def prefix_def split: if_splits)
  then show ?thesis using m
    by (auto simp: is_overlayable_etc_path_def split: if_splits list.splits component.splits)
qed

theorem etc_floor_kept_witness:
  "\<exists>c rest. components ''/etc/fonts'' = RootDir # Normal ''etc'' # Normal c # rest
     \<and> c \<notin> set PROTECTED_ETC_FLOOR \<and> ParentDir \<notin> set rest"
proof -
  have "\<lparr>eo_source = ''/etc/fonts'', eo_view_path = ''/etc/fonts''\<rparr> \<in> set (sv_etc_overlays (plan_view plan_demo demo_home []))"
    by (simp add: plan_view_def Let_def etc_overlays_def plan_demo_def floor_policy_def is_overlayable_etc_path_def
      path_starts_with_def path_eq_def components_eval PROTECTED_ETC_FLOOR_def redirect_of_def)
  from etc_floor_kept [OF demo_plan_ok demo_plan_view this] show ?thesis by simp
qed

lemma is_special_mount_cong: "path_eq a b \<Longrightarrow> is_special_mount a = is_special_mount b"
  by (simp add: is_special_mount_def path_starts_with_def path_eq_def)

text \<open>Every write grant outside the special mounts is bound into the view, writable, at its place below the
  kennel's home.\<close>

lemma write_grant_bound:
  assumes "w \<in> set (fs_write (ep_fs (sp_effective_policy policy)))" "\<not> is_special_mount (plan_glob_root w)"
  obtains b s where "b \<in> set (plan_binds policy home)" "bm_writable b" "path_eq (plan_glob_root w) s"
    "bm_target b = remap_target s home (home_of policy)"
proof -
  let ?fs = "ep_fs (sp_effective_policy policy)"
  from fs_grants_complete [of w ?fs] assms(1) obtain s x where g: "(s, x) \<in> set (fs_grants ?fs)"
    and eq: "path_eq (plan_glob_root w) s" by auto
  from fs_grants_iff(1) [OF g] assms(1) eq have x by blast
  moreover have "\<not> is_special_mount s" using assms(2) is_special_mount_cong [OF eq] by simp
  ultimately obtain b where b: "grant_bind ?fs home (home_of policy) (s, x) = Some b"
    "bm_writable b" "bm_target b = remap_target s home (home_of policy)"
    by (simp add: grant_bind_def Let_def case_prod_beta)
  have "b \<in> set (plan_binds policy home)"
    unfolding plan_binds_def Let_def map_filter_def using g b(1) by (force simp: image_iff)
  with that b eq show thesis by blast
qed

lemma writable_bind_granted:
  assumes "b \<in> set (plan_binds policy home)" "bm_writable b"
  shows "\<exists>w \<in> set (fs_write (ep_fs (sp_effective_policy policy))). \<exists>s.
    path_eq (plan_glob_root w) s \<and> bm_target b = remap_target s home (home_of policy)"
proof -
  from assms(1) obtain s x where g: "(s, x) \<in> set (fs_grants (ep_fs (sp_effective_policy policy)))"
    "grant_bind (ep_fs (sp_effective_policy policy)) home (home_of policy) (s, x) = Some b"
    by (auto simp: plan_binds_def Let_def map_filter_def)
  then have "x" "bm_target b = remap_target s home (home_of policy)"
    using assms(2) by (auto simp: grant_bind_def Let_def case_prod_beta split: if_splits)
  with fs_grants_iff(1) [OF g(1)] show ?thesis by blast
qed

text \<open>C28. The trust manifest and the host's helpers are out of reach of the workload. Every plan has a view, and
  every view masks the host's helper directory. With \<open>trust.manifest\<close>, each entry of \<open>fs.write\<close> outside
  the special mounts is bound writable at its place in the view and the manifest file and the manifest
  store at the root of that bind are masked; the same holds of every writable bind, and every writable
  bind comes from an entry of \<open>fs.write\<close>.\<close>

theorem writable_roots_masked:
  assumes "Plan_from_policy libc policy ctx namespace home = Inr plan"
  shows "\<exists>view. pl_view plan = Some view \<and> HOST_LIBEXEC_DIR \<in> set (sv_mask_dir_paths view)
    \<and> (\<forall>b \<in> set (sv_binds view). bm_writable b \<longrightarrow>
         (\<exists>w \<in> set (fs_write (ep_fs (sp_effective_policy policy))). \<exists>s.
            path_eq (plan_glob_root w) s \<and> bm_target b = remap_target s home (home_of policy))
         \<and> (trust_manifest (ep_trust (sp_effective_policy policy)) \<longrightarrow>
              path_join (bm_target b) ''.trust-manifest.json'' \<in> set (sv_mask_paths view)
              \<and> path_join (bm_target b) ''.trust-manifest.d'' \<in> set (sv_mask_dir_paths view)))
    \<and> (\<forall>w \<in> set (fs_write (ep_fs (sp_effective_policy policy))). \<not> is_special_mount (plan_glob_root w) \<longrightarrow>
         (\<exists>b \<in> set (sv_binds view). bm_writable b \<and> (\<exists>s.
            path_eq (plan_glob_root w) s \<and> bm_target b = remap_target s home (home_of policy))))"
proof -
  from Plan_from_policyD [OF assms] obtain devs where v: "pl_view plan = Some (plan_view policy home devs)"
    by metis
  let ?v = "plan_view policy home devs"
  have libexec: "HOST_LIBEXEC_DIR \<in> set (sv_mask_dir_paths ?v)" by (simp add: plan_view_def Let_def)
  have binds: "sv_binds ?v = plan_binds policy home" by (simp add: plan_view_def Let_def)
  have masked: "path_join (bm_target b) ''.trust-manifest.json'' \<in> set (sv_mask_paths ?v)
      \<and> path_join (bm_target b) ''.trust-manifest.d'' \<in> set (sv_mask_dir_paths ?v)"
    if "b \<in> set (plan_binds policy home)" "bm_writable b" "trust_manifest (ep_trust (sp_effective_policy policy))" for b
    using that by (simp add: plan_view_def mask_files_def Let_def)
  show ?thesis
    by (rule exI [of _ ?v]) (use v libexec binds writable_bind_granted masked in \<open>auto elim!: write_grant_bound [of _ policy home]\<close>)
qed

theorem writable_roots_masked_witness:
  "''/work/.trust-manifest.json'' \<in> set (sv_mask_paths (plan_view plan_demo demo_home []))
   \<and> HOST_LIBEXEC_DIR \<in> set (sv_mask_dir_paths (plan_view plan_demo demo_home []))"
proof -
  let ?b = "\<lparr>bm_source = ''/work'', bm_target = ''/work'', bm_writable = True, bm_exclusive = False, bm_redirected = False\<rparr>"
  have "?b \<in> set (sv_binds (plan_view plan_demo demo_home []))"
    by (simp add: plan_view_def Let_def plan_binds_def plan_demo_grants map_filter_simps grant_bind_def is_special_mount_def
      path_starts_with_def components_eval redirect_of_def remap_target_def path_strip_prefix_def demo_home_def)
      (simp add: plan_demo_def floor_policy_def)
  moreover have "trust_manifest (ep_trust (sp_effective_policy plan_demo))"
    by (simp add: plan_demo_def floor_policy_def TrustPolicy_default_def)
  moreover from writable_roots_masked [OF demo_plan_ok] demo_plan_view
  have "bm_writable b \<Longrightarrow> trust_manifest (ep_trust (sp_effective_policy plan_demo)) \<Longrightarrow>
      path_join (bm_target b) ''.trust-manifest.json'' \<in> set (sv_mask_paths (plan_view plan_demo demo_home []))"
    "HOST_LIBEXEC_DIR \<in> set (sv_mask_dir_paths (plan_view plan_demo demo_home []))"
    if "b \<in> set (sv_binds (plan_view plan_demo demo_home []))" for b using that by auto
  ultimately show ?thesis by (force simp: path_join_def starts_with_def)
qed

text \<open>A read grant that reaches \<open>/etc\<close> through a parent component is not recognised as special: it becomes
  an ordinary bind of the host's file at that path, outside the overlay check.\<close>

lemma parent_component_escapes_floor:
  "\<not> is_special_mount ''/usr/../etc/passwd'' \<and> \<not> is_overlayable_etc_path ''/usr/../etc/passwd''
   \<and> grant_bind (ep_fs (sp_effective_policy floor_policy)) demo_home (home_of floor_policy) (''/usr/../etc/passwd'', False)
     = Some \<lparr>bm_source = ''/usr/../etc/passwd'', bm_target = ''/usr/../etc/passwd'', bm_writable = False,
         bm_exclusive = False, bm_redirected = False\<rparr>"
proof -
  have "components ''/usr/../etc/passwd'' = [RootDir, Normal ''usr'', ParentDir, Normal ''etc'', Normal ''passwd'']"
    by (simp add: components_def body_components.simps component_of_def)
  then show ?thesis
    by (simp add: is_special_mount_def is_overlayable_etc_path_def path_starts_with_def components_eval grant_bind_def
      redirect_of_def remap_target_def path_strip_prefix_def demo_home_def floor_policy_def)
qed

end
