(* ===== verification/Host_Gate.thy ===== *)
theory Host_Gate
  imports Spawn_Plan
begin

text \<open>
  The host-mode gate end to end: the daemon stamps the proxy into the plan and encodes the map contents
  (\<open>bring_up\<close> in \<open>kenneld/src/lib.rs\<close>), the helper decodes them, checks that the caller owns the
  cgroup, fills the maps and attaches the programs (\<open>privhelper-bpf.rs\<close>), and the kernel runs the
  programs on every connect, send and bind. The outcome of the system calls is an argument of the
  helper's definition.
\<close>

section \<open>Bring-up\<close>

definition daemon_endpoint :: "u16 \<Rightarrow> ProxyEndpoint" where
  "daemon_endpoint port = \<lparr>px_v4 = Some 0x7f000001, px_v6 = 1, px_port = port\<rparr>"

definition stamp_plan :: "NetPolicy \<Rightarrow> bool \<Rightarrow> Plan \<Rightarrow> Plan" where
  "stamp_plan net proxy plan =
     (let no_network = (net_mode net = PolicyNone) in
      if proxy \<and> \<not> no_network then stamp_proxy plan (daemon_endpoint (pl_port (net_proxy net))) else plan)"

definition egress_payload :: "Plan \<Rightarrow> string \<Rightarrow> EgressPayload" where
  "egress_payload plan ident =
     \<lparr>eg_meta = pl_bpf_meta plan, eg_allow_v4 = pl_bpf_allow_v4 plan, eg_deny_v4 = pl_bpf_deny_v4 plan,
      eg_allow_v6 = pl_bpf_allow_v6 plan, eg_deny_v6 = pl_bpf_deny_v6 plan,
      eg_bind_allow_v4 = pl_bpf_bind_allow_v4 plan, eg_bind_deny_v4 = pl_bpf_bind_deny_v4 plan,
      eg_bind_allow_v6 = pl_bpf_bind_allow_v6 plan, eg_bind_deny_v6 = pl_bpf_bind_deny_v6 plan,
      eg_bind_allowed_ports = pl_bind_allowed_ports plan, eg_pin_id = ident\<rparr>"

definition egress_bytes :: "NetPolicy \<Rightarrow> bool \<Rightarrow> Plan \<Rightarrow> string \<Rightarrow> bytes" where
  "egress_bytes net proxy plan ident =
     (if net_mode net = PolicyHost then encode_payload (egress_payload (stamp_plan net proxy plan) ident) else [])"

section \<open>The helper\<close>

definition KENNEL_PROGRAMS :: "string list" where
  "KENNEL_PROGRAMS = [''connect4'', ''connect6'', ''bind4'', ''bind6'', ''sendmsg4'', ''sendmsg6'', ''sock_create'',
     ''setsockopt'']"

definition ENOSYS :: "32 word" where "ENOSYS = 38"
definition REFUSAL_CGROUP_NOT_OWNED :: u8 where "REFUSAL_CGROUP_NOT_OWNED = 101"

text \<open>What the system answers: opening the directory and reading its owner, creating the maps, the
  refusals of updates, freezing the metadata, and for each program whether it is embedded, loads and
  attaches.\<close>

record bpf_env =
  be_open :: "32 word + u32"
  be_real_uid :: u32
  be_create :: "32 word option"
  be_accepts :: trie_accepts
  be_update_errno :: "32 word"
  be_freeze :: "32 word option"
  be_embedded :: "string \<Rightarrow> bool"
  be_load :: "string \<Rightarrow> 32 word option"

fun attach_programs :: "bpf_env \<Rightarrow> string list \<Rightarrow> string list \<Rightarrow> PrivResponse \<times> string list" where
  "attach_programs env attached [] = (response_ok, attached)"
| "attach_programs env attached (prog # progs) =
     (if \<not> be_embedded env prog then (response_internal ENOSYS, attached)
      else case be_load env prog of
        Some errno \<Rightarrow> (response_internal errno, attached)
      | None \<Rightarrow> attach_programs env (attached @ [prog]) progs)"

text \<open>The response, the programs attached, and the contents of the maps they read.\<close>

definition attach_egress_programs :: "bpf_env \<Rightarrow> EgressPayload \<Rightarrow> PrivResponse \<times> string list \<times> kernel_maps" where
  "attach_egress_programs env payload =
     (case be_open env of
        Inl errno \<Rightarrow> (response_internal errno, [], create_maps)
      | Inr owner \<Rightarrow>
          if owner \<noteq> be_real_uid env then (response_refused REFUSAL_CGROUP_NOT_OWNED, [], create_maps)
          else case be_create env of
            Some errno \<Rightarrow> (response_internal errno, [], create_maps)
          | None \<Rightarrow>
              case populate_maps (be_accepts env) create_maps payload of
                None \<Rightarrow> (response_internal (be_update_errno env), [], create_maps)
              | Some maps \<Rightarrow>
                  case be_freeze env of
                    Some errno \<Rightarrow> (response_internal errno, [], maps)
                  | None \<Rightarrow>
                      (let (resp, attached) = attach_programs env [] KENNEL_PROGRAMS in (resp, attached, maps)))"

text \<open>The sub-helper's exit status; \<open>None\<close> when nothing was attached because the payload is malformed.\<close>

definition bpf_helper_main :: "bpf_env \<Rightarrow> bytes \<Rightarrow> nat \<times> string list \<times> kernel_maps" where
  "bpf_helper_main env buf =
     (case decode_payload buf of
        Inl e \<Rightarrow> (2, [], create_maps)
      | Inr payload \<Rightarrow>
          (let (resp, attached, maps) = attach_egress_programs env payload in
           ((case ps_status resp of StatusOk \<Rightarrow> 0 | StatusRefused \<Rightarrow> 1 | StatusProtocol \<Rightarrow> 2 | StatusInternal \<Rightarrow> 3),
            attached, maps)))"

definition valid_pin_id :: "string \<Rightarrow> bool" where
  "valid_pin_id ident \<longleftrightarrow>
     (if ident = [] \<or> length ident > 64 then False
      else let low = (\<lambda>c. 97 \<le> (of_char c :: nat) \<and> of_char c \<le> (122 :: nat));
               digit = (\<lambda>c. 48 \<le> (of_char c :: nat) \<and> of_char c \<le> (57 :: nat))
           in (low (hd ident) \<or> digit (hd ident))
              \<and> list_all (\<lambda>c. low c \<or> digit c \<or> c = CHR ''-'') ident)"

section \<open>The kernel\<close>

text \<open>The hook of the address family runs.\<close>

definition connect_verdict :: "trie_lookup \<Rightarrow> bool \<Rightarrow> kernel_maps \<Rightarrow> IpAddr \<Rightarrow> u16 \<Rightarrow> u8 \<Rightarrow> bool" where
  "connect_verdict lookup ring_full maps a port proto =
     (case a of V4 _ \<Rightarrow> fst (kennel_connect4 lookup ring_full maps (ctx_for a port proto))
              | V6 _ \<Rightarrow> fst (kennel_connect6 lookup ring_full maps (ctx_for a port proto)))"

definition sendmsg_verdict :: "trie_lookup \<Rightarrow> bool \<Rightarrow> kernel_maps \<Rightarrow> IpAddr \<Rightarrow> u16 \<Rightarrow> bool" where
  "sendmsg_verdict lookup ring_full maps a port =
     (case a of V4 _ \<Rightarrow> fst (kennel_sendmsg4 lookup ring_full maps (ctx_for a port IPPROTO_UDP))
              | V6 _ \<Rightarrow> fst (kennel_sendmsg6 lookup ring_full maps (ctx_for a port IPPROTO_UDP)))"

text \<open>The verdict of a bind with the address that is bound.\<close>

definition bind_result :: "trie_lookup \<Rightarrow> bool \<Rightarrow> kernel_maps \<Rightarrow> IpAddr \<Rightarrow> u16 \<Rightarrow> u8 \<Rightarrow> bool \<times> IpAddr" where
  "bind_result lookup ring_full maps a port proto =
     (case a of
        V4 _ \<Rightarrow> (let (v, ctx) = kennel_bind4 lookup ring_full maps (ctx_for a port proto)
                 in (fst v, V4 (v4_from (u32_to_le (sa_user_ip4 ctx)))))
      | V6 _ \<Rightarrow> (let (v, ctx) = kennel_bind6 lookup ring_full maps (ctx_for a port proto)
                 in (fst v, V6 (v6_from (kennel_ctx_load_ip6 ctx)))))"

section \<open>The payload of a plan\<close>

lemma encode_shaped:
  assumes "encode_rules rs = Inr (e4, e6)"
  shows "table_shaped 8 e4" "table_shaped 20 e6"
proof -
  have "length (rule_value r) = 8" for r by (simp add: rule_value_def allow_entry_def)
  then have "v4_entry r = Some (k, v) \<Longrightarrow> length k = 8 \<and> length v = 8" "v6_entry r = Some (k, v) \<Longrightarrow> length k = 20 \<and> length v = 8"
    for r k v
    by (auto simp: v4_entry_def v6_entry_def lpm_v4_key_def lpm_v6_key_def split: option.splits IpAddr.splits)
  then show "table_shaped 8 e4" "table_shaped 20 e6"
    using assms by (auto simp: encode_rules_iff list_all_iff set_map_filter table_shaped_def)
qed

lemma payload_tables_shaped: "encode_rules rs = Inr t \<Longrightarrow> table_shaped 8 (fst t) \<and> table_shaped 20 (snd t)"
  using encode_shaped [of rs "fst t" "snd t"] by simp

lemma table_shaped_append [simp]: "table_shaped k (xs @ ys) \<longleftrightarrow> table_shaped k xs \<and> table_shaped k ys"
  by (simp add: table_shaped_def)

lemma length_write_slot [simp]: "length (write_slot m off bs) = length m"
  by (simp add: write_slot_def)

text \<open>The tables of a stamped plan: the encoded rules, then the entries of the own loopback.\<close>

definition own_entries :: "bool \<Rightarrow> u8 \<Rightarrow> u8 \<Rightarrow> u8 \<Rightarrow> lpm_entry list \<times> lpm_entry list" where
  "own_entries stamped p4 p6 flags =
     (if stamped
      then ([(lpm_v4_key (v4_octets 0x7f000001) p4, allow_entry 0 0xffff ProtoAny flags)],
            [(lpm_v6_key (v6_octets 1) p6, allow_entry 0 0xffff ProtoAny flags)])
      else ([], []))"

definition stamped :: "NetPolicy \<Rightarrow> bool \<Rightarrow> bool" where
  "stamped net proxy \<longleftrightarrow> proxy \<and> net_mode net \<noteq> PolicyNone"

definition plan_meta :: "NetPolicy \<Rightarrow> bool \<Rightarrow> u16 \<Rightarrow> bytes" where
  "plan_meta net proxy ctx =
     (let m = stamp_bind_port_min (meta_bytes ctx) (net_bind_port_min net) in
      if stamped net proxy then stamp_proxy_meta m (daemon_endpoint (pl_port (net_proxy net))) else m)"

lemma plan_payload:
  assumes "Plan_from_policy libc policy ctx namespace home = Inr plan"
  defines "net \<equiv> ep_net (sp_effective_policy policy)"
  obtains allows denies ballows bdenies where
    "encode_rules (connect_allow_rules net) = Inr allows" "encode_rules (connect_deny_rules net) = Inr denies"
    "encode_rules (net_bpf_bind_allow net) = Inr ballows" "encode_rules (net_bpf_bind_deny net) = Inr bdenies"
    "egress_payload (stamp_plan net proxy plan) ident =
       \<lparr>eg_meta = plan_meta net proxy ctx,
        eg_allow_v4 = fst allows @ fst (own_entries (stamped net proxy) 32 128 1), eg_deny_v4 = fst denies,
        eg_allow_v6 = snd allows @ snd (own_entries (stamped net proxy) 32 128 1), eg_deny_v6 = snd denies,
        eg_bind_allow_v4 = fst ballows @ fst (own_entries (stamped net proxy) 28 64 0), eg_bind_deny_v4 = fst bdenies,
        eg_bind_allow_v6 = snd ballows @ snd (own_entries (stamped net proxy) 28 64 0), eg_bind_deny_v6 = snd bdenies,
        eg_bind_allowed_ports = net_bind_allowed_ports net, eg_pin_id = ident\<rparr>"
proof -
  from Plan_from_policyD [OF assms(1)] obtain acls where
    acls: "BpfAcls_from_policy net = Inr acls"
    and tables: "\<lparr>ba_allow_v4 = pl_bpf_allow_v4 plan, ba_allow_v6 = pl_bpf_allow_v6 plan, ba_deny_v4 = pl_bpf_deny_v4 plan,
      ba_deny_v6 = pl_bpf_deny_v6 plan, ba_bind_allow_v4 = pl_bpf_bind_allow_v4 plan,
      ba_bind_allow_v6 = pl_bpf_bind_allow_v6 plan, ba_bind_deny_v4 = pl_bpf_bind_deny_v4 plan,
      ba_bind_deny_v6 = pl_bpf_bind_deny_v6 plan\<rparr> = acls"
    and meta: "pl_bpf_meta plan = stamp_bind_port_min (meta_bytes ctx) (net_bind_port_min net)"
    and ports: "pl_bind_allowed_ports plan = net_bind_allowed_ports net"
    unfolding net_def by metis
  from acls obtain allows denies ballows bdenies where
    enc: "encode_rules (connect_allow_rules net) = Inr allows" "encode_rules (connect_deny_rules net) = Inr denies"
    "encode_rules (net_bpf_bind_allow net) = Inr ballows" "encode_rules (net_bpf_bind_deny net) = Inr bdenies"
    unfolding BpfAcls_from_policy_def case_prod_beta and_then_Inr_iff by blast
  have "acls = \<lparr>ba_allow_v4 = fst allows, ba_allow_v6 = snd allows, ba_deny_v4 = fst denies, ba_deny_v6 = snd denies,
      ba_bind_allow_v4 = fst ballows, ba_bind_allow_v6 = snd ballows, ba_bind_deny_v4 = fst bdenies,
      ba_bind_deny_v6 = snd bdenies\<rparr>"
    using acls enc by (simp add: BpfAcls_from_policy_def case_prod_beta)
  then show thesis
    using that [OF enc] tables meta ports
    by (simp add: egress_payload_def stamp_plan_def stamped_def plan_meta_def own_entries_def stamp_proxy_def Let_def
      daemon_endpoint_def HOST_PREFIX_V4_def HOST_PREFIX_V6_def LOOPBACK_PREFIX_V4_def LOOPBACK_PREFIX_V6_def
      KENNEL_ALLOW_FLAG_PROXY_def)
qed

lemma length_plan_meta [simp]: "length (plan_meta net proxy ctx) = META_LEN"
  by (simp add: plan_meta_def stamp_proxy_meta_def stamp_bind_port_min_def meta_bytes_def META_LEN_def Let_def)

lemma own_entries_shaped: "table_shaped 8 (fst (own_entries b p4 p6 f))" "table_shaped 20 (snd (own_entries b p4 p6 f))"
  by (simp_all add: own_entries_def table_shaped_def lpm_v4_key_def lpm_v6_key_def allow_entry_def)

text \<open>The maps the helper fills hold exactly the tables of the plan.\<close>

lemma update_trie_Some: "update_trie accepts name sofar es = Some t \<Longrightarrow> t = sofar @ es"
  by (induction es arbitrary: sofar) (fastforce split: if_splits)+

lemma populate_maps_Some:
  assumes "populate_maps accepts create_maps p = Some maps" "length (eg_meta p) = META_LEN"
  shows "km_meta maps = Some (eg_meta p)" "km_bind_subnet maps = bind_subnet_value (eg_meta p) (eg_bind_allowed_ports p)"
    "km_allow_v4 maps = eg_allow_v4 p" "km_deny_v4 maps = eg_deny_v4 p" "km_allow_v6 maps = eg_allow_v6 p"
    "km_deny_v6 maps = eg_deny_v6 p" "km_bind_allow_v4 maps = eg_bind_allow_v4 p"
    "km_bind_deny_v4 maps = eg_bind_deny_v4 p" "km_bind_allow_v6 maps = eg_bind_allow_v6 p"
    "km_bind_deny_v6 maps = eg_bind_deny_v6 p"
proof -
  have "bind_subnet_value (eg_meta p) (eg_bind_allowed_ports p) \<noteq> None"
    using assms(2) by (simp add: bind_subnet_value_def get_range_def META_LEN_def Let_def)
  then obtain sv where "bind_subnet_value (eg_meta p) (eg_bind_allowed_ports p) = Some sv" by blast
  with assms(1) show "km_meta maps = Some (eg_meta p)"
    "km_bind_subnet maps = bind_subnet_value (eg_meta p) (eg_bind_allowed_ports p)"
    "km_allow_v4 maps = eg_allow_v4 p" "km_deny_v4 maps = eg_deny_v4 p" "km_allow_v6 maps = eg_allow_v6 p"
    "km_deny_v6 maps = eg_deny_v6 p" "km_bind_allow_v4 maps = eg_bind_allow_v4 p"
    "km_bind_deny_v4 maps = eg_bind_deny_v4 p" "km_bind_allow_v6 maps = eg_bind_allow_v6 p"
    "km_bind_deny_v6 maps = eg_bind_deny_v6 p"
    by (auto simp: populate_maps_def create_maps_def Let_def bind_eq_Some_conv split: if_splits dest!: update_trie_Some)
qed

text \<open>The helper succeeded: every program is attached, on a cgroup of the caller, with the plan's tables.\<close>

lemma attach_programs_ok:
  "attach_programs env attached progs = (resp, final) \<Longrightarrow> ps_status resp = StatusOk \<Longrightarrow> final = attached @ progs"
  by (induction env attached progs rule: attach_programs.induct)
    (auto simp: response_internal_def split: if_splits option.splits)

lemma helper_success:
  assumes "bpf_helper_main env buf = (0, attached, maps)"
  obtains payload where "decode_payload buf = Inr payload" "be_open env = Inr (be_real_uid env)"
    "populate_maps (be_accepts env) create_maps payload = Some maps" "attached = KENNEL_PROGRAMS"
proof -
  from assms obtain payload resp where
    dec: "decode_payload buf = Inr payload" and att: "attach_egress_programs env payload = (resp, attached, maps)"
    and ok: "ps_status resp = StatusOk"
    by (auto simp: bpf_helper_main_def split: sum.splits prod.splits PrivStatus.splits)
  from att ok have "be_open env = Inr (be_real_uid env)" "populate_maps (be_accepts env) create_maps payload = Some maps"
    "attach_programs env [] KENNEL_PROGRAMS = (resp, attached)"
    by (auto simp: attach_egress_programs_def response_internal_def response_refused_def
      split: sum.splits if_splits option.splits prod.splits)
  with attach_programs_ok [OF this(3) ok] show thesis using that [OF dec] by simp
qed

section \<open>From verdict to rules\<close>

lemma connect_verdict_decide:
  "km_meta maps = Some m \<Longrightarrow>
   connect_verdict lookup ring_full maps a port proto \<longleftrightarrow>
     lpm_decide lookup (family_table a (km_deny_v4 maps, km_deny_v6 maps)) (family_table a (km_allow_v4 maps, km_allow_v6 maps))
       (addr_key a) proto port"
  by (cases a) (simp_all add: connect_verdict_def kennel_connect4_def kennel_connect6_def kennel_decide_v4_def
    kennel_decide_v6_def Let_def v4_key_def v6_key_def to_of_bytes)

lemma sendmsg_verdict_connect: "sendmsg_verdict lookup ring_full maps a port = connect_verdict lookup ring_full maps a port IPPROTO_UDP"
  by (cases a) (simp_all add: sendmsg_verdict_def connect_verdict_def kennel_sendmsg4_def kennel_sendmsg6_def
    kennel_connect4_def kennel_connect6_def kennel_decide_v4_def kennel_decide_v6_def Let_def split: option.splits)

lemma family_table_parts:
  "family_table a (fst t, snd t) = family_table a t"
  "family_table a (fst t @ fst u, snd t @ snd u) = family_table a t @ family_table a u"
  by (cases a; cases t; cases u; simp)+

text \<open>The tables behind the hooks once the helper has succeeded on the daemon's bytes.\<close>

lemma gate_tables:
  assumes plan: "Plan_from_policy libc policy ctx namespace home = Inr plan"
    and host: "net_mode (ep_net (sp_effective_policy policy)) = PolicyHost"
    and helper: "bpf_helper_main env (egress_bytes (ep_net (sp_effective_policy policy)) proxy plan ident) = (0, attached, maps)"
    and ident: "is_str ident"
  defines "net \<equiv> ep_net (sp_effective_policy policy)"
  obtains allows denies ballows bdenies where
    "encode_rules (net_bpf_connect_allow net) = Inr allows" "encode_rules (connect_deny_rules net) = Inr denies"
    "encode_rules (net_bpf_bind_allow net) = Inr ballows" "encode_rules (net_bpf_bind_deny net) = Inr bdenies"
    "km_meta maps = Some (plan_meta net proxy ctx)"
    "km_bind_subnet maps = bind_subnet_value (plan_meta net proxy ctx) (net_bind_allowed_ports net)"
    "length (net_bind_allowed_ports net) \<le> 8"
    "\<And>a. family_table a (km_deny_v4 maps, km_deny_v6 maps) = family_table a denies"
    "\<And>a. family_table a (km_allow_v4 maps, km_allow_v6 maps)
       = family_table a allows @ family_table a (own_entries (stamped net proxy) 32 128 1)"
    "\<And>a. family_table a (km_bind_deny_v4 maps, km_bind_deny_v6 maps) = family_table a bdenies"
    "\<And>a. family_table a (km_bind_allow_v4 maps, km_bind_allow_v6 maps)
       = family_table a ballows @ family_table a (own_entries (stamped net proxy) 28 64 0)"
proof -
  obtain allows denies ballows bdenies where
    enc: "encode_rules (connect_allow_rules net) = Inr allows" "encode_rules (connect_deny_rules net) = Inr denies"
      "encode_rules (net_bpf_bind_allow net) = Inr ballows" "encode_rules (net_bpf_bind_deny net) = Inr bdenies"
    and payload: "egress_payload (stamp_plan net proxy plan) ident =
       \<lparr>eg_meta = plan_meta net proxy ctx,
        eg_allow_v4 = fst allows @ fst (own_entries (stamped net proxy) 32 128 1), eg_deny_v4 = fst denies,
        eg_allow_v6 = snd allows @ snd (own_entries (stamped net proxy) 32 128 1), eg_deny_v6 = snd denies,
        eg_bind_allow_v4 = fst ballows @ fst (own_entries (stamped net proxy) 28 64 0), eg_bind_deny_v4 = fst bdenies,
        eg_bind_allow_v6 = snd ballows @ snd (own_entries (stamped net proxy) 28 64 0), eg_bind_deny_v6 = snd bdenies,
        eg_bind_allowed_ports = net_bind_allowed_ports net, eg_pin_id = ident\<rparr>" (is "_ = ?p")
    using plan_payload [OF plan, of proxy ident] unfolding net_def by metis
  have "payload_shaped ?p"
    using enc [THEN payload_tables_shaped] ident by (simp add: payload_shaped_def own_entries_shaped)
  moreover have "egress_bytes net proxy plan ident = encode_payload ?p"
    using host [folded net_def] by (simp only: egress_bytes_def payload refl if_True)
  with helper have "bpf_helper_main env (encode_payload ?p) = (0, attached, maps)" by (simp only: net_def [symmetric])
  then obtain payload where
    dec: "decode_payload (encode_payload ?p) = Inr payload" and pop: "populate_maps (be_accepts env) create_maps payload = Some maps"
    by (rule helper_success)
  ultimately have "payload = ?p" "payload_valid ?p"
    using decode_encode_payload [of ?p] by (metis sum.inject(2) sum.distinct(1))+
  then have pop: "populate_maps (be_accepts env) create_maps ?p = Some maps"
    and ports: "length (net_bind_allowed_ports net) \<le> 8"
    using pop by (simp_all add: payload_valid_def WIRE_MAX_BIND_PORTS_def)
  have allow: "connect_allow_rules net = net_bpf_connect_allow net" using host by (simp add: connect_allow_rules_def net_def)
  show thesis
    by (rule that [OF enc [unfolded allow]]) (use populate_maps_Some [OF pop] ports in \<open>simp_all add: family_table_parts\<close>)
qed

section \<open>The bind floor and the port list\<close>

lemma write_slot_other:
  "off + length bs \<le> a \<or> a + n \<le> off \<Longrightarrow> take n (drop a (write_slot m off bs)) = take n (drop a m)"
  by (auto simp: write_slot_def min_def drop_take)

lemma write_slot_same: "off + length bs \<le> length m \<Longrightarrow> take (length bs) (drop off (write_slot m off bs)) = bs"
  by (simp add: write_slot_def)

lemma plan_meta_floor: "me_bind_port_min (load_meta (plan_meta net proxy ctx)) = net_bind_port_min net"
proof -
  have "take 2 (drop 14 (stamp_bind_port_min (meta_bytes ctx) w)) = u16_to_le w" for w
    using write_slot_same [of 14 "u16_to_le w" "meta_bytes ctx"]
    by (simp add: stamp_bind_port_min_def meta_bytes_def Let_def)
  moreover have "take 2 (drop 14 (stamp_proxy_meta m e)) = take 2 (drop 14 m)" for m e
    by (simp add: stamp_proxy_meta_def Let_def write_slot_other split: option.splits)
  ultimately show ?thesis by (simp add: plan_meta_def load_meta_def Let_def u16_of_to_le)
qed

lemma zero_octets: "v4_octets 0 = replicate 4 0" "v6_octets 0 = replicate 16 0"
proof -
  have "be_bytes n 0 = replicate n 0" for n by (induction n) (simp_all flip: replicate_append_same)
  then show "v4_octets 0 = replicate 4 0" "v6_octets 0 = replicate 16 0" by (simp_all add: v4_octets_def v6_octets_def)
qed

lemma stamp_proxy_slots:
  assumes "length m = 64" "px_v4 e = Some v4"
  shows "take 4 (drop 8 (stamp_proxy_meta m e)) = v4_octets v4" "take 16 (drop 16 (stamp_proxy_meta m e)) = v6_octets (px_v6 e)"
proof -
  define m1 where "m1 = write_slot m 8 (v4_octets v4)"
  define m2 where "m2 = write_slot m1 12 (u16_to_be (px_port e))"
  have m: "stamp_proxy_meta m e = write_slot m2 16 (v6_octets (px_v6 e))"
    by (simp add: stamp_proxy_meta_def assms(2) m1_def m2_def Let_def)
  have "take 4 (drop 8 m1) = v4_octets v4" using write_slot_same [of 8 "v4_octets v4" m] assms(1) by (simp add: m1_def)
  then show "take 4 (drop 8 (stamp_proxy_meta m e)) = v4_octets v4" by (simp add: m m2_def write_slot_other)
  show "take 16 (drop 16 (stamp_proxy_meta m e)) = v6_octets (px_v6 e)"
    using write_slot_same [of 16 "v6_octets (px_v6 e)" m2] assms(1) by (simp add: m m1_def m2_def)
qed

lemma plan_meta_own:
  "take 4 (drop 8 (plan_meta net proxy ctx)) = v4_octets (if stamped net proxy then 0x7f000001 else 0)"
  "take 16 (drop 16 (plan_meta net proxy ctx)) = v6_octets (if stamped net proxy then 1 else 0)"
proof -
  let ?m = "stamp_bind_port_min (meta_bytes ctx) (net_bind_port_min net)"
  have len: "length ?m = 64" by (simp add: stamp_bind_port_min_def meta_bytes_def Let_def)
  have zero: "take 4 (drop 8 ?m) = v4_octets 0" "take 16 (drop 16 ?m) = v6_octets 0"
    by (simp_all add: stamp_bind_port_min_def write_slot_other meta_bytes_def Let_def zero_octets)
  show "take 4 (drop 8 (plan_meta net proxy ctx)) = v4_octets (if stamped net proxy then 0x7f000001 else 0)"
    "take 16 (drop 16 (plan_meta net proxy ctx)) = v6_octets (if stamped net proxy then 1 else 0)"
    using stamp_proxy_slots [OF len, where e = "daemon_endpoint (pl_port (net_proxy net))"] zero
    by (simp_all add: plan_meta_def daemon_endpoint_def Let_def)
qed

lemma concat_replicate_zero: "concat (replicate k (u16_to_le 0)) = replicate (2 * k) 0"
  by (induction k) (simp_all add: u16_to_le_def be_bytes_numeral numeral_2_eq_2)

lemma subnet_value:
  assumes "length meta = META_LEN" "length lps \<le> 8"
  obtains sb where "bind_subnet_value meta lps = Some sb"
    "bs_v4_addr (load_bind_subnet sb) = u32_of_le (take 4 (drop 8 meta))"
    "bs_v6_addr (load_bind_subnet sb) = take 16 (drop 16 meta)"
    "bs_n_ports (load_bind_subnet sb) = word_of_nat (length lps)"
    "bs_allowed_ports (load_bind_subnet sb) = lps @ replicate (8 - length lps) 0"
proof -
  define pb where "pb = concat (map u16_to_le lps)"
  define a4 where "a4 = take 4 (drop 8 meta)"
  define a6 where "a6 = take 16 (drop 16 meta)"
  define sb where "sb = a4 @ u32_to_le 28 @ a6 @ [64, word_of_nat (length lps)] @ pb @ replicate (18 - length pb) 0"
  have len: "length pb = 2 * length lps" "length a4 = 4" "length a6 = 16"
    using assms(1) by (simp_all add: pb_def length_concat o_def sum_list_triv a4_def a6_def META_LEN_def)
  have v: "bind_subnet_value meta lps = Some sb"
    using assms by (simp add: bind_subnet_value_def get_range_def META_LEN_def Let_def sb_def pb_def a4_def a6_def)
  have "take 16 (drop 26 sb) = pb @ replicate (2 * (8 - length lps)) 0"
    using len assms(2) by (simp add: sb_def take_replicate min_def diff_mult_distrib2)
  also have "\<dots> = concat (map u16_to_le (lps @ replicate (8 - length lps) 0))"
    by (simp add: pb_def concat_replicate_zero)
  finally have "chunks_exact 2 (take 16 (drop 26 sb)) = map u16_to_le (lps @ replicate (8 - length lps) 0)"
    using chunks_exact_put [of 2 "map u16_to_le (lps @ replicate (8 - length lps) 0)"]
    by (simp add: list_all_iff del: map_append)
  then have "map u16_of_le (chunks_exact 2 (take 16 (drop 26 sb))) = lps @ replicate (8 - length lps) 0"
    by (simp add: o_def u16_of_to_le)
  moreover have "sb ! 25 = word_of_nat (length lps)" "take 4 sb = a4" "take 16 (drop 8 sb) = a6"
    using len by (simp_all add: sb_def nth_append)
  ultimately show thesis using that [OF v] by (simp add: load_bind_subnet_def a4_def a6_def)
qed

lemma port_listed_iff:
  assumes "length lps \<le> 8" "bs_n_ports bs = word_of_nat (length lps)"
    "bs_allowed_ports bs = lps @ replicate (8 - length lps) 0"
  shows "bs_n_ports bs \<noteq> 0 \<and> \<not> port_listed bs p \<longleftrightarrow> lps \<noteq> [] \<and> p \<notin> set lps"
proof -
  have n: "unat (bs_n_ports bs) = length lps"
    using assms(1,2) by (simp add: unat_of_nat_u8)
  have "port_listed bs p \<longleftrightarrow> (\<exists>i < length lps. lps ! i = p)"
    using assms(1) by (auto simp: port_listed_def list_ex_iff n assms(3) nth_append)
  then show ?thesis using n by (auto simp: in_set_conv_nth word_unat_eq_iff)
qed

section \<open>Binding\<close>

text \<open>Where a bind to an unspecified address ends up.\<close>

fun eff_addr :: "Ipv4Addr \<Rightarrow> Ipv6Addr \<Rightarrow> IpAddr \<Rightarrow> IpAddr" where
  "eff_addr own4 own6 (V4 w) = V4 (if w = 0 then own4 else w)"
| "eff_addr own4 own6 (V6 w) = V6 (if w = 0 then own6 else w)"

lemma htons_zero [simp]: "bpf_htons p = 0 \<longleftrightarrow> p = 0"
proof
  assume "bpf_htons p = 0"
  then have "p = bpf_ntohs 0" using ntohs_htons [of p] by simp
  also have "\<dots> = 0" by (simp add: bpf_ntohs_def u16_of_be_def u16_to_le_def be_bytes_numeral be_val_def)
  finally show "p = 0" .
qed (simp add: bpf_htons_def u16_to_be_def u16_of_le_def be_bytes_numeral be_val_def)

lemma octets_zero:
  "u32_of_le (v4_octets x) = 0 \<longleftrightarrow> x = 0" "kennel_is_any6 (v6_octets y) \<longleftrightarrow> y = 0"
proof -
  have "u32_of_le (v4_octets 0) = 0" by (simp add: zero_octets u32_of_le_def be_val_def eval_nat_numeral)
  moreover have "u32_to_le (u32_of_le (v4_octets z)) = v4_octets z" for z by (simp add: to_of_bytes)
  ultimately show "u32_of_le (v4_octets x) = 0 \<longleftrightarrow> x = 0" by (metis from_octets(1))
  have "kennel_is_any6 (v6_octets y) \<longleftrightarrow> v6_octets y = replicate 16 0"
    by (auto simp: kennel_is_any6_def list_all_iff intro!: replicate_eqI)
  also have "replicate 16 0 = v6_octets 0" by (simp only: zero_octets)
  also have "v6_octets y = v6_octets 0 \<longleftrightarrow> y = 0" by (metis from_octets(2))
  finally show "kennel_is_any6 (v6_octets y) \<longleftrightarrow> y = 0" .
qed

lemma load_store_ip6: "kennel_ctx_load_ip6 (kennel_ctx_store_ip6 ctx (v6_octets x)) = v6_octets x"
  using load_ip6_ctx [of x 0 0] by (simp add: kennel_ctx_load_ip6_def kennel_ctx_store_ip6_def ctx_for_def)

lemma bind_result_iff:
  assumes "km_meta maps = Some mb" "km_bind_subnet maps = Some sb" "port \<noteq> 0"
    "bs_v4_addr (load_bind_subnet sb) = u32_of_le (v4_octets own4)" "bs_v6_addr (load_bind_subnet sb) = v6_octets own6"
  shows "bind_result lookup ring_full maps a port proto = (True, b) \<longleftrightarrow>
    me_bind_port_min (load_meta mb) \<le> port
    \<and> \<not> (bs_n_ports (load_bind_subnet sb) \<noteq> 0 \<and> \<not> port_listed (load_bind_subnet sb) port)
    \<and> b = eff_addr own4 own6 a
    \<and> lpm_decide lookup (family_table b (km_bind_deny_v4 maps, km_bind_deny_v6 maps))
        (family_table b (km_bind_allow_v4 maps, km_bind_allow_v6 maps)) (addr_key b) proto port"
proof (cases a)
  case (V4 x)
  then show ?thesis using assms
    by (auto simp: bind_result_def kennel_bind4_def Let_def octets_zero kennel_bind_decide_v4_def v4_key_def to_of_bytes
      not_less)
next
  case (V6 x)
  then show ?thesis using assms
    by (auto simp: bind_result_def kennel_bind6_def Let_def octets_zero kennel_bind_decide_v6_def v6_key_def load_store_ip6
      not_less)
qed

section \<open>The gate as a rule list\<close>

text \<open>The rule that decides: the longest prefix that covers the address, the later of two equal ones. The
  daemon's entries for the own loopback count as rules after the policy's.\<close>

fun best_rule :: "NetRule option \<Rightarrow> NetRule list \<Rightarrow> IpAddr \<Rightarrow> NetRule option" where
  "best_rule best [] a = best"
| "best_rule best (r # rs) a =
     best_rule (if rule_covers r a \<and> (case best of None \<Rightarrow> True | Some b \<Rightarrow> nr_prefix_len b \<le> nr_prefix_len r)
                then Some r else best) rs a"

definition acl_permits :: "NetRule list \<Rightarrow> NetRule list \<Rightarrow> IpAddr \<Rightarrow> u8 \<Rightarrow> u16 \<Rightarrow> bool" where
  "acl_permits allowr denyr a proto port \<longleftrightarrow>
     list_all (\<lambda>r. \<not> rule_covers r a) denyr
     \<and> (case best_rule None allowr a of None \<Rightarrow> False | Some r \<Rightarrow> rule_permits r proto port)"

definition own_rules :: "bool \<Rightarrow> u8 \<Rightarrow> u8 \<Rightarrow> NetRule list" where
  "own_rules own p4 p6 =
     (if own then [\<lparr>nr_cidr = ''127.0.0.1'', nr_prefix_len = p4, nr_port_min = 0, nr_port_max = 0xffff, nr_protocol = ProtoAny\<rparr>,
                   \<lparr>nr_cidr = ''::1'', nr_prefix_len = p6, nr_port_min = 0, nr_port_max = 0xffff, nr_protocol = ProtoAny\<rparr>]
      else [])"

definition entry_for :: "IpAddr \<Rightarrow> lpm_entry \<Rightarrow> NetRule \<Rightarrow> bool" where
  "entry_for a e r \<longleftrightarrow>
     rule_entry a r = Some (fst e, rule_value r)
     \<and> (\<forall>proto port. kennel_entry_permits (load_entry (snd e)) proto port \<longleftrightarrow> rule_permits r proto port)"

lemma entry_for_plen: "entry_for a e r \<Longrightarrow> key_plen (fst e) = unat (nr_prefix_len r)"
  by (cases a; cases e) (auto simp: entry_for_def v4_entry_def v6_entry_def split: option.splits IpAddr.splits)

lemma entry_for_covers: "entry_for a e r \<Longrightarrow> lpm_covers (fst e) (addr_key a) \<longleftrightarrow> rule_covers r a"
  by (auto simp: entry_for_def rule_covers_entry)

lemma best_rel:
  assumes "list_all2 (entry_for a) es rs" "rel_option (entry_for a) be br"
  shows "rel_option (entry_for a) (lpm_best be es (addr_key a)) (best_rule br rs a)"
  using assms
proof (induction arbitrary: be br rule: list_all2_induct)
  case (Cons e es r rs)
  then have "rel_option (entry_for a)
      (if lpm_covers (fst e) (addr_key a) \<and> (case be of None \<Rightarrow> True | Some e' \<Rightarrow> key_plen (fst e') \<le> key_plen (fst e))
       then Some e else be)
      (if rule_covers r a \<and> (case br of None \<Rightarrow> True | Some b \<Rightarrow> nr_prefix_len b \<le> nr_prefix_len r) then Some r else br)"
    by (cases be; cases br) (auto simp: entry_for_plen entry_for_covers word_le_nat_alt)
  from Cons.IH [OF this] show ?case
    by (cases e; cases be) (simp_all only: lpm_best.simps best_rule.simps fst_conv case_prod_beta option.case)
qed simp

lemma best_rule_filter: "best_rule b (filter (\<lambda>r. rule_entry a r \<noteq> None) rs) a = best_rule b rs a"
  by (induction rs arbitrary: b) (auto simp: rule_covers_entry)

lemma encoded_entries:
  assumes "encode_rules rs = Inr t"
  shows "list_all2 (entry_for a) (family_table a t) (filter (\<lambda>r. rule_entry a r \<noteq> None) rs)"
proof -
  have "family_table a t = List.map_filter (rule_entry a) rs"
    using assms by (cases a) (auto simp: encode_rules_iff intro!: arg_cong2 [of _ _ _ _ List.map_filter])
  moreover have "entry_for a e r" if "rule_entry a r = Some e" for e r
    using that rule_entry_value [of a r "fst e" "snd e"] entry_permits_rule [of r 0]
    by (cases e) (simp add: entry_for_def rule_value_def)
  then have "list_all2 (entry_for a) (List.map_filter (rule_entry a) rs) (filter (\<lambda>r. rule_entry a r \<noteq> None) rs)"
    by (induction rs) (simp_all add: map_filter_simps split: option.split)
  ultimately show ?thesis by simp
qed

lemma own_rule_entries:
  "list_all2 (entry_for a) (family_table a (own_entries own p4 p6 f)) (filter (\<lambda>r. rule_entry a r \<noteq> None) (own_rules own p4 p6))"
proof -
  have "parse_ip ''127.0.0.1'' = Some (V4 0x7f000001)" "parse_ip ''::1'' = Some (V6 1)"
    by (simp_all add: parse_ip_eval)
  then show ?thesis
    by (cases a) (auto simp: own_entries_def own_rules_def v4_entry_def v6_entry_def entry_for_def
      kennel_entry_permits_def rule_permits_def)
qed

lemma lpm_law_best:
  assumes "lpm_law lookup"
  shows "lookup es key = map_option snd (lpm_best None es key)"
  using lpm_best_correct [of key es] assms unfolding lpm_law_def by auto

lemma decide_acl:
  assumes "lpm_law lookup" "encode_rules allowr = Inr ta" "encode_rules denyr = Inr td"
  shows "lpm_decide lookup (family_table a td) (family_table a ta @ family_table a (own_entries own p4 p6 f)) (addr_key a) proto port
    \<longleftrightarrow> acl_permits (allowr @ own_rules own p4 p6) denyr a proto port"
proof -
  let ?es = "family_table a ta @ family_table a (own_entries own p4 p6 f)"
  have "list_all2 (entry_for a) ?es (filter (\<lambda>r. rule_entry a r \<noteq> None) (allowr @ own_rules own p4 p6))"
    using list_all2_appendI [OF encoded_entries [OF assms(2)] own_rule_entries] by simp
  from best_rel [OF this option.rel_intros(1)]
  have "rel_option (entry_for a) (lpm_best None ?es (addr_key a)) (best_rule None (allowr @ own_rules own p4 p6) a)"
    by (simp only: best_rule_filter)
  then have "(case lookup ?es (addr_key a) of None \<Rightarrow> False | Some e \<Rightarrow> kennel_entry_permits (load_entry e) proto port)
    \<longleftrightarrow> (case best_rule None (allowr @ own_rules own p4 p6) a of None \<Rightarrow> False | Some r \<Rightarrow> rule_permits r proto port)"
    unfolding lpm_law_best [OF assms(1)] by (auto simp: entry_for_def elim!: option.rel_cases)
  moreover have "lookup (family_table a td) (addr_key a) = None \<longleftrightarrow> list_all (\<lambda>r. \<not> rule_covers r a) denyr"
    using lookup_None_iff [OF assms(1)] encoded_covers_iff [OF assms(3)] by simp
  ultimately show ?thesis by (auto simp: lpm_decide_def acl_permits_def)
qed

text \<open>A best rule is one of the list and covers the address.\<close>

lemma best_rule_mem: "best_rule b rs a = Some r \<Longrightarrow> b = Some r \<or> r \<in> set rs \<and> rule_covers r a"
  by (induction b rs a rule: best_rule.induct) (auto split: if_splits)

lemma best_rule_append: "best_rule b (rs @ rs') a = best_rule (best_rule b rs a) rs' a"
  by (induction b rs a rule: best_rule.induct) simp_all

section \<open>Properties\<close>

lemma gate_connect:
  assumes "lpm_law lookup" "Plan_from_policy libc policy ctx namespace home = Inr plan"
    "net_mode (ep_net (sp_effective_policy policy)) = PolicyHost" "is_str ident"
    "bpf_helper_main env (egress_bytes (ep_net (sp_effective_policy policy)) proxy plan ident) = (0, attached, maps)"
  shows "connect_verdict lookup ring_full maps a port proto \<longleftrightarrow>
    acl_permits (net_bpf_connect_allow (ep_net (sp_effective_policy policy)) @ own_rules proxy 32 128)
      (connect_deny_rules (ep_net (sp_effective_policy policy))) a proto port"
proof -
  have own: "stamped (ep_net (sp_effective_policy policy)) proxy = proxy" using assms(3) by (simp add: stamped_def)
  show ?thesis
    by (rule gate_tables [OF assms(2,3,5,4)]) (simp add: connect_verdict_decide decide_acl [OF assms(1)] own)
qed

lemma gate_bind:
  assumes "lpm_law lookup" "Plan_from_policy libc policy ctx namespace home = Inr plan"
    "net_mode (ep_net (sp_effective_policy policy)) = PolicyHost" "is_str ident"
    "bpf_helper_main env (egress_bytes (ep_net (sp_effective_policy policy)) proxy plan ident) = (0, attached, maps)"
    "port \<noteq> 0"
  defines "net \<equiv> ep_net (sp_effective_policy policy)"
  shows "bind_result lookup ring_full maps a port proto = (True, b) \<longleftrightarrow>
    net_bind_port_min net \<le> port
    \<and> (net_bind_allowed_ports net = [] \<or> port \<in> set (net_bind_allowed_ports net))
    \<and> b = (if proxy then eff_addr 0x7f000001 1 a else a)
    \<and> acl_permits (net_bpf_bind_allow net @ own_rules proxy 28 64) (net_bpf_bind_deny net) b proto port"
proof -
  have own: "stamped net proxy = proxy" using assms(3) by (simp add: stamped_def net_def)
  have eff: "eff_addr 0 0 x = x" for x by (cases x) simp_all
  obtain ballows bdenies where
    enc: "encode_rules (net_bpf_bind_allow net) = Inr ballows" "encode_rules (net_bpf_bind_deny net) = Inr bdenies"
    and meta: "km_meta maps = Some (plan_meta net proxy ctx)"
    and sub: "km_bind_subnet maps = bind_subnet_value (plan_meta net proxy ctx) (net_bind_allowed_ports net)"
    and len: "length (net_bind_allowed_ports net) \<le> 8"
    and tabs: "\<And>a. family_table a (km_bind_deny_v4 maps, km_bind_deny_v6 maps) = family_table a bdenies"
      "\<And>a. family_table a (km_bind_allow_v4 maps, km_bind_allow_v6 maps)
        = family_table a ballows @ family_table a (own_entries (stamped net proxy) 28 64 0)"
    by (rule gate_tables [OF assms(2,3,5,4), folded net_def]) (rule that; assumption)
  obtain sb where sb: "bind_subnet_value (plan_meta net proxy ctx) (net_bind_allowed_ports net) = Some sb"
    "bs_v4_addr (load_bind_subnet sb) = u32_of_le (v4_octets (if proxy then 0x7f000001 else 0))"
    "bs_v6_addr (load_bind_subnet sb) = v6_octets (if proxy then 1 else 0)"
    and ports: "bs_n_ports (load_bind_subnet sb) = word_of_nat (length (net_bind_allowed_ports net))"
    "bs_allowed_ports (load_bind_subnet sb) = net_bind_allowed_ports net @ replicate (8 - length (net_bind_allowed_ports net)) 0"
    by (rule subnet_value [OF length_plan_meta [of net proxy ctx] len, unfolded plan_meta_own own]) (rule that; assumption)
  show ?thesis
    unfolding bind_result_iff [OF meta sub [unfolded sb(1)] assms(6) sb(2,3)] port_listed_iff [OF len ports]
      plan_meta_floor tabs decide_acl [OF assms(1) enc] own
    by (auto simp: eff)
qed

text \<open>A host-mode policy that grants two ports of one address, and a system on which every call succeeds.\<close>

definition rule_of :: "string \<Rightarrow> u16 \<Rightarrow> NetRule" where
  "rule_of cidr port = \<lparr>nr_cidr = cidr, nr_prefix_len = 32, nr_port_min = port, nr_port_max = port, nr_protocol = ProtoTcp\<rparr>"

definition host_demo :: SettledPolicy where
  "host_demo = plan_demo\<lparr>sp_effective_policy := (sp_effective_policy plan_demo)
     \<lparr>ep_net := (floor_net PolicyHost)
        \<lparr>net_bpf_connect_allow := [rule_of ''10.0.0.1'' 443, rule_of ''10.0.0.1'' 8443]\<rparr>\<rparr>\<rparr>"

definition host_env :: bpf_env where
  "host_env = \<lparr>be_open = Inr 1000, be_real_uid = 1000, be_create = None, be_accepts = (\<lambda>_ _ _. True), be_update_errno = 0,
     be_freeze = None, be_embedded = (\<lambda>_. True), be_load = (\<lambda>_. None)\<rparr>"

definition host_plan :: Plan where
  "host_plan = projr (Plan_from_policy (\<lambda>_. 0) host_demo 7 ''kennel-1000'' demo_home)"

definition host_maps :: "bool \<Rightarrow> kernel_maps" where
  "host_maps proxy = snd (snd (bpf_helper_main host_env
     (egress_bytes (ep_net (sp_effective_policy host_demo)) proxy host_plan ''web'')))"

lemma host_net:
  "net_mode (ep_net (sp_effective_policy host_demo)) = PolicyHost"
  "net_bpf_connect_allow (ep_net (sp_effective_policy host_demo)) = [rule_of ''10.0.0.1'' 443, rule_of ''10.0.0.1'' 8443]"
  "net_bind_port_min (ep_net (sp_effective_policy host_demo)) = 0" "net_bind_allowed_ports (ep_net (sp_effective_policy host_demo)) = []"
  "net_bpf_bind_allow (ep_net (sp_effective_policy host_demo)) = []" "net_bpf_bind_deny (ep_net (sp_effective_policy host_demo)) = []"
  "connect_deny_rules (ep_net (sp_effective_policy host_demo)) = net_deny_invariant (floor_net PolicyHost)"
  by (simp_all add: host_demo_def floor_net_def connect_deny_rules_def)

lemma host_parse: "parse_ip ''10.0.0.1'' = Some (V4 0x0a000001)"
  by (simp add: parse_ip_eval)

lemma host_plan_ok: "Plan_from_policy (\<lambda>_. 0) host_demo 7 ''kennel-1000'' demo_home = Inr host_plan"
proof -
  have "dev_paths (dev_allow (fs_dev (ep_fs (sp_effective_policy host_demo)))) = Inr []"
    by (simp add: host_demo_def plan_demo_def floor_policy_def)
  moreover have "resolve_ulimits host_demo = Inr []"
    by (simp add: resolve_ulimits_def btree_entries_def host_demo_def plan_demo_def)
  moreover have "\<exists>acls. BpfAcls_from_policy (ep_net (sp_effective_policy host_demo)) = Inr acls"
    by (simp add: BpfAcls_from_policy_def connect_allow_rules_def host_net)
      (simp add: floor_net_def rule_of_def parse_metadata_rule host_parse)
  moreover have "exec_rules (ep\<lparr>ep_net := n\<rparr>) h r es = exec_rules ep h r es" for ep n h r es
    by (induction es) (simp_all add: Let_def)
  then have "exec_gate host_demo demo_home = exec_gate plan_demo demo_home"
    by (simp add: exec_gate_def permissive_exec_def home_of_def host_demo_def Let_def)
  ultimately show ?thesis using plan_demo_exec unfolding host_plan_def Plan_from_policy_def Let_def by auto
qed

lemma update_trie_accepted: "update_trie (\<lambda>_ _ _. True) name sofar es = Some (sofar @ es)"
  by (induction es arbitrary: sofar) simp_all

lemma attach_programs_accepted:
  "be_embedded env = (\<lambda>_. True) \<Longrightarrow> be_load env = (\<lambda>_. None) \<Longrightarrow> attach_programs env done_so_far progs = (response_ok, done_so_far @ progs)"
  by (induction progs arbitrary: done_so_far) simp_all

lemma encode_rules_length: "encode_rules rs = Inr t \<Longrightarrow> length (fst t) \<le> length rs \<and> length (snd t) \<le> length rs"
proof -
  have "length (List.map_filter f xs) \<le> length xs" for f :: "NetRule \<Rightarrow> lpm_entry option" and xs
    by (induction xs) (auto simp: map_filter_simps split: option.split)
  then show "encode_rules rs = Inr t \<Longrightarrow> length (fst t) \<le> length rs \<and> length (snd t) \<le> length rs"
    by (simp add: encode_rules_iff)
qed

lemma web_str: "is_str ''web''"
  by (simp add: is_str_def as_bytes_def byte_of_char_def)

lemma host_helper:
  "bpf_helper_main host_env (egress_bytes (ep_net (sp_effective_policy host_demo)) proxy host_plan ''web'')
   = (0, KENNEL_PROGRAMS, host_maps proxy)"
proof -
  let ?net = "ep_net (sp_effective_policy host_demo)" and ?p = "egress_payload (stamp_plan (ep_net (sp_effective_policy host_demo)) proxy host_plan) ''web''"
  have own: "length (fst (own_entries b p4 p6 f)) \<le> 1" "length (snd (own_entries b p4 p6 f)) \<le> 1" for b p4 p6 f
    by (simp_all add: own_entries_def)
  have "payload_valid ?p"
  proof (rule plan_payload [OF host_plan_ok, of proxy "''web''"])
    fix allows denies ballows bdenies
    assume enc: "encode_rules (connect_allow_rules ?net) = Inr allows" "encode_rules (connect_deny_rules ?net) = Inr denies"
      "encode_rules (net_bpf_bind_allow ?net) = Inr ballows" "encode_rules (net_bpf_bind_deny ?net) = Inr bdenies"
      and p: "?p = \<lparr>eg_meta = plan_meta ?net proxy 7,
        eg_allow_v4 = fst allows @ fst (own_entries (stamped ?net proxy) 32 128 1), eg_deny_v4 = fst denies,
        eg_allow_v6 = snd allows @ snd (own_entries (stamped ?net proxy) 32 128 1), eg_deny_v6 = snd denies,
        eg_bind_allow_v4 = fst ballows @ fst (own_entries (stamped ?net proxy) 28 64 0), eg_bind_deny_v4 = fst bdenies,
        eg_bind_allow_v6 = snd ballows @ snd (own_entries (stamped ?net proxy) 28 64 0), eg_bind_deny_v6 = snd bdenies,
        eg_bind_allowed_ports = net_bind_allowed_ports ?net, eg_pin_id = ''web''\<rparr>"
    have "length (connect_allow_rules ?net) = 2" "length (connect_deny_rules ?net) = 1"
      by (simp_all add: connect_allow_rules_def host_net floor_net_def)
    then show ?thesis
      using enc [THEN encode_rules_length] own [of "stamped ?net proxy" 32 128 1] own [of "stamped ?net proxy" 28 64 0]
        enc [THEN payload_tables_shaped] web_str
      unfolding p payload_valid_def payload_shaped_def
      by (simp add: host_net own_entries_shaped MAX_ENTRIES_def WIRE_MAX_BIND_PORTS_def MAX_PIN_ID_def)
  qed
  then have "decode_payload (egress_bytes ?net proxy host_plan ''web'') = Inr ?p"
    using decode_encode_payload [of ?p] by (simp add: egress_bytes_def host_net payload_valid_def)
  then show ?thesis
    unfolding host_maps_def bpf_helper_main_def
    by (simp add: attach_egress_programs_def populate_maps_def host_env_def update_trie_accepted
      attach_programs_accepted response_ok_def Let_def split: option.split)
qed

lemmas host_gate = host_plan_ok host_net(1) web_str host_helper

lemma host_covers:
  "rule_covers (rule_of ''10.0.0.1'' p) a \<longleftrightarrow> a = V4 0x0a000001"
  "rule_covers \<lparr>nr_cidr = ''169.254.169.254'', nr_prefix_len = 32, nr_port_min = l, nr_port_max = h, nr_protocol = t\<rparr> a
     \<longleftrightarrow> a = V4 0xa9fea9fe"
  using contains_V4_iff [of 32 "0x0a000001"] contains_V4_iff [of 32 "0xa9fea9fe"]
  by (cases a; simp add: rule_covers_def rule_of_def host_parse parse_metadata_rule word_unat_eq_iff del: contains_addr.simps(1,2))+

text \<open>C14. The kernel gate of a host-mode kennel is exactly the policy's rule list. Once the helper has succeeded on the
  bytes the daemon sends, a connect is let through iff no deny rule (the invariant, the author's and
  the connect denies) covers the address and the deciding allow rule permits protocol and port, where
  the deciding rule is the covering one with the longest prefix, the last of equals, and the daemon
  appends one rule for each loopback address. Sending a datagram is decided like a UDP connect.\<close>

theorem host_connect_exact:
  assumes "lpm_law lookup" "Plan_from_policy libc policy ctx namespace home = Inr plan"
    "net_mode (ep_net (sp_effective_policy policy)) = PolicyHost" "is_str ident"
    "bpf_helper_main env (egress_bytes (ep_net (sp_effective_policy policy)) proxy plan ident) = (0, attached, maps)"
  shows "attached = KENNEL_PROGRAMS
    \<and> connect_verdict lookup ring_full maps a port proto =
      acl_permits (net_bpf_connect_allow (ep_net (sp_effective_policy policy)) @ own_rules proxy 32 128)
        (connect_deny_rules (ep_net (sp_effective_policy policy))) a proto port
    \<and> sendmsg_verdict lookup ring_full maps a port =
      acl_permits (net_bpf_connect_allow (ep_net (sp_effective_policy policy)) @ own_rules proxy 32 128)
        (connect_deny_rules (ep_net (sp_effective_policy policy))) a IPPROTO_UDP port"
  using gate_connect [OF assms] helper_success [OF assms(5)] by (auto simp: sendmsg_verdict_connect)

theorem host_connect_exact_witness:
  "connect_verdict lpm_reference False (host_maps False) (V4 0x0a000001) 8443 6
   \<and> \<not> connect_verdict lpm_reference False (host_maps False) (V4 0xa9fea9fe) 80 6
   \<and> \<not> connect_verdict lpm_reference False (host_maps False) (V6 1) 80 6"
proof -
  have "\<not> rule_covers (rule_of ''10.0.0.1'' p) (V6 1)" for p by (simp add: host_covers)
  then show ?thesis
    using host_connect_exact [OF lpm_reference_law host_gate]
    by (simp add: acl_permits_def host_net own_rules_def floor_net_def host_covers)
      (simp add: rule_of_def rule_permits_def IPPROTO_TCP_def)
qed

lemma own_covers:
  "rule_covers \<lparr>nr_cidr = ''127.0.0.1'', nr_prefix_len = p, nr_port_min = l, nr_port_max = h, nr_protocol = t\<rparr> a
     \<longleftrightarrow> p \<le> 32 \<and> contains_addr (V4 0x7f000001) p a"
  "rule_covers \<lparr>nr_cidr = ''::1'', nr_prefix_len = p, nr_port_min = l, nr_port_max = h, nr_protocol = t\<rparr> a
     \<longleftrightarrow> p \<le> 128 \<and> contains_addr (V6 1) p a"
  by (simp_all add: rule_covers_def parse_ip_eval del: contains_addr.simps(1,2))

text \<open>C15. A bind in a host-mode kennel succeeds, for a port other than zero, exactly when the port is at or above the
  floor, is listed when the policy lists ports, and the address that is actually bound is permitted by
  the bind rules; a bind to the unspecified address becomes a bind to the loopback address when the
  daemon has a proxy.\<close>

theorem host_bind_exact:
  assumes "lpm_law lookup" "Plan_from_policy libc policy ctx namespace home = Inr plan"
    "net_mode (ep_net (sp_effective_policy policy)) = PolicyHost" "is_str ident"
    "bpf_helper_main env (egress_bytes (ep_net (sp_effective_policy policy)) proxy plan ident) = (0, attached, maps)"
    "port \<noteq> 0" "net = ep_net (sp_effective_policy policy)"
  shows "bind_result lookup ring_full maps a port proto = (True, b) \<longleftrightarrow>
    net_bind_port_min net \<le> port
    \<and> (net_bind_allowed_ports net = [] \<or> port \<in> set (net_bind_allowed_ports net))
    \<and> b = (if proxy then eff_addr 0x7f000001 1 a else a)
    \<and> acl_permits (net_bpf_bind_allow net @ own_rules proxy 28 64) (net_bpf_bind_deny net) b proto port"
  using gate_bind [OF assms(1-6)] unfolding assms(7) .

theorem host_bind_exact_witness:
  "bind_result lpm_reference False (host_maps True) (V4 0) 8080 6 = (True, V4 0x7f000001)
   \<and> fst (bind_result lpm_reference False (host_maps False) (V4 0) 8080 6) = False"
proof -
  have "contains_addr (V4 0x7f000001) 28 (V4 0x7f000001)" using contains_V4_iff [of 28] by simp
  then have "bind_result lpm_reference False (host_maps True) (V4 0) 8080 6 = (True, V4 0x7f000001)"
    by (subst host_bind_exact [OF lpm_reference_law host_gate _ refl])
      (simp_all add: host_net acl_permits_def own_rules_def own_covers rule_permits_def del: contains_addr.simps(1,2))
  moreover have "bind_result lpm_reference False (host_maps False) (V4 0) 8080 6 \<noteq> (True, b)" for b
    by (subst host_bind_exact [OF lpm_reference_law host_gate _ refl])
      (simp_all add: host_net acl_permits_def own_rules_def)
  ultimately show ?thesis by (metis prod.collapse)
qed

text \<open>With a proxy, which the daemon always configures, a host-mode kennel reaches every port of the host's own
  loopback over every protocol although no rule of its policy mentions the address; without the
  proxy it reaches none.\<close>

theorem host_loopback_open:
  "\<not> list_ex (\<lambda>r. rule_covers r (V4 0x7f000001)) (net_bpf_connect_allow (ep_net (sp_effective_policy host_demo)))
   \<and> connect_verdict lpm_reference ring_full (host_maps True) (V4 0x7f000001) port proto
   \<and> \<not> connect_verdict lpm_reference ring_full (host_maps False) (V4 0x7f000001) port proto"
proof -
  have "contains_addr (V4 0x7f000001) 32 (V4 0x7f000001)" using contains_V4_iff [of 32] by simp
  moreover have "port \<le> 0xffff" by (simp add: word_le_nat_alt) (use unat_u16_lt [of port] in linarith)
  ultimately show ?thesis
    by (simp add: gate_connect [OF lpm_reference_law host_gate] acl_permits_def host_net own_rules_def floor_net_def host_covers
      own_covers rule_permits_def del: contains_addr.simps(1,2))
qed

text \<open>Two allow rules with the same prefix do not add up: the second replaces the first in the kernel's table, so
  a port the policy grants is refused.\<close>

theorem allow_rule_overwritten:
  "rule_of ''10.0.0.1'' 443 \<in> set (net_bpf_connect_allow (ep_net (sp_effective_policy host_demo)))
   \<and> rule_covers (rule_of ''10.0.0.1'' 443) (V4 0x0a000001) \<and> rule_permits (rule_of ''10.0.0.1'' 443) IPPROTO_TCP 443
   \<and> list_all (\<lambda>r. \<not> rule_covers r (V4 0x0a000001)) (connect_deny_rules (ep_net (sp_effective_policy host_demo)))
   \<and> \<not> connect_verdict lpm_reference ring_full (host_maps proxy) (V4 0x0a000001) 443 IPPROTO_TCP"
proof -
  have "contains_addr (V4 0x7f000001) 32 (V4 0x0a000001) = False" using contains_V4_iff [of 32] by simp
  then show ?thesis
    by (simp add: gate_connect [OF lpm_reference_law host_gate] acl_permits_def host_net own_rules_def floor_net_def host_covers
      own_covers rule_permits_def del: contains_addr.simps(1,2)) (simp add: rule_of_def IPPROTO_TCP_def)
qed

text \<open>The loopback entry of the IPv6 bind table is \<open>::/64\<close>, which contains every IPv4-mapped address. A host-mode
  kennel without a single bind rule, whose bind to an ordinary IPv4 address is refused, may therefore
  bind the IPv4 wildcard written as \<open>::ffff:0.0.0.0\<close>, which is neither refused nor rewritten.\<close>

theorem mapped_wildcard_bindable:
  "net_bpf_bind_allow (ep_net (sp_effective_policy host_demo)) = []
   \<and> \<not> fst (bind_result lpm_reference ring_full (host_maps True) (V4 0x0a000001) 8080 proto)
   \<and> bind_result lpm_reference ring_full (host_maps True) (V6 0xffff00000000) 8080 proto = (True, V6 0xffff00000000)"
proof -
  note bind = gate_bind [OF lpm_reference_law host_gate, where port = 8080 and proto = proto and ring_full = ring_full]
  have "contains_addr (V6 1) 64 (V6 0xffff00000000)" using contains_V6_iff [of 64] by simp
  then have "bind_result lpm_reference ring_full (host_maps True) (V6 0xffff00000000) 8080 proto = (True, V6 0xffff00000000)"
    by (subst bind) (simp_all add: host_net acl_permits_def own_rules_def own_covers rule_permits_def del: contains_addr.simps(1,2))
  moreover have "\<not> contains_addr (V4 0x7f000001) 28 (V4 0x0a000001)" using contains_V4_iff [of 28] by simp
  then have "bind_result lpm_reference ring_full (host_maps True) (V4 0x0a000001) 8080 proto \<noteq> (True, b)" for b
    by (subst bind) (simp_all add: host_net acl_permits_def own_rules_def own_covers del: contains_addr.simps(1,2))
  ultimately show ?thesis by (metis host_net(5) prod.collapse)
qed

end
