(* ===== verification/Transition_System.thy ===== *)
theory Transition_System
  imports Main
begin

text \<open>
  Reachability in a transition system given by its initial states and its step relation, the invariant
  rule, and runs of several steps.  Every state machine of the development is an instance.
\<close>

inductive reach :: "('s \<Rightarrow> bool) \<Rightarrow> ('s \<Rightarrow> 's \<Rightarrow> bool) \<Rightarrow> 's \<Rightarrow> bool" for init step where
  reach_init [intro]: "init s \<Longrightarrow> reach init step s"
| reach_step: "reach init step s \<Longrightarrow> step s s' \<Longrightarrow> reach init step s'"

lemma reach_invariant [consumes 1, case_names init step]:
  assumes "reach init step s"
    and "\<And>s. init s \<Longrightarrow> I s"
    and "\<And>s s'. reach init step s \<Longrightarrow> I s \<Longrightarrow> step s s' \<Longrightarrow> I s'"
  shows "I s"
  using assms(1)
proof (induction rule: reach.induct)
  case (reach_init s)
  then show ?case by (rule assms(2))
next
  case (reach_step s s')
  then show ?case using assms(3) [of s s'] by simp
qed

lemma reach_steps:
  assumes "step\<^sup>*\<^sup>* s s'" "reach init step s"
  shows "reach init step s'"
  using assms by (induction rule: rtranclp_induct) (blast intro: reach_step)+

end
