(* ===== verification/Kennel_Registry.thy ===== *)
theory Kennel_Registry
  imports Rust_Fmt Btree_Map Transition_System Settled Binder_Service
begin

text \<open>
  The daemon's registry of running kennels: the context allocator (\<open>kenneld/src/ctx.rs\<close>), the registry
  operations and the hard reaper of \<open>kenneld/src/server.rs\<close>, the transient names of spawned kennels
  (\<open>kenneld/src/spawn.rs\<close>) and the cgroup names that carry a context (\<open>kenneld/src/cgroup.rs\<close>).  The
  terminal broker of an entry is left out: no operation here reads it.
\<close>

section \<open>The context allocator\<close>

definition DEFAULT_CTX :: u16 where "DEFAULT_CTX = 0"
definition MAX_V4_CTX :: u16 where "MAX_V4_CTX = 255"

record CtxAllocator =
  ca_used :: "u16 set"
  ca_max :: u16

definition CtxAllocator_new :: CtxAllocator where
  "CtxAllocator_new = \<lparr>ca_used = {}, ca_max = MAX_V4_CTX\<rparr>"

definition CtxAllocator_with_max :: "u16 \<Rightarrow> CtxAllocator" where
  "CtxAllocator_with_max hi = \<lparr>ca_used = {}, ca_max = hi\<rparr>"

definition ctx_range :: "u16 \<Rightarrow> u16 list" where
  "ctx_range hi = map word_of_nat [unat DEFAULT_CTX + 1..<unat hi + 1]"

definition allocate :: "CtxAllocator \<Rightarrow> (u16 \<times> CtxAllocator) option" where
  "allocate a = map_option (\<lambda>c. (c, a\<lparr>ca_used := insert c (ca_used a)\<rparr>))
     (find (\<lambda>c. c \<notin> ca_used a) (ctx_range (ca_max a)))"

definition reserve_ctx :: "CtxAllocator \<Rightarrow> u16 \<Rightarrow> bool \<times> CtxAllocator" where
  "reserve_ctx a ctx =
     (if ctx = DEFAULT_CTX \<or> ctx > ca_max a \<or> ctx \<in> ca_used a then (False, a)
      else (ctx \<notin> ca_used a, a\<lparr>ca_used := insert ctx (ca_used a)\<rparr>))"

definition release_ctx :: "u16 \<Rightarrow> CtxAllocator \<Rightarrow> CtxAllocator" where
  "release_ctx ctx a = a\<lparr>ca_used := ca_used a - {ctx}\<rparr>"

definition is_allocated :: "CtxAllocator \<Rightarrow> u16 \<Rightarrow> bool" where
  "is_allocated a ctx \<longleftrightarrow> ctx \<in> ca_used a"

definition ctx_len :: "CtxAllocator \<Rightarrow> nat" where
  "ctx_len a = card (ca_used a)"

section \<open>Names\<close>

definition MAX_KENNEL_NAME :: nat where "MAX_KENNEL_NAME = 64"

datatype NameError = NameEmpty | NameTooLong string nat | NameBadStart string | NameIllegalChar string

definition is_ascii_lowercase :: "char \<Rightarrow> bool" where
  "is_ascii_lowercase c \<longleftrightarrow> 97 \<le> (of_char c :: nat) \<and> (of_char c :: nat) \<le> 122"

definition is_ascii_digit :: "char \<Rightarrow> bool" where
  "is_ascii_digit c \<longleftrightarrow> 48 \<le> (of_char c :: nat) \<and> (of_char c :: nat) \<le> 57"

definition validate_kennel_name :: "string \<Rightarrow> NameError + unit" where
  "validate_kennel_name name =
     (if name = [] then Inl NameEmpty
      else if length name > MAX_KENNEL_NAME then Inl (NameTooLong name (length name))
      else if \<not> is_ascii_lowercase (hd name) \<and> \<not> is_ascii_digit (hd name) then Inl (NameBadStart name)
      else if list_ex (\<lambda>c. \<not> is_ascii_lowercase c \<and> \<not> is_ascii_digit c \<and> c \<noteq> CHR ''-'') name
      then Inl (NameIllegalChar name)
      else Inr ())"

text \<open>A spawned kennel's name: the requester's context and a process-wide counter in hexadecimal.\<close>

definition child_name_prefix :: "u16 \<Rightarrow> string" where
  "child_name_prefix parent_ctx = ''spawn-'' @ show_dec (unat parent_ctx) @ ''-''"

definition spawn_name :: "u16 \<Rightarrow> u64 \<Rightarrow> string" where
  "spawn_name parent_ctx counter =
     ''spawn-'' @ show_dec (unat parent_ctx) @ ''-'' @ pad_zero 12 (show_hex (unat counter))"

section \<open>The registry\<close>

record ConsumedEntry =
  ce_name :: string
  ce_shape :: string
  ce_required :: bool

record KennelMeta =
  km_ctx :: u16
  km_pid :: "u32 option"
  km_consumed :: "ConsumedEntry list"
  km_settled :: "SettledPolicy option"

record Registry =
  reg_ctx :: CtxAllocator
  reg_kennels :: "(string \<times> KennelMeta) list"

datatype ReserveError = AlreadyRunning string | NoFreeContext

definition Registry_default :: Registry where
  "Registry_default = \<lparr>reg_ctx = CtxAllocator_new, reg_kennels = []\<rparr>"

definition reserve :: "Registry \<Rightarrow> string \<Rightarrow> ReserveError + u16 \<times> Registry" where
  "reserve reg name =
     (if bt_get (reg_kennels reg) name \<noteq> None then Inl (AlreadyRunning name)
      else case allocate (reg_ctx reg) of
        None \<Rightarrow> Inl NoFreeContext
      | Some (ctx, pool) \<Rightarrow>
          Inr (ctx, \<lparr>reg_ctx = pool,
                    reg_kennels = bt_insert name \<lparr>km_ctx = ctx, km_pid = None, km_consumed = [],
                                                  km_settled = None\<rparr> (reg_kennels reg)\<rparr>))"

definition release :: "Registry \<Rightarrow> string \<Rightarrow> u16 \<Rightarrow> Registry" where
  "release reg name ctx =
     \<lparr>reg_ctx = release_ctx ctx (reg_ctx reg), reg_kennels = bt_remove name (reg_kennels reg)\<rparr>"

definition set_pid :: "Registry \<Rightarrow> string \<Rightarrow> u32 \<Rightarrow> Registry" where
  "set_pid reg name pid =
     reg\<lparr>reg_kennels := bt_adjust name (\<lambda>meta. meta\<lparr>km_pid := Some pid\<rparr>) (reg_kennels reg)\<rparr>"

definition set_settled :: "Registry \<Rightarrow> string \<Rightarrow> SettledPolicy \<Rightarrow> Registry" where
  "set_settled reg name settled =
     reg\<lparr>reg_kennels := bt_adjust name (\<lambda>meta. meta\<lparr>km_settled := Some settled\<rparr>) (reg_kennels reg)\<rparr>"

definition note_consumes :: "Registry \<Rightarrow> string \<Rightarrow> ConsumedEntry list \<Rightarrow> Registry" where
  "note_consumes reg name entries =
     reg\<lparr>reg_kennels := bt_adjust name (\<lambda>meta. meta\<lparr>km_consumed := entries\<rparr>) (reg_kennels reg)\<rparr>"

definition ctx_pid :: "Registry \<Rightarrow> string \<Rightarrow> (u16 \<times> u32) option" where
  "ctx_pid reg name =
     Option.bind (bt_get (reg_kennels reg) name) (\<lambda>meta. map_option (\<lambda>pid. (km_ctx meta, pid)) (km_pid meta))"

definition any_running_consumer :: "Registry \<Rightarrow> string list \<Rightarrow> bool" where
  "any_running_consumer reg capabilities \<longleftrightarrow>
     list_ex (\<lambda>(_, meta). list_ex (\<lambda>c. List.member capabilities (ce_name c)) (km_consumed meta)) (reg_kennels reg)"

text \<open>The contexts whose cgroups the hard reaper kills, in the order of the registry.\<close>

definition reap_children :: "Registry \<Rightarrow> u16 \<Rightarrow> u16 list" where
  "reap_children reg parent_ctx =
     (let prefix = child_name_prefix parent_ctx
      in map (\<lambda>(_, meta). km_ctx meta) (filter (\<lambda>(name, _). starts_with prefix name) (reg_kennels reg)))"

datatype StopResponse = Stopped | StopUnknown string | StopStarting string | StopFailed string
datatype StopAction = MarkIdleReaped string | KillCgroup u16

text \<open>\<open>lazy name\<close>: the name is an on-demand provider and the activator is wired; \<open>killed ctx\<close>: the write to
  the cgroup's kill file succeeded.\<close>

definition stop :: "Registry \<Rightarrow> (string \<Rightarrow> bool) \<Rightarrow> (u16 \<Rightarrow> bool) \<Rightarrow> string \<Rightarrow> StopResponse \<times> StopAction list" where
  "stop reg lazy killed name =
     (case bt_get (reg_kennels reg) name of
        None \<Rightarrow> (StopUnknown name, [])
      | Some meta \<Rightarrow>
          if km_pid meta = None then (StopStarting name, [])
          else (if killed (km_ctx meta) then Stopped else StopFailed name,
                (if lazy name then [MarkIdleReaped name] else [])
                @ map KillCgroup (reap_children reg (km_ctx meta)) @ [KillCgroup (km_ctx meta)]))"

definition session_policy_for :: "Registry \<Rightarrow> u16 \<Rightarrow> string \<Rightarrow> bytes option" where
  "session_policy_for reg ctx name =
     do { meta \<leftarrow> find (\<lambda>m. km_ctx m = ctx) (map snd (reg_kennels reg));
          settled \<leftarrow> km_settled meta;
          bus \<leftarrow> capability_bus name;
          rules \<leftarrow> (if bus = SYSTEM then dbus_system (sp_dbus settled) else dbus_session (sp_dbus settled));
          Some (broker_encode_accept
            \<lparr>as_bus = bus, as_talk = db_talk rules, as_call = db_call rules,
             as_broadcast = db_broadcast rules, as_own = db_own rules, as_deny_talk = db_deny_talk rules\<rparr>) }"

section \<open>Control groups\<close>

definition KENNEL_PREFIX :: string where "KENNEL_PREFIX = ''kennel-''"

definition kennel_cgroup :: "string \<Rightarrow> u16 \<Rightarrow> string" where
  "kennel_cgroup base ctx = path_join base (KENNEL_PREFIX @ show_dec (unat ctx))"

fun find_map :: "('a \<Rightarrow> 'b option) \<Rightarrow> 'a list \<Rightarrow> 'b option" where
  "find_map f [] = None"
| "find_map f (x # xs) = or_else (f x) (find_map f xs)"

definition ctx_from_cgroup :: "string \<Rightarrow> u16 option" where
  "ctx_from_cgroup content =
     do { path \<leftarrow> find_map (strip_prefix ''0::'') (str_lines content);
          n \<leftarrow> find_map (strip_prefix KENNEL_PREFIX) (split_on (CHR ''/'') path);
          parse_u16 n }"

section \<open>The allocator hands out the lowest free context\<close>

lemma set_ctx_range: "c \<in> set (ctx_range hi) \<longleftrightarrow> DEFAULT_CTX < c \<and> c \<le> hi"
proof -
  have "c \<in> set (ctx_range hi) \<longleftrightarrow> (\<exists>n. 1 \<le> n \<and> n \<le> unat hi \<and> c = word_of_nat n)"
    by (auto simp: ctx_range_def DEFAULT_CTX_def)
  also have "\<dots> \<longleftrightarrow> 1 \<le> unat c \<and> unat c \<le> unat hi"
  proof
    assume "\<exists>n. 1 \<le> n \<and> n \<le> unat hi \<and> c = word_of_nat n"
    then obtain n where n: "1 \<le> n" "n \<le> unat hi" "c = word_of_nat n" by blast
    then have "n < 65536" using unsigned_less [of hi, where 'a = nat] by simp
    with n show "1 \<le> unat c \<and> unat c \<le> unat hi" by (simp add: unat_of_nat take_bit_eq_mod)
  next
    assume "1 \<le> unat c \<and> unat c \<le> unat hi"
    then show "\<exists>n. 1 \<le> n \<and> n \<le> unat hi \<and> c = word_of_nat n" by (intro exI [of _ "unat c"]) simp
  qed
  also have "\<dots> \<longleftrightarrow> DEFAULT_CTX < c \<and> c \<le> hi"
    by (simp add: DEFAULT_CTX_def word_less_nat_alt word_le_nat_alt Suc_le_eq)
  finally show ?thesis .
qed

lemma sorted_ctx_range: "sorted_wrt (<) (ctx_range hi)"
proof -
  have "sorted_wrt (\<lambda>a b. (word_of_nat a :: u16) < word_of_nat b) [unat DEFAULT_CTX + 1..<unat hi + 1]"
  proof (rule sorted_wrt_mono_rel [where P = "(<)"])
    fix x y assume "x \<in> set [unat DEFAULT_CTX + 1..<unat hi + 1]" "y \<in> set [unat DEFAULT_CTX + 1..<unat hi + 1]" "x < y"
    then have "y < 65536" "x < 65536" using unsigned_less [of hi, where 'a = nat] by auto
    with \<open>x < y\<close> show "(word_of_nat x :: u16) < word_of_nat y"
      by (simp add: word_less_nat_alt unat_of_nat take_bit_eq_mod)
  qed (simp only: sorted_wrt_upt)
  then show ?thesis by (simp add: ctx_range_def sorted_wrt_map)
qed

lemma allocate_Some_iff:
  "allocate a = Some (c, a') \<longleftrightarrow>
     DEFAULT_CTX < c \<and> c \<le> ca_max a \<and> c \<notin> ca_used a \<and> (\<forall>d. DEFAULT_CTX < d \<and> d < c \<longrightarrow> d \<in> ca_used a)
     \<and> a' = a\<lparr>ca_used := insert c (ca_used a)\<rparr>"
proof -
  have "find (\<lambda>c. c \<notin> ca_used a) (ctx_range (ca_max a)) = Some c \<longleftrightarrow>
    c \<in> set (ctx_range (ca_max a)) \<and> c \<notin> ca_used a \<and> (\<forall>d \<in> set (ctx_range (ca_max a)). d < c \<longrightarrow> d \<in> ca_used a)"
  proof
    assume "find (\<lambda>c. c \<notin> ca_used a) (ctx_range (ca_max a)) = Some c"
    then obtain i where i: "i < length (ctx_range (ca_max a))" "ctx_range (ca_max a) ! i = c" "c \<notin> ca_used a"
      and before: "\<forall>j<i. ctx_range (ca_max a) ! j \<in> ca_used a"
      by (auto simp: find_Some_iff)
    have "d \<in> ca_used a" if "d \<in> set (ctx_range (ca_max a))" "d < c" for d
    proof -
      from that(1) obtain j where j: "j < length (ctx_range (ca_max a))" "ctx_range (ca_max a) ! j = d"
        by (auto simp: in_set_conv_nth)
      have "\<not> i \<le> j"
        using sorted_wrt_nth_less [OF sorted_ctx_range, of i j "ca_max a"] i j that(2)
        by (cases "i = j") (auto simp: less_le_not_le)
      with before j show ?thesis by auto
    qed
    with i show "c \<in> set (ctx_range (ca_max a)) \<and> c \<notin> ca_used a
      \<and> (\<forall>d \<in> set (ctx_range (ca_max a)). d < c \<longrightarrow> d \<in> ca_used a)" by auto
  next
    assume c: "c \<in> set (ctx_range (ca_max a)) \<and> c \<notin> ca_used a
      \<and> (\<forall>d \<in> set (ctx_range (ca_max a)). d < c \<longrightarrow> d \<in> ca_used a)"
    then obtain i where i: "i < length (ctx_range (ca_max a))" "ctx_range (ca_max a) ! i = c"
      by (auto simp: in_set_conv_nth)
    have "ctx_range (ca_max a) ! j \<in> ca_used a" if "j < i" for j
      using sorted_wrt_nth_less [OF sorted_ctx_range, of j i "ca_max a"] i c that by auto
    with i c show "find (\<lambda>c. c \<notin> ca_used a) (ctx_range (ca_max a)) = Some c"
      by (auto simp: find_Some_iff)
  qed
  then show ?thesis by (auto simp: allocate_def set_ctx_range)
qed

interpretation ctx_pool: id_pool ca_used allocate release_ctx
  by unfold_locales (auto simp: allocate_Some_iff release_ctx_def)

interpretation registry: assigned bt_get bt_insert bt_remove bt_inv ca_used allocate release_ctx km_ctx
  by unfold_locales

lemma allocate_None_iff: "allocate a = None \<longleftrightarrow> (\<forall>c. DEFAULT_CTX < c \<and> c \<le> ca_max a \<longrightarrow> c \<in> ca_used a)"
  by (auto simp: allocate_def find_None_iff set_ctx_range)

section \<open>The registry invariant\<close>

text \<open>The registry evolves under one lock: a kennel's thread reserves its name, records what it learns, and
  releases the name with the context it was given.\<close>

inductive registry_step :: "Registry \<Rightarrow> Registry \<Rightarrow> bool" where
  Reserve: "reserve reg name = Inr (ctx, reg') \<Longrightarrow> registry_step reg reg'"
| Release: "bt_get (reg_kennels reg) name = Some meta \<Longrightarrow> registry_step reg (release reg name (km_ctx meta))"
| SetPid: "registry_step reg (set_pid reg name pid)"
| SetSettled: "registry_step reg (set_settled reg name settled)"
| NoteConsumes: "registry_step reg (note_consumes reg name entries)"

definition registry_reachable :: "Registry \<Rightarrow> bool" where
  "registry_reachable = reach (\<lambda>reg. reg = Registry_default) registry_step"

definition registry_ok :: "Registry \<Rightarrow> bool" where
  "registry_ok reg \<longleftrightarrow> bt_inv (reg_kennels reg)
     \<and> one_each (map_option km_ctx \<circ> bt_get (reg_kennels reg)) (ca_used (reg_ctx reg))
     \<and> (\<forall>c \<in> ca_used (reg_ctx reg). DEFAULT_CTX < c \<and> c \<le> ca_max (reg_ctx reg))
     \<and> ca_max (reg_ctx reg) = MAX_V4_CTX"

lemma adjust_keeps_ctx:
  "(\<And>meta. km_ctx (f meta) = km_ctx meta) \<Longrightarrow>
     map_option km_ctx \<circ> bt_get (bt_adjust name f m) = map_option km_ctx \<circ> bt_get m"
  by (auto simp: bt_get_adjust fun_eq_iff option.map_comp comp_def)

lemma registry_step_ok: "registry_step reg reg' \<Longrightarrow> registry_ok reg \<Longrightarrow> registry_ok reg'"
proof (induction rule: registry_step.induct)
  case (Reserve reg name ctx reg')
  then obtain pool where r: "bt_get (reg_kennels reg) name = None" "allocate (reg_ctx reg) = Some (ctx, pool)"
    "reg' = \<lparr>reg_ctx = pool, reg_kennels = bt_insert name \<lparr>km_ctx = ctx, km_pid = None, km_consumed = [],
                                                  km_settled = None\<rparr> (reg_kennels reg)\<rparr>"
    by (auto simp: reserve_def split: if_splits option.splits)
  from Reserve.prems have ok: "bt_inv (reg_kennels reg)"
    "one_each (map_option km_ctx \<circ> bt_get (reg_kennels reg)) (ca_used (reg_ctx reg))"
    by (simp_all add: registry_ok_def)
  note registry.assign_keeps [OF ok r(1), where v = "\<lparr>km_ctx = ctx, km_pid = None, km_consumed = [],
                                                  km_settled = None\<rparr>" and s' = pool]
  with r Reserve.prems show ?case
    by (auto simp: registry_ok_def bt_inv_insert allocate_Some_iff)
next
  case (Release reg name meta)
  then have ok: "bt_inv (reg_kennels reg)"
    "one_each (map_option km_ctx \<circ> bt_get (reg_kennels reg)) (ca_used (reg_ctx reg))"
    by (simp_all add: registry_ok_def)
  from registry.unassign_keeps [OF ok Release.hyps] Release.prems show ?case
    by (auto simp: registry_ok_def release_def bt_inv_remove release_ctx_def)
qed (auto simp: registry_ok_def set_pid_def set_settled_def note_consumes_def bt_inv_adjust adjust_keeps_ctx)

lemma registry_reachable_ok: "registry_reachable reg \<Longrightarrow> registry_ok reg"
  unfolding registry_reachable_def
proof (induction rule: reach_invariant)
  case (init reg)
  then show ?case
    by (auto simp: registry_ok_def Registry_default_def CtxAllocator_new_def bt_inv_def one_each_iff bt_get_def)
next
  case (step reg reg')
  then show ?case using registry_step_ok by blast
qed

lemma registry_reachable_step: "registry_reachable reg \<Longrightarrow> registry_step reg reg' \<Longrightarrow> registry_reachable reg'"
  unfolding registry_reachable_def by (rule reach_step)

lemma registry_reachable_start: "registry_reachable Registry_default"
  by (auto simp: registry_reachable_def)

lemma find_owner:
  assumes "registry_ok reg" "bt_get (reg_kennels reg) n = Some meta"
  shows "find (\<lambda>m. km_ctx m = km_ctx meta) (map snd (reg_kennels reg)) = Some meta"
proof -
  have inv: "bt_inv (reg_kennels reg)" using assms(1) by (simp add: registry_ok_def)
  then have "(n, meta) \<in> set (reg_kennels reg)" using assms(2) by (simp add: bt_get_iff)
  then have "find (\<lambda>m. km_ctx m = km_ctx meta) (map snd (reg_kennels reg)) \<noteq> None"
    by (auto simp: find_None_iff intro!: bexI [of _ "(n, meta)"])
  then obtain other where o: "find (\<lambda>m. km_ctx m = km_ctx meta) (map snd (reg_kennels reg)) = Some other"
    by blast
  then have "other \<in> snd ` set (reg_kennels reg)" "km_ctx other = km_ctx meta"
    using nth_mem by (fastforce simp: find_Some_iff)+
  then obtain k where "bt_get (reg_kennels reg) k = Some other" using inv by (auto simp: bt_get_iff)
  moreover have "k = n"
    using assms \<open>km_ctx other = km_ctx meta\<close> calculation by (auto simp: registry_ok_def one_each_iff)
  ultimately show ?thesis using o assms(2) by simp
qed

section \<open>Names of spawned kennels\<close>

lemma split_at_dash:
  "a @ CHR ''-'' # b = c @ CHR ''-'' # d \<Longrightarrow> CHR ''-'' \<notin> set a \<Longrightarrow> CHR ''-'' \<notin> set c \<Longrightarrow> a = c \<and> b = d"
proof (induction a arbitrary: c)
  case Nil then show ?case by (cases c) auto
next
  case (Cons x a) then show ?case by (cases c) auto
qed

lemma child_prefix_iff: "starts_with (child_name_prefix p) (spawn_name c n) \<longleftrightarrow> p = c"
proof
  assume "starts_with (child_name_prefix p) (spawn_name c n)"
  then obtain r where "show_dec (unat c) @ CHR ''-'' # pad_zero 12 (show_hex (unat n)) = show_dec (unat p) @ CHR ''-'' # r"
    by (auto simp: starts_with_iff child_name_prefix_def spawn_name_def)
  from split_at_dash [OF this] show "p = c" by (simp add: word_unat_eq_iff)
qed (auto simp: starts_with_iff child_name_prefix_def spawn_name_def)

lemma spawn_name_inject: "spawn_name c n = spawn_name d m \<longleftrightarrow> c = d \<and> n = m"
proof
  assume a: "spawn_name c n = spawn_name d m"
  then have "c = d" using child_prefix_iff [of c d m] child_prefix_iff [of c c n] by simp
  moreover from this a have "unat n = unat m" by (simp add: spawn_name_def pad_hex_inject)
  ultimately show "c = d \<and> n = m" by (simp add: unsigned_word_eqI)
qed simp

text \<open>The session a bus section of a policy grants.\<close>

definition session_of :: "u8 \<Rightarrow> DbusBusRuntime \<Rightarrow> AcceptSession" where
  "session_of bus rules =
     \<lparr>as_bus = bus, as_talk = db_talk rules, as_call = db_call rules,
      as_broadcast = db_broadcast rules, as_own = db_own rules, as_deny_talk = db_deny_talk rules\<rparr>"

section \<open>Components of a control-group path\<close>

definition kennel_comp :: "u16 \<Rightarrow> string" where
  "kennel_comp ctx = KENNEL_PREFIX @ show_dec (unat ctx)"

lemma kennel_comp_no_char:
  "(of_char c :: nat) < 45 \<Longrightarrow> c \<notin> set (kennel_comp ctx)" "CHR ''/'' \<notin> set (kennel_comp ctx)"
  using show_dec_no_char [of c "unat ctx"] show_dec_no_char [of "CHR ''/''" "unat ctx"]
  by (auto simp: kennel_comp_def KENNEL_PREFIX_def)

lemma kennel_comp_last: "kennel_comp ctx \<noteq> []" "last (kennel_comp ctx) \<noteq> CHR 0x0D"
proof -
  show "kennel_comp ctx \<noteq> []" by (simp add: kennel_comp_def KENNEL_PREFIX_def)
  then have "last (kennel_comp ctx) \<in> set (kennel_comp ctx)" by simp
  then show "last (kennel_comp ctx) \<noteq> CHR 0x0D" using kennel_comp_no_char(1) [of "CHR 0x0D" ctx] by auto
qed

lemma str_lines_single: "CHR 0x0A \<notin> set s \<Longrightarrow> str_lines (s @ [CHR 0x0A]) = [strip_cr s]"
  by (simp add: str_lines_def split_on_append [of _ s "[]", simplified] split_on_no_char Let_def)

lemma strip_cr_tail:
  assumes "s \<noteq> []" "last s \<noteq> CHR 0x0D" "tail \<in> {[], CHR ''/'' # inner}"
  shows "\<exists>tail'. strip_cr (s @ tail) = s @ tail' \<and> (tail' = [] \<or> (\<exists>b. tail' = CHR ''/'' # b))"
proof (cases "tail = []")
  case True
  have "strip_suffix [CHR 0x0D] s = None"
    using assms(2) by (cases "strip_suffix [CHR 0x0D] s") auto
  with True show ?thesis by (simp add: strip_cr_def)
next
  case False
  with assms(3) have tail: "tail = CHR ''/'' # inner" by simp
  show ?thesis
  proof (cases "strip_suffix [CHR 0x0D] (s @ tail)")
    case None
    with tail show ?thesis by (auto simp: strip_cr_def)
  next
    case (Some r)
    then have r: "s @ CHR ''/'' # inner = r @ [CHR 0x0D]" by (simp add: tail)
    then have "inner \<noteq> []" by auto
    then obtain b where "inner = b @ [CHR 0x0D]" using r by (cases inner rule: rev_cases) auto
    with r have "r = s @ CHR ''/'' # b" by simp
    moreover have "strip_cr (s @ tail) = r" using Some by (simp add: strip_cr_def del: strip_suffix_Some_iff)
    ultimately show ?thesis by blast
  qed
qed

lemma find_map_skip: "\<forall>x \<in> set xs. f x = None \<Longrightarrow> find_map f (xs @ ys) = find_map f ys"
  by (induction xs) simp_all

lemma split_first_comp:
  assumes "tail = [] \<or> (\<exists>b. tail = CHR ''/'' # b)"
  shows "\<exists>rest. split_on (CHR ''/'') (kennel_comp ctx @ tail) = kennel_comp ctx # rest"
  using assms kennel_comp_no_char(2) [of ctx] by (auto simp: split_on_append split_on_no_char)

section \<open>Example registries\<close>

text \<open>An agent in context 1 and a kennel the operator named \<open>spawn-1-web\<close>, in context 2.\<close>

definition meta_at :: "u16 \<Rightarrow> KennelMeta" where
  "meta_at ctx = \<lparr>km_ctx = ctx, km_pid = None, km_consumed = [], km_settled = None\<rparr>"

definition agent_registry :: Registry where
  "agent_registry = \<lparr>reg_ctx = \<lparr>ca_used = {1}, ca_max = 255\<rparr>, reg_kennels = [(''agent'', meta_at 1)]\<rparr>"

lemma allocate_next:
  "allocate \<lparr>ca_used = {}, ca_max = 255\<rparr> = Some (1, \<lparr>ca_used = {1}, ca_max = 255\<rparr>)"
  "allocate \<lparr>ca_used = {1}, ca_max = 255\<rparr> = Some (2, \<lparr>ca_used = {2, 1}, ca_max = 255\<rparr>)"
  by (auto simp: allocate_Some_iff DEFAULT_CTX_def word_less_nat_alt word_unat_eq_iff)

lemma reserve_agent: "reserve Registry_default ''agent'' = Inr (1, agent_registry)"
  by (simp add: reserve_def Registry_default_def CtxAllocator_new_def MAX_V4_CTX_def allocate_next bt_get_def
    agent_registry_def meta_at_def)

lemma agent_registry_reachable: "registry_reachable agent_registry"
  by (rule registry_reachable_step [OF registry_reachable_start registry_step.Reserve [OF reserve_agent]])

section \<open>Properties\<close>

text \<open>C24. At every moment each registered kennel has its own context, between 1 and 255, and the allocator's set
  of used contexts is exactly the set of those: no two kennels share a subnet or a cgroup, no context
  leaks, and the default context 0 is never given out.\<close>

theorem contexts_owned_once:
  assumes "registry_reachable reg"
  shows "(\<forall>n m a b. bt_get (reg_kennels reg) n = Some a \<and> bt_get (reg_kennels reg) m = Some b
                    \<and> km_ctx a = km_ctx b \<longrightarrow> n = m)
    \<and> (\<forall>c. c \<in> ca_used (reg_ctx reg) \<longleftrightarrow> (\<exists>n a. bt_get (reg_kennels reg) n = Some a \<and> km_ctx a = c))
    \<and> (\<forall>c \<in> ca_used (reg_ctx reg). 1 \<le> unat c \<and> unat c \<le> 255)"
proof -
  from registry_reachable_ok [OF assms] have
    one: "one_each (map_option km_ctx \<circ> bt_get (reg_kennels reg)) (ca_used (reg_ctx reg))"
    and range: "\<forall>c \<in> ca_used (reg_ctx reg). DEFAULT_CTX < c \<and> c \<le> MAX_V4_CTX"
    by (auto simp: registry_ok_def)
  from range have "\<forall>c \<in> ca_used (reg_ctx reg). 1 \<le> unat c \<and> unat c \<le> 255"
    by (simp add: DEFAULT_CTX_def MAX_V4_CTX_def word_less_nat_alt word_le_nat_alt Suc_le_eq)
  with one show ?thesis by (auto simp: one_each_iff)
qed

theorem contexts_owned_once_witness:
  "(2 \<in> ca_used (reg_ctx agent_registry)) = (\<exists>n a. bt_get (reg_kennels agent_registry) n = Some a \<and> km_ctx a = 2)"
  using contexts_owned_once [OF agent_registry_reachable] by blast

text \<open>A start is refused for want of a context only when all 255 are taken by registered kennels: contexts
  are never lost, so the limit is the full range.\<close>

theorem reserve_fails_only_when_full:
  assumes "registry_reachable reg"
  shows "reserve reg name = Inl NoFreeContext \<longleftrightarrow>
    bt_get (reg_kennels reg) name = None \<and> length (reg_kennels reg) = 255"
proof -
  from registry_reachable_ok [OF assms] have inv: "bt_inv (reg_kennels reg)"
    and one: "one_each (map_option km_ctx \<circ> bt_get (reg_kennels reg)) (ca_used (reg_ctx reg))"
    and range: "ca_used (reg_ctx reg) \<subseteq> set (ctx_range MAX_V4_CTX)" and hi: "ca_max (reg_ctx reg) = MAX_V4_CTX"
    by (auto simp: registry_ok_def set_ctx_range)
  have "card (set (ctx_range MAX_V4_CTX)) = length (ctx_range MAX_V4_CTX)"
    using sorted_ctx_range strict_sorted_iff by (intro distinct_card) blast
  also have "\<dots> = 255" by (simp add: ctx_range_def MAX_V4_CTX_def DEFAULT_CTX_def)
  finally have card: "card (set (ctx_range MAX_V4_CTX)) = 255" .
  have "length (reg_kennels reg) = card (dom (bt_get (reg_kennels reg)))"
    using distinct_card [OF bt_inv_distinct [OF inv]] by (simp add: dom_bt_get)
  also have "\<dots> = card ((map_option km_ctx \<circ> bt_get (reg_kennels reg)) ` dom (bt_get (reg_kennels reg)))"
    using one by (intro card_image [symmetric]) (auto simp: one_each_def dom_def)
  also have "(map_option km_ctx \<circ> bt_get (reg_kennels reg)) ` dom (bt_get (reg_kennels reg)) = Some ` ca_used (reg_ctx reg)"
    using one by (force simp: one_each_iff image_iff dom_def)
  also have "card (Some ` ca_used (reg_ctx reg)) = card (ca_used (reg_ctx reg))"
    by (simp add: card_image)
  finally have "length (reg_kennels reg) = card (ca_used (reg_ctx reg))" .
  moreover have "card (ca_used (reg_ctx reg)) = 255 \<longleftrightarrow> set (ctx_range MAX_V4_CTX) \<subseteq> ca_used (reg_ctx reg)"
    using range card card_subset_eq [of "set (ctx_range MAX_V4_CTX)" "ca_used (reg_ctx reg)"] by auto
  moreover have "allocate (reg_ctx reg) = None \<longleftrightarrow> set (ctx_range MAX_V4_CTX) \<subseteq> ca_used (reg_ctx reg)"
    by (simp add: allocate_None_iff hi set_ctx_range subset_iff)
  moreover have "reserve reg name = Inl NoFreeContext \<longleftrightarrow>
      bt_get (reg_kennels reg) name = None \<and> allocate (reg_ctx reg) = None"
    by (auto simp: reserve_def split: option.splits)
  ultimately show ?thesis by simp
qed

theorem reserve_fails_only_when_full_witness: "reserve agent_registry ''tool'' \<noteq> Inl NoFreeContext"
  using reserve_fails_only_when_full [OF agent_registry_reachable, of "''tool''"]
  by (simp add: agent_registry_def)

text \<open>The hard reaper of a requester selects exactly its own spawned kennels: when every name in the registry
  is a spawned kennel's name or does not start like one, the contexts it kills are those of the
  kennels spawned by that requester, whatever digits the context numbers share.\<close>

theorem reaper_kills_own_children:
  assumes "bt_inv (reg_kennels reg)"
    and "\<forall>(name, meta) \<in> set (reg_kennels reg).
           (\<exists>c n. name = spawn_name c n) \<or> \<not> starts_with ''spawn-'' name"
  shows "ctx \<in> set (reap_children reg parent) \<longleftrightarrow>
    (\<exists>n meta. bt_get (reg_kennels reg) (spawn_name parent n) = Some meta \<and> km_ctx meta = ctx)"
proof -
  have "starts_with (child_name_prefix parent) name \<longleftrightarrow> (\<exists>n. name = spawn_name parent n)"
    if "(name, meta) \<in> set (reg_kennels reg)" for name meta
  proof
    assume s: "starts_with (child_name_prefix parent) name"
    then have "starts_with ''spawn-'' name"
      by (auto simp: starts_with_iff child_name_prefix_def)
    with that assms(2) obtain c n where "name = spawn_name c n" by fastforce
    with s show "\<exists>n. name = spawn_name parent n" by (auto simp: child_prefix_iff)
  qed (auto simp: child_prefix_iff)
  then show ?thesis
    using assms(1) by (fastforce simp: reap_children_def Let_def bt_get_iff)
qed

definition spawned_registry :: Registry where
  "spawned_registry = \<lparr>reg_ctx = \<lparr>ca_used = {1, 2, 3}, ca_max = 255\<rparr>,
     reg_kennels = [(''agent'', meta_at 1), (spawn_name 1 0, meta_at 2), (spawn_name 11 1, meta_at 3)]\<rparr>"

theorem reaper_kills_own_children_witness: "2 \<in> set (reap_children spawned_registry 1)"
proof -
  have inv: "bt_inv (reg_kennels spawned_registry)"
    by (simp add: spawned_registry_def bt_inv_def) code_simp
  have names: "\<forall>(name, meta) \<in> set (reg_kennels spawned_registry).
      (\<exists>c n. name = spawn_name c n) \<or> \<not> starts_with ''spawn-'' name"
    by (auto simp: spawned_registry_def starts_with_iff)
  have "bt_get (reg_kennels spawned_registry) (spawn_name 1 0) = Some (meta_at 2)"
    using inv by (simp add: bt_get_iff spawned_registry_def)
  then show ?thesis
    unfolding reaper_kills_own_children [OF inv names] by (intro exI conjI) (assumption, simp add: meta_at_def)
qed

text \<open>The reaper trusts the name alone, and the name grammar does not reserve the spawned form: a kennel the
  operator starts under the name \<open>spawn-1-web\<close> is accepted and is killed when the unrelated kennel in
  context 1 tears down.\<close>

theorem operator_kennel_reaped:
  "validate_kennel_name ''spawn-1-web'' = Inr ()
   \<and> (\<exists>reg. reserve agent_registry ''spawn-1-web'' = Inr (2, reg) \<and> reap_children reg 1 = [2])"
proof -
  have "reserve agent_registry ''spawn-1-web'' =
      Inr (2, \<lparr>reg_ctx = \<lparr>ca_used = {2, 1}, ca_max = 255\<rparr>,
              reg_kennels = bt_insert ''spawn-1-web'' (meta_at 2) [(''agent'', meta_at 1)]\<rparr>)"
    by (simp add: reserve_def agent_registry_def bt_get_def allocate_next meta_at_def)
  moreover have "''agent'' < ''spawn-1-web''" by code_simp
  moreover have "child_name_prefix 1 = ''spawn-1-''"
    by code_simp
  moreover have "validate_kennel_name ''spawn-1-web'' = Inr ()"
    by code_simp
  ultimately show ?thesis
    by (simp add: reap_children_def starts_with_iff meta_at_def less_not_sym)
qed

text \<open>A mediation broker that asks for the policy of a session gets the section of the very kennel that holds
  the context: it decodes to that kennel's own D-Bus rules for the bus, and a kennel without the bus
  yields nothing.\<close>

theorem session_policy_is_own:
  assumes "registry_reachable reg" "bt_get (reg_kennels reg) n = Some meta" "km_settled meta = Some p"
    and "capability_bus cap = Some bus"
    and "rules = (if bus = SYSTEM then dbus_system (sp_dbus p) else dbus_session (sp_dbus p))"
    and "\<forall>r. rules = Some r \<longrightarrow> valid_accept_session (session_of bus r)"
  shows "Option.bind (session_policy_for reg (km_ctx meta) cap) broker_decode_accept = map_option (session_of bus) rules"
proof -
  have "session_policy_for reg (km_ctx meta) cap = map_option (\<lambda>r. broker_encode_accept (session_of bus r)) rules"
    unfolding assms(5) session_policy_for_def find_owner [OF registry_reachable_ok [OF assms(1)] assms(2)]
    by (simp add: assms(3,4) session_of_def map_conv_bind_option comp_def)
  with assms(6) show ?thesis by (cases rules) (simp_all add: broker_decode_accept_iff)
qed

text \<open>The agent of the example registry, with a policy that lets it talk to one session-bus name.\<close>

definition bus_policy :: SettledPolicy where
  "bus_policy = floor_policy\<lparr>sp_dbus := \<lparr>dbus_audit_level = None,
     dbus_session = Some \<lparr>db_talk = [''a.b''], db_call = [], db_broadcast = [], db_own = [], db_deny_talk = []\<rparr>,
     dbus_system = None\<rparr>\<rparr>"

theorem session_policy_is_own_witness:
  "Option.bind (session_policy_for (set_settled agent_registry ''agent'' bus_policy) 1 CAPABILITY_SESSION)
     broker_decode_accept =
   Some \<lparr>as_bus = SESSION, as_talk = [''a.b''], as_call = [], as_broadcast = [], as_own = [], as_deny_talk = []\<rparr>"
proof -
  have r: "registry_reachable (set_settled agent_registry ''agent'' bus_policy)"
    by (rule registry_reachable_step [OF agent_registry_reachable registry_step.SetSettled])
  have g: "bt_get (reg_kennels (set_settled agent_registry ''agent'' bus_policy)) ''agent'' =
      Some ((meta_at 1)\<lparr>km_settled := Some bus_policy\<rparr>)"
    by (simp add: set_settled_def bt_get_adjust agent_registry_def bt_get_def)
  have c: "capability_bus CAPABILITY_SESSION = Some SESSION" by (simp add: capability_bus_def)
  have v: "valid_accept_session (session_of SESSION
      \<lparr>db_talk = [''a.b''], db_call = [], db_broadcast = [], db_own = [], db_deny_talk = []\<rparr>)"
    by (simp add: valid_accept_session_def session_of_def counted_def valid_str_def is_str_def as_bytes_def
      byte_of_char_def)
  show ?thesis
    using session_policy_is_own [OF r g _ c refl, of bus_policy] v
    by (simp add: bus_policy_def SESSION_def SYSTEM_def session_of_def meta_at_def)
qed

text \<open>The kernel's cgroup line identifies the kennel: a process anywhere below a kennel's cgroup resolves to
  that kennel's context, and cgroups the workload makes inside its own, whatever their names, cannot
  change the answer, as long as no component above the kennel's cgroup has the kennel prefix.\<close>

theorem cgroup_identifies_kennel:
  assumes "outer \<noteq> []" "last outer \<noteq> CHR ''/''"
    and "\<forall>comp \<in> set (split_on (CHR ''/'') outer). \<not> starts_with KENNEL_PREFIX comp"
    and "CHR 0x0A \<notin> set outer" "CHR 0x0A \<notin> set inner" "tail \<in> {[], CHR ''/'' # inner}"
  shows "ctx_from_cgroup (''0::'' @ kennel_cgroup outer ctx @ tail @ [CHR 0x0A]) = Some ctx"
proof -
  have path: "kennel_cgroup outer ctx = outer @ CHR ''/'' # kennel_comp ctx"
    using assms(1,2) by (simp add: kennel_cgroup_def path_join_def starts_with_iff kennel_comp_def KENNEL_PREFIX_def)
  have "CHR 0x0A \<notin> set (''0::'' @ kennel_cgroup outer ctx @ tail)"
    using assms(4-6) kennel_comp_no_char(1) [of "CHR 0x0A" ctx] by (auto simp: path)
  then have "str_lines (''0::'' @ kennel_cgroup outer ctx @ tail @ [CHR 0x0A]) =
      [strip_cr (''0::'' @ kennel_cgroup outer ctx @ tail)]"
    using str_lines_single [of "''0::'' @ kennel_cgroup outer ctx @ tail"] by simp
  moreover obtain tail' where tail': "strip_cr (''0::'' @ kennel_cgroup outer ctx @ tail) =
      ''0::'' @ outer @ CHR ''/'' # kennel_comp ctx @ tail'" "tail' = [] \<or> (\<exists>b. tail' = CHR ''/'' # b)"
    using strip_cr_tail [of "''0::'' @ outer @ CHR ''/'' # kennel_comp ctx" tail inner] assms(6)
      kennel_comp_last [of ctx] by (auto simp: path)
  moreover have "find_map (strip_prefix KENNEL_PREFIX) (split_on (CHR ''/'') (outer @ CHR ''/'' # kennel_comp ctx @ tail'))
      = Some (show_dec (unat ctx))"
  proof -
    obtain rest where rest: "split_on (CHR ''/'') (kennel_comp ctx @ tail') = kennel_comp ctx # rest"
      using split_first_comp [OF tail'(2)] by blast
    have none: "\<forall>comp \<in> set (split_on (CHR ''/'') outer). strip_prefix KENNEL_PREFIX comp = None"
      using assms(3) unfolding starts_with_def by blast
    show ?thesis
      unfolding split_on_append find_map_skip [OF none] rest by (simp add: kennel_comp_def)
  qed
  ultimately show ?thesis by (simp add: ctx_from_cgroup_def)
qed

theorem cgroup_identifies_kennel_witness:
  "ctx_from_cgroup (''0::'' @ kennel_cgroup ''/user.slice'' 5 @ ''/kennel-9'' @ [CHR 0x0A]) = Some 5"
  using cgroup_identifies_kennel [of "''/user.slice''" "''kennel-9''" "''/kennel-9''" 5]
  by (simp add: KENNEL_PREFIX_def starts_with_iff)

end
