(* ===== verification/Policy_Invariant.thy ===== *)
theory Policy_Invariant
  imports Settled Ip_Parse
begin

text \<open>
  The framework invariants re-asserted on every settled policy
  (\<open>kennel-lib-policy/src/invariant.rs\<close>).  The violations are collected in the order of the code;
  each carries its identifier and, for a redirect, the source, the view path and the writable path it
  meets.  The lemmas say when a policy passes, and that the redirect floor is a test on the
  directories a path names.
\<close>

section \<open>Lexical paths\<close>

text \<open>The components of a path with empty and \<open>.\<close> dropped and \<open>..\<close> popping the one before it.\<close>

fun clean_step :: "string list \<Rightarrow> string \<Rightarrow> string list" where
  "clean_step out c =
     (if c = [] \<or> c = ''.'' then out else if c = ''..'' then butlast out else out @ [c])"

definition clean_components :: "string \<Rightarrow> string list" where
  "clean_components p = foldl clean_step [] (split_on CHR ''/'' p)"

definition paths_intersect :: "string \<Rightarrow> string \<Rightarrow> bool" where
  "paths_intersect a b = list_all (\<lambda>(x, y). x = y) (zip (clean_components a) (clean_components b))"

definition normalize_grant :: "string \<Rightarrow> string" where
  "normalize_grant entry =
     (case or_else (strip_suffix ''/**'' entry) (strip_suffix ''/*'' entry) of
        Some r \<Rightarrow> r | None \<Rightarrow> entry)"

definition normalize_persist :: "string \<Rightarrow> string" where
  "normalize_persist entry =
     (if starts_with ''~'' entry \<or> starts_with ''/'' entry then normalize_grant entry
      else ''~/'' @ normalize_grant entry)"

section \<open>The check\<close>

datatype InvariantViolation =
    CapNoNewPrivs
  | ExecDenySetuid
  | ExecDenySetgid
  | ExecDenySetcap
  | ExecDenyWritable
  | FsHomeShadow
  | NetProxyDenyInvariant
  | FsRedirectWriteSet string string string

definition metadata_denied :: "NetPolicy \<Rightarrow> bool" where
  "metadata_denied net = list_ex (\<lambda>r. nr_cidr r = ''169.254.169.254'') (net_deny_invariant net)"

definition writable_surface :: "FsPolicy \<Rightarrow> string list" where
  "writable_surface fs =
     map normalize_grant (fs_write fs @ fs_exclusive fs) @ map normalize_persist (fs_home_persist fs)"

definition redirect_violations :: "FsPolicy \<Rightarrow> InvariantViolation list" where
  "redirect_violations fs =
     concat (map (\<lambda>r. map (\<lambda>w. FsRedirectWriteSet (rd_source r) (rd_path r) w)
                        (filter (\<lambda>w. paths_intersect (rd_source r) w) (writable_surface fs)))
       (fs_redirect fs))"

definition validate :: "SettledPolicy \<Rightarrow> InvariantViolation list + unit" where
  "validate policy =
     (let ep = sp_effective_policy policy;
          v = (if \<not> cap_no_new_privs (ep_cap ep) then [CapNoNewPrivs] else [])
            @ (if \<not> ex_deny_setuid (ep_exec ep) then [ExecDenySetuid] else [])
            @ (if \<not> ex_deny_setgid (ep_exec ep) then [ExecDenySetgid] else [])
            @ (if \<not> ex_deny_setcap (ep_exec ep) then [ExecDenySetcap] else [])
            @ (if \<not> ex_deny_writable (ep_exec ep) then [ExecDenyWritable] else [])
            @ (if \<not> fs_home_shadow (ep_fs ep) then [FsHomeShadow] else [])
            @ (if \<not> metadata_denied (ep_net ep) then [NetProxyDenyInvariant] else [])
            @ redirect_violations (ep_fs ep)
      in if v = [] then Inr () else Inl v)"

section \<open>Components\<close>

definition plain_component :: "string \<Rightarrow> bool" where
  "plain_component c \<longleftrightarrow> c \<noteq> [] \<and> c \<noteq> ''.'' \<and> c \<noteq> ''..'' \<and> CHR ''/'' \<notin> set c"

lemma clean_step_plain: "\<forall>x \<in> set out. plain_component x \<Longrightarrow> CHR ''/'' \<notin> set c \<Longrightarrow>
  x \<in> set (clean_step out c) \<Longrightarrow> plain_component x"
  by (auto simp: plain_component_def dest: in_set_butlastD split: if_splits)

lemma foldl_clean_step_plain:
  "\<forall>x \<in> set out. plain_component x \<Longrightarrow> \<forall>c \<in> set cs. CHR ''/'' \<notin> set c \<Longrightarrow>
   \<forall>x \<in> set (foldl clean_step out cs). plain_component x"
proof (induction cs arbitrary: out)
  case (Cons c cs)
  have "\<forall>x \<in> set (clean_step out c). plain_component x"
    using clean_step_plain [OF Cons.prems(1), of c] Cons.prems(2) by (simp del: clean_step.simps)
  from Cons.IH [OF this] Cons.prems(2) show ?case by (simp del: clean_step.simps)
qed simp

lemma clean_components_plain: "c \<in> set (clean_components p) \<Longrightarrow> plain_component c"
  using foldl_clean_step_plain [of "[]" "split_on CHR ''/'' p"] split_on_pieces
  by (auto simp: clean_components_def simp del: clean_step.simps)

text \<open>A path below a directory: cleaning the join is cleaning the root and then applying the rest.\<close>

lemma clean_components_join:
  "clean_components (root @ CHR ''/'' # rest) =
     foldl clean_step (clean_components root) (split_on CHR ''/'' rest)"
  by (simp add: clean_components_def split_on_append)

lemma foldl_clean_plain: "list_all plain_component cs \<Longrightarrow> foldl clean_step out cs = out @ cs"
  by (induction cs arbitrary: out) (simp_all add: plain_component_def)

text \<open>Two paths intersect when one names a directory above, or equal to, the other.\<close>

lemma zip_all_eq_iff:
  "list_all (\<lambda>(x, y). x = y) (zip xs ys) \<longleftrightarrow> take (min (length xs) (length ys)) xs = take (min (length xs) (length ys)) ys"
  by (induction xs arbitrary: ys) (auto split: prod.splits simp: zip_Cons1 split: list.splits)

lemma paths_intersect_iff:
  "paths_intersect a b \<longleftrightarrow>
     (\<exists>r. clean_components a = clean_components b @ r) \<or> (\<exists>r. clean_components b = clean_components a @ r)"
proof -
  have "take (min (length xs) (length ys)) xs = take (min (length xs) (length ys)) ys
    \<longleftrightarrow> (\<exists>r. xs = ys @ r) \<or> (\<exists>r. ys = xs @ r)" for xs ys :: "string list"
    by (cases "length xs \<le> length ys")
      (auto simp: min_def dest: append_eq_conv_conj [THEN iffD1],
       metis append_take_drop_id, metis append_take_drop_id)
  then show ?thesis by (simp add: paths_intersect_def zip_all_eq_iff)
qed

section \<open>What a valid policy satisfies\<close>

lemma redirect_violations_empty_iff:
  "redirect_violations fs = [] \<longleftrightarrow>
     (\<forall>r \<in> set (fs_redirect fs). \<forall>w \<in> set (writable_surface fs). \<not> paths_intersect (rd_source r) w)"
  by (auto simp: redirect_violations_def filter_empty_conv)

lemma validate_ok_iff:
  "validate p = Inr () \<longleftrightarrow>
     (let ep = sp_effective_policy p; ex = ep_exec ep in
      cap_no_new_privs (ep_cap ep)
      \<and> ex_deny_setuid ex \<and> ex_deny_setgid ex \<and> ex_deny_setcap ex \<and> ex_deny_writable ex
      \<and> fs_home_shadow (ep_fs ep) \<and> metadata_denied (ep_net ep)
      \<and> redirect_violations (ep_fs ep) = [])"
  by (simp add: validate_def Let_def)

text \<open>C23. A policy passes the runtime re-assertion exactly when the five process-hardening flags and the home
  shim are on, an invariant deny names the metadata address, and no redirect source lies in, above or
  equal to anything the workload may write: for every redirect and every write grant, exclusive grant
  and persistent home entry, the components of the source and of the writable path never extend one
  another, whatever trailing slashes, dots and parent references the strings use.\<close>

theorem validate_ok_exact:
  "validate p = Inr () \<longleftrightarrow>
     (let ep = sp_effective_policy p; fs = ep_fs ep in
      cap_no_new_privs (ep_cap ep)
      \<and> ex_deny_setuid (ep_exec ep) \<and> ex_deny_setgid (ep_exec ep)
      \<and> ex_deny_setcap (ep_exec ep) \<and> ex_deny_writable (ep_exec ep)
      \<and> fs_home_shadow fs
      \<and> (\<exists>d \<in> set (net_deny_invariant (ep_net ep)). nr_cidr d = ''169.254.169.254'')
      \<and> (\<forall>r \<in> set (fs_redirect fs).
           \<forall>w \<in> normalize_grant ` (set (fs_write fs) \<union> set (fs_exclusive fs)) \<union> normalize_persist ` set (fs_home_persist fs).
             (\<forall>rest. clean_components (rd_source r) \<noteq> clean_components w @ rest)
             \<and> (\<forall>rest. clean_components w \<noteq> clean_components (rd_source r) @ rest)))"
proof -
  have "set (writable_surface fs) =
      normalize_grant ` (set (fs_write fs) \<union> set (fs_exclusive fs)) \<union> normalize_persist ` set (fs_home_persist fs)" for fs
    by (auto simp: writable_surface_def)
  then show ?thesis
    by (simp add: validate_ok_iff redirect_violations_empty_iff paths_intersect_iff metadata_denied_def
      list_ex_iff Let_def)
qed

text \<open>An example with a redirect: the source \<open>~/store/cred\<close> and the write grant \<open>~/work/**\<close>, with a persistent
  \<open>.cache\<close> in the home.\<close>

definition redirect_policy :: SettledPolicy where
  "redirect_policy = floor_policy
     \<lparr>sp_effective_policy := (sp_effective_policy floor_policy)
        \<lparr>ep_fs := (ep_fs (sp_effective_policy floor_policy))
           \<lparr>fs_redirect := [\<lparr>rd_path = ''~/.cred'', rd_source = ''~/store/cred''\<rparr>],
            fs_write := [''~/work/**''], fs_home_persist := [''.cache'']\<rparr>\<rparr>\<rparr>"

lemmas path_eval = clean_components_def paths_intersect_def normalize_grant_def normalize_persist_def
  writable_surface_def strip_suffix_def

lemma redirect_policy_valid: "validate redirect_policy = Inr ()"
  by (simp add: validate_ok_iff redirect_policy_def floor_policy_def metadata_denied_def floor_net_def
    redirect_violations_empty_iff path_eval starts_with_def)

theorem validate_ok_exact_witness:
  "(\<forall>rest. clean_components ''~/store/cred'' \<noteq> clean_components (normalize_grant ''~/work/**'') @ rest)
   \<and> (\<forall>rest. clean_components ''~/store/cred'' \<noteq> clean_components (normalize_persist ''.cache'') @ rest)"
  using validate_ok_exact [of redirect_policy, THEN iffD1, OF redirect_policy_valid]
  by (simp add: redirect_policy_def floor_policy_def)

end
