(* ===== verification/Spawn_Patch.thy ===== *)
theory Spawn_Patch
  imports Policy_Invariant
begin

text \<open>
  Dynamic spawning, the verify half (\<open>kennel-lib-policy/src/variant.rs\<close>, \<open>patch.rs\<close> and
  \<open>spawn.rs\<close>): the constraint family of the signed manifest, the application of an agent's patch to a
  template, and the eligibility of a template.  An error message is a constructor with the values the
  message quotes.  The lemmas confine what a patch can change: which fields, with which values, how
  often, and where a relative path can point.
\<close>

section \<open>Destinations and patterns\<close>

record PatternDest =
  pd_host :: string
  pd_port :: u16

datatype DestError = MissingPort | EmptyHost | HostHasColon | BadPort string | PortZero
  | MalformedSuffix | MalformedPrefix | InteriorWildcard | ManyWildcards

definition Destination_parse :: "string \<Rightarrow> DestError + PatternDest" where
  "Destination_parse value =
     (case rsplit_once CHR '':'' value of
        None \<Rightarrow> Inl MissingPort
      | Some (host, port) \<Rightarrow>
          if host = [] then Inl EmptyHost
          else if List.member host CHR '':'' then Inl HostHasColon
          else (case parse_u16 port of
              None \<Rightarrow> Inl (BadPort port)
            | Some p \<Rightarrow> if p = 0 then Inl PortZero else Inr \<lparr>pd_host = host, pd_port = p\<rparr>))"

datatype HostPattern = HostExact string | HostSuffix string | HostPrefix string

record DestPattern =
  dp_host :: HostPattern
  dp_port :: u16

definition HostPattern_parse :: "string \<Rightarrow> DestError + HostPattern" where
  "HostPattern_parse host =
     (let stars = length (filter (\<lambda>c. c = CHR ''*'') host) in
      if stars = 0 then Inr (HostExact host)
      else if stars = 1 then
        (case strip_prefix ''*.'' host of
           Some suffix \<Rightarrow>
             if suffix = [] \<or> List.member suffix CHR ''*'' then Inl MalformedSuffix
             else Inr (HostSuffix suffix)
         | None \<Rightarrow>
             (case strip_suffix ''.*'' host of
                Some prefix \<Rightarrow>
                  if prefix = [] \<or> List.member prefix CHR ''*'' then Inl MalformedPrefix
                  else Inr (HostPrefix prefix)
              | None \<Rightarrow> Inl InteriorWildcard))
      else Inl ManyWildcards)"

definition DestPattern_parse :: "string \<Rightarrow> DestError + DestPattern" where
  "DestPattern_parse pattern =
     (case rsplit_once CHR '':'' pattern of
        None \<Rightarrow> Inl MissingPort
      | Some (host, port) \<Rightarrow>
          (case parse_u16 port of
             None \<Rightarrow> Inl (BadPort port)
           | Some p \<Rightarrow>
               if p = 0 then Inl PortZero
               else if host = [] then Inl EmptyHost
               else (case HostPattern_parse host of
                   Inl e \<Rightarrow> Inl e
                 | Inr h \<Rightarrow> Inr \<lparr>dp_host = h, dp_port = p\<rparr>)))"

fun matches_host :: "HostPattern \<Rightarrow> string \<Rightarrow> bool" where
  "matches_host (HostExact h) host \<longleftrightarrow> h = host"
| "matches_host (HostSuffix suffix) host \<longleftrightarrow>
     host = suffix
     \<or> (case strip_suffix suffix host of
          None \<Rightarrow> False
        | Some head \<Rightarrow> head \<noteq> [] \<and> last head = CHR ''.'' \<and> length head > 1)"
| "matches_host (HostPrefix prefix) host \<longleftrightarrow>
     (case strip_prefix prefix host of
        None \<Rightarrow> False
      | Some tail \<Rightarrow>
          (case strip_prefix ''.'' tail of
             None \<Rightarrow> False
           | Some last_label \<Rightarrow> last_label \<noteq> [] \<and> \<not> List.member last_label CHR ''.''))"

definition DestPattern_matches :: "DestPattern \<Rightarrow> PatternDest \<Rightarrow> bool" where
  "DestPattern_matches p dest \<longleftrightarrow> dp_port p = pd_port dest \<and> matches_host (dp_host p) (pd_host dest)"

section \<open>Constraints\<close>

datatype Constraint =
    OneOf "string list"
  | Pool "string list" u32
  | Pattern "DestPattern list"
  | Relpath string
  | Freeform string

datatype MalformedVariant =
    WrongKindCount nat
  | EmptyPool
  | NoPoolMax
  | BadPattern string DestError
  | NoReason

datatype VariantDenied =
    NotMember string string "string list"
  | NotADestination string DestError
  | MatchesNoPattern string
  | RelpathEmpty
  | RelpathAbsolute
  | RelpathEmptyComponent string
  | RelpathTraversal string

fun parse_patterns :: "string list \<Rightarrow> MalformedVariant + DestPattern list" where
  "parse_patterns [] = Inr []"
| "parse_patterns (p # ps) =
     (case DestPattern_parse p of
        Inl e \<Rightarrow> Inl (BadPattern p e)
      | Inr d \<Rightarrow> (case parse_patterns ps of Inl e \<Rightarrow> Inl e | Inr ds \<Rightarrow> Inr (d # ds)))"

definition Variant_resolve :: "Variant \<Rightarrow> MalformedVariant + Constraint" where
  "Variant_resolve v =
     (let is_oneof = va_one_of v \<noteq> [];
          is_pool = va_pool v \<noteq> [] \<or> va_pool_max v \<noteq> 0;
          is_pattern = va_pattern v \<noteq> [];
          is_relpath = va_relpath_under v \<noteq> [];
          is_freeform = va_freeform v;
          kinds = length (filter id [is_oneof, is_pool, is_pattern, is_relpath, is_freeform])
      in if kinds \<noteq> 1 then Inl (WrongKindCount kinds)
         else if is_oneof then Inr (OneOf (va_one_of v))
         else if is_pool then
           (if va_pool v = [] then Inl EmptyPool
            else if va_pool_max v = 0 then Inl NoPoolMax
            else Inr (Pool (va_pool v) (va_pool_max v)))
         else if is_pattern then
           (case parse_patterns (va_pattern v) of Inl e \<Rightarrow> Inl e | Inr pats \<Rightarrow> Inr (Pattern pats))
         else if is_relpath then Inr (Relpath (va_relpath_under v))
         else if trim (va_reason v) = [] then Inl NoReason
         else Inr (Freeform (va_reason v)))"

definition member_of :: "string \<Rightarrow> string list \<Rightarrow> string \<Rightarrow> VariantDenied + unit" where
  "member_of value xs kind = (if List.member xs value then Inr () else Inl (NotMember value kind xs))"

fun admit_components :: "string \<Rightarrow> string list \<Rightarrow> VariantDenied + unit" where
  "admit_components value [] = Inr ()"
| "admit_components value (c # cs) =
     (if c = [] then Inl (RelpathEmptyComponent value)
      else if c = ''.'' \<or> c = ''..'' then Inl (RelpathTraversal value)
      else admit_components value cs)"

definition admit_relpath :: "string \<Rightarrow> VariantDenied + unit" where
  "admit_relpath value =
     (if value = [] then Inl RelpathEmpty
      else if starts_with ''/'' value then Inl RelpathAbsolute
      else admit_components value (split_on CHR ''/'' value))"

fun Constraint_admits :: "Constraint \<Rightarrow> string \<Rightarrow> VariantDenied + unit" where
  "Constraint_admits (OneOf xs) value = member_of value xs ''oneof''"
| "Constraint_admits (Pool xs mx) value = member_of value xs ''pool''"
| "Constraint_admits (Pattern pats) value =
     (case Destination_parse value of
        Inl e \<Rightarrow> Inl (NotADestination value e)
      | Inr dest \<Rightarrow>
          if list_ex (\<lambda>p. DestPattern_matches p dest) pats then Inr ()
          else Inl (MatchesNoPattern value))"
| "Constraint_admits (Relpath root) value = admit_relpath value"
| "Constraint_admits (Freeform reason) value = Inr ()"

fun is_open :: "Constraint \<Rightarrow> bool" where
  "is_open (Pattern _) = True"
| "is_open (Relpath _) = True"
| "is_open (Freeform _) = True"
| "is_open _ = False"

fun max_entries :: "Constraint \<Rightarrow> u32 option" where
  "max_entries (Pool _ mx) = Some mx"
| "max_entries (OneOf _) = Some 1"
| "max_entries (Relpath _) = Some 1"
| "max_entries (Freeform _) = Some 1"
| "max_entries (Pattern _) = None"

section \<open>Applying a patch\<close>

record PatchEntry =
  pe_field :: string
  pe_value :: string

datatype PatchError =
    NotMutable string
  | BadDestination string DestError
  | OutOfManifest string
  | Malformed string MalformedVariant
  | Refused VariantDenied
  | ExceedsCap string u32

definition is_mutable_field :: "string \<Rightarrow> bool" where
  "is_mutable_field field \<longleftrightarrow>
     field = ''net.proxy.allow'' \<or> field = ''fs.read'' \<or> field = ''fs.write''
     \<or> field = ''rootfs.writable'' \<or> field = ''workload.argv''"

definition upd_net :: "(NetPolicy \<Rightarrow> NetPolicy) \<Rightarrow> SettledPolicy \<Rightarrow> SettledPolicy" where
  "upd_net f p = p\<lparr>sp_effective_policy := (sp_effective_policy p)\<lparr>ep_net := f (ep_net (sp_effective_policy p))\<rparr>\<rparr>"

definition upd_fs :: "(FsPolicy \<Rightarrow> FsPolicy) \<Rightarrow> SettledPolicy \<Rightarrow> SettledPolicy" where
  "upd_fs f p = p\<lparr>sp_effective_policy := (sp_effective_policy p)\<lparr>ep_fs := f (ep_fs (sp_effective_policy p))\<rparr>\<rparr>"

definition apply_net_proxy_allow :: "SettledPolicy \<Rightarrow> string \<Rightarrow> PatchError + SettledPolicy" where
  "apply_net_proxy_allow policy value =
     (case Destination_parse value of
        Inl e \<Rightarrow> Inl (BadDestination value e)
      | Inr dest \<Rightarrow> Inr (upd_net (\<lambda>net.
          (case parse_ip (pd_host dest) of
             Some ip \<Rightarrow>
               net\<lparr>net_allow := net_allow net @
                 [\<lparr>nr_cidr = pd_host dest,
                   nr_prefix_len = (case ip of V4 _ \<Rightarrow> 32 | V6 _ \<Rightarrow> 128),
                   nr_port_min = pd_port dest, nr_port_max = pd_port dest,
                   nr_protocol = ProtoTcp\<rparr>]\<rparr>
           | None \<Rightarrow>
               net\<lparr>net_allow_names := net_allow_names net @
                 [\<lparr>nm_name = pd_host dest, nm_ports = [pd_port dest],
                   nm_protocol = ProtoTcp\<rparr>]\<rparr>)) policy))"

definition apply_field :: "SettledPolicy \<Rightarrow> string \<Rightarrow> string \<Rightarrow> PatchError + SettledPolicy" where
  "apply_field policy field value =
     (if field = ''net.proxy.allow'' then apply_net_proxy_allow policy value
      else if field = ''fs.read'' then Inr (upd_fs (\<lambda>fs. fs\<lparr>fs_read := fs_read fs @ [value]\<rparr>) policy)
      else if field = ''fs.write'' then Inr (upd_fs (\<lambda>fs. fs\<lparr>fs_write := fs_write fs @ [value]\<rparr>) policy)
      else if field = ''rootfs.writable'' then
        Inr (policy\<lparr>sp_rootfs := (sp_rootfs policy)\<lparr>rf_writable := rf_writable (sp_rootfs policy) @ [value]\<rparr>\<rparr>)
      else if field = ''workload.argv'' then
        Inr (policy\<lparr>sp_workload := (sp_workload policy)\<lparr>wl_argv := wl_argv (sp_workload policy) @ [value]\<rparr>\<rparr>)
      else Inl (NotMutable field))"

text \<open>The value that is applied: a relative path is joined below the signed root.\<close>

fun applied_value :: "Constraint \<Rightarrow> string \<Rightarrow> string" where
  "applied_value (Relpath root) value = trim_end_matches CHR ''/'' root @ ''/'' @ value"
| "applied_value _ value = value"

text \<open>The cap an entry exceeds, if any; \<open>workload.argv\<close> is exempt.\<close>

definition cap_exceeded :: "string \<Rightarrow> Constraint \<Rightarrow> nat \<Rightarrow> u32 option" where
  "cap_exceeded field constraint count =
     (if field \<noteq> ''workload.argv'' then
        (case max_entries constraint of
           Some mx \<Rightarrow> if count > unat mx then Some mx else None
         | None \<Rightarrow> None)
      else None)"

text \<open>One round of the loop: the running instance and the entry count of each field.\<close>

definition apply_entry ::
    "SettledPolicy \<Rightarrow> SettledPolicy \<times> (string \<Rightarrow> nat) \<Rightarrow> PatchEntry \<Rightarrow>
     PatchError + SettledPolicy \<times> (string \<Rightarrow> nat)" where
  "apply_entry template st entry =
     (case st of (inst, counts) \<Rightarrow>
        (case find (\<lambda>v. va_field v = pe_field entry) (sp_manifest template) of
           None \<Rightarrow> Inl (OutOfManifest (pe_field entry))
         | Some variant \<Rightarrow>
             (case Variant_resolve variant of
                Inl e \<Rightarrow> Inl (Malformed (va_field variant) e)
              | Inr constraint \<Rightarrow>
                  (case Constraint_admits constraint (pe_value entry) of
                     Inl d \<Rightarrow> Inl (Refused d)
                   | Inr _ \<Rightarrow>
                       (let count = sat_add u32_max (counts (pe_field entry)) 1 in
                        case cap_exceeded (pe_field entry) constraint count of
                          Some mx \<Rightarrow> Inl (ExceedsCap (pe_field entry) mx)
                        | None \<Rightarrow>
                            (case apply_field inst (pe_field entry)
                                    (applied_value constraint (pe_value entry)) of
                               Inl e \<Rightarrow> Inl e
                             | Inr inst' \<Rightarrow> Inr (inst', counts(pe_field entry := count))))))))"

fun apply_entries ::
    "SettledPolicy \<Rightarrow> SettledPolicy \<times> (string \<Rightarrow> nat) \<Rightarrow> PatchEntry list \<Rightarrow>
     PatchError + SettledPolicy \<times> (string \<Rightarrow> nat)" where
  "apply_entries template st [] = Inr st"
| "apply_entries template st (e # es) =
     (case apply_entry template st e of Inl x \<Rightarrow> Inl x | Inr st' \<Rightarrow> apply_entries template st' es)"

definition clear_argv :: "SettledPolicy \<Rightarrow> SettledPolicy" where
  "clear_argv p = p\<lparr>sp_workload := (sp_workload p)\<lparr>wl_argv := []\<rparr>\<rparr>"

definition instantiate :: "SettledPolicy \<Rightarrow> PatchEntry list \<Rightarrow> PatchError + SettledPolicy" where
  "instantiate template patch =
     (let inst = (if list_ex (\<lambda>e. pe_field e = ''workload.argv'') patch then clear_argv template
                  else template)
      in case apply_entries template (inst, \<lambda>_. 0) patch of
           Inl e \<Rightarrow> Inl e
         | Inr (inst', _) \<Rightarrow> Inr (inst'\<lparr>sp_manifest := []\<rparr>))"

section \<open>Eligibility\<close>

datatype SpawnError = HasSpawnGrant | NoTtl | NoCeiling string | PinMismatch | UndeclaredNarrowing string string

fun require_ceilings :: "(string \<rightharpoonup> string) \<Rightarrow> string list \<Rightarrow> SpawnError + unit" where
  "require_ceilings limits [] = Inr ()"
| "require_ceilings limits (k # ks) =
     (if limits k = None then Inl (NoCeiling k) else require_ceilings limits ks)"

definition REQUIRED_CEILINGS :: "string list" where
  "REQUIRED_CEILINGS = [''as'', ''nproc'', ''cpu'']"

definition spawn_eligible :: "SettledPolicy \<Rightarrow> SpawnError + unit" where
  "spawn_eligible template =
     (if sp_spawn template \<noteq> None then Inl HasSpawnGrant
      else if lc_ttl_seconds (ep_lifecycle (sp_effective_policy template)) = None then Inl NoTtl
      else require_ceilings (sp_ulimits template) REQUIRED_CEILINGS)"

section \<open>The loop\<close>

text \<open>The constraint the manifest puts on a field, and the value an entry contributes.\<close>

definition constraint_of :: "SettledPolicy \<Rightarrow> string \<Rightarrow> Constraint option" where
  "constraint_of template field =
     (case find (\<lambda>v. va_field v = field) (sp_manifest template) of
        None \<Rightarrow> None
      | Some v \<Rightarrow> (case Variant_resolve v of Inl _ \<Rightarrow> None | Inr c \<Rightarrow> Some c))"

definition entry_value :: "SettledPolicy \<Rightarrow> PatchEntry \<Rightarrow> string" where
  "entry_value template e =
     (case constraint_of template (pe_field e) of
        Some c \<Rightarrow> applied_value c (pe_value e) | None \<Rightarrow> pe_value e)"

lemma apply_entry_Inr:
  assumes "apply_entry t (inst, counts) e = Inr (inst', counts')"
  obtains c where "constraint_of t (pe_field e) = Some c" "Constraint_admits c (pe_value e) = Inr ()"
    "counts' = counts(pe_field e := sat_add u32_max (counts (pe_field e)) 1)"
    "cap_exceeded (pe_field e) c (counts' (pe_field e)) = None"
    "apply_field inst (pe_field e) (entry_value t e) = Inr inst'"
  using assms that
  by (auto simp: apply_entry_def constraint_of_def entry_value_def Let_def
    split: option.splits sum.splits)

text \<open>The counter of a field is the number of its entries so far, up to saturation.\<close>

definition entries_for :: "string \<Rightarrow> PatchEntry list \<Rightarrow> PatchEntry list" where
  "entries_for f es = filter (\<lambda>e. pe_field e = f) es"

lemma entries_for_simps [simp]:
  "entries_for f [] = []"
  "entries_for f (e # es) = (if pe_field e = f then e # entries_for f es else entries_for f es)"
  by (simp_all add: entries_for_def)

lemma cap_exceeded_None_iff:
  "cap_exceeded f c n = None \<longleftrightarrow> (f = ''workload.argv'' \<or> (\<forall>mx. max_entries c = Some mx \<longrightarrow> n \<le> unat mx))"
  by (auto simp: cap_exceeded_def split: option.splits)

lemma sat_add_assoc: "sat_add hi (sat_add hi a b) c = sat_add hi a (b + c)"
  by (simp add: sat_add_def)

lemma apply_entries_counts:
  "apply_entries t (inst, counts) es = Inr (inst', counts') \<Longrightarrow> \<forall>f. counts f \<le> u32_max \<Longrightarrow>
     counts' f = sat_add u32_max (counts f) (length (entries_for f es))"
proof (induction es arbitrary: inst counts)
  case Nil
  then show ?case by (simp add: sat_add_def)
next
  case (Cons e es)
  from Cons.prems obtain i1 c1 where step: "apply_entry t (inst, counts) e = Inr (i1, c1)"
    and rest: "apply_entries t (i1, c1) es = Inr (inst', counts')"
    by (auto split: sum.splits)
  from step have c1: "c1 = counts(pe_field e := sat_add u32_max (counts (pe_field e)) 1)"
    by (rule apply_entry_Inr)
  with Cons.prems(2) have "\<forall>f. c1 f \<le> u32_max" by simp
  from Cons.IH [OF rest this] c1 show ?case
    using Cons.prems(2) by (auto simp: sat_add_assoc)
qed

text \<open>Every entry of a successful patch was admitted by the manifest's constraint and applied.\<close>

lemma apply_entries_admitted:
  "apply_entries t (inst, counts) es = Inr (inst', counts') \<Longrightarrow> e \<in> set es \<Longrightarrow>
     \<exists>c. constraint_of t (pe_field e) = Some c \<and> Constraint_admits c (pe_value e) = Inr ()"
proof (induction es arbitrary: inst counts)
  case (Cons x es)
  from Cons.prems obtain i1 c1 where step: "apply_entry t (inst, counts) x = Inr (i1, c1)"
    and rest: "apply_entries t (i1, c1) es = Inr (inst', counts')"
    by (auto split: sum.splits)
  show ?case
  proof (cases "e = x")
    case True
    from step show ?thesis by (rule apply_entry_Inr) (use True in auto)
  next
    case False
    with Cons.IH [OF rest] Cons.prems(2) show ?thesis by simp
  qed
qed simp

text \<open>The cap holds at every prefix, hence at the last entry of each field.\<close>

lemma apply_entries_capped:
  "apply_entries t (inst, counts) es = Inr (inst', counts') \<Longrightarrow> entries_for f es \<noteq> [] \<Longrightarrow>
     \<exists>c. constraint_of t f = Some c \<and> cap_exceeded f c (counts' f) = None"
proof (induction es arbitrary: inst counts)
  case (Cons x es)
  from Cons.prems obtain i1 c1 where step: "apply_entry t (inst, counts) x = Inr (i1, c1)"
    and rest: "apply_entries t (i1, c1) es = Inr (inst', counts')"
    by (auto split: sum.splits)
  show ?case
  proof (cases "entries_for f es = []")
    case False
    with Cons.IH [OF rest] show ?thesis by simp
  next
    case True
    have "pe_field x = f" using Cons.prems(2) True by (simp split: if_splits)
    moreover have "counts' g = c1 g" if "entries_for g es = []" for g
      using rest that
    proof (induction es arbitrary: i1 c1)
      case (Cons y ys)
      then show ?case by (auto split: sum.splits if_splits elim!: apply_entry_Inr)
    qed simp
    ultimately show ?thesis using step True by (auto elim!: apply_entry_Inr)
  qed
qed simp

lemma apply_entries_mutable:
  "apply_entries t (inst, counts) es = Inr (inst', counts') \<Longrightarrow> e \<in> set es \<Longrightarrow>
     is_mutable_field (pe_field e)"
proof (induction es arbitrary: inst counts)
  case (Cons x es)
  from Cons.prems obtain i1 c1 where step: "apply_entry t (inst, counts) x = Inr (i1, c1)"
    and rest: "apply_entries t (i1, c1) es = Inr (inst', counts')"
    by (auto split: sum.splits)
  from step have "apply_field inst (pe_field x) (entry_value t x) = Inr i1" by (rule apply_entry_Inr)
  then have "is_mutable_field (pe_field x)"
    by (auto simp: apply_field_def is_mutable_field_def split: if_splits)
  with Cons.IH [OF rest] Cons.prems(2) show ?case by auto
qed simp

text \<open>An admitted relative path has plain components, and trailing slashes of the root do not matter.\<close>

lemma admit_components_plain:
  "admit_components v cs = Inr () \<Longrightarrow> c \<in> set cs \<Longrightarrow> CHR ''/'' \<notin> set c \<Longrightarrow> plain_component c"
  by (induction cs) (auto simp: plain_component_def split: if_splits)

lemma clean_components_snoc_slash: "clean_components (s @ ''/'') = clean_components s"
  using clean_components_join [of s "[]"] by simp

lemma takeWhile_eq_replicate: "takeWhile (\<lambda>x. x = c) xs = replicate (length (takeWhile (\<lambda>x. x = c) xs)) c"
  by (induction xs) auto

lemma trim_end_matches_append: "\<exists>n. s = trim_end_matches c s @ replicate n c"
proof -
  have "rev s = takeWhile (\<lambda>x. x = c) (rev s) @ dropWhile (\<lambda>x. x = c) (rev s)" by simp
  then have "rev (rev s) = rev (dropWhile (\<lambda>x. x = c) (rev s)) @ rev (takeWhile (\<lambda>x. x = c) (rev s))"
    by (metis rev_append)
  then have "s = trim_end_matches c s @ rev (takeWhile (\<lambda>x. x = c) (rev s))"
    by (simp only: trim_end_matches_def rev_rev_ident)
  also have "rev (takeWhile (\<lambda>x. x = c) (rev s)) = replicate (length (takeWhile (\<lambda>x. x = c) (rev s))) c"
    by (subst takeWhile_eq_replicate) simp
  finally show ?thesis by (rule exI)
qed

lemma clean_components_trim_slash:
  "clean_components (trim_end_matches CHR ''/'' s) = clean_components s"
proof -
  have slashes: "clean_components (r @ replicate n CHR ''/'') = clean_components r" for r n
  proof (induction n)
    case (Suc n)
    have "r @ replicate (Suc n) CHR ''/'' = (r @ replicate n CHR ''/'') @ ''/''"
      by (simp add: replicate_append_same)
    then show ?case by (simp only: clean_components_snoc_slash Suc.IH)
  qed simp
  obtain n where "s = trim_end_matches CHR ''/'' s @ replicate n CHR ''/''"
    using trim_end_matches_append by blast
  with slashes [of "trim_end_matches CHR ''/'' s" n] show ?thesis by simp
qed

section \<open>What a patch leaves alone\<close>

abbreviation fs_of :: "SettledPolicy \<Rightarrow> FsPolicy" where
  "fs_of p \<equiv> ep_fs (sp_effective_policy p)"

abbreviation net_of :: "SettledPolicy \<Rightarrow> NetPolicy" where
  "net_of p \<equiv> ep_net (sp_effective_policy p)"

text \<open>A policy with its mutable leaves and its manifest blanked: everything a patch must not touch.\<close>

definition frozen :: "SettledPolicy \<Rightarrow> SettledPolicy" where
  "frozen p = (upd_net (\<lambda>n. n\<lparr>net_allow := [], net_allow_names := []\<rparr>)
     (upd_fs (\<lambda>f. f\<lparr>fs_read := [], fs_write := []\<rparr>) p))
       \<lparr>sp_rootfs := (sp_rootfs p)\<lparr>rf_writable := []\<rparr>, sp_workload := (sp_workload p)\<lparr>wl_argv := []\<rparr>,
        sp_manifest := []\<rparr>"

lemma apply_field_effect:
  assumes "apply_field p f v = Inr p'"
  shows "frozen p' = frozen p"
    "fs_read (fs_of p') = fs_read (fs_of p) @ (if f = ''fs.read'' then [v] else [])"
    "fs_write (fs_of p') = fs_write (fs_of p) @ (if f = ''fs.write'' then [v] else [])"
    "rf_writable (sp_rootfs p') = rf_writable (sp_rootfs p) @ (if f = ''rootfs.writable'' then [v] else [])"
    "wl_argv (sp_workload p') = wl_argv (sp_workload p) @ (if f = ''workload.argv'' then [v] else [])"
    "f \<noteq> ''net.proxy.allow'' \<Longrightarrow> net_allow (net_of p') = net_allow (net_of p) \<and>
       net_allow_names (net_of p') = net_allow_names (net_of p)"
    "is_mutable_field f"
  using assms
  by (auto simp: apply_field_def apply_net_proxy_allow_def frozen_def upd_fs_def upd_net_def
    is_mutable_field_def split: if_splits sum.splits option.splits)

text \<open>The rules a \<open>net.proxy.allow\<close> entry adds: one TCP rule for exactly the destination's host and port.\<close>

definition rule_for :: "PatternDest \<Rightarrow> NetRule list \<times> NameRule list" where
  "rule_for dest =
     (case parse_ip (pd_host dest) of
        Some ip \<Rightarrow> ([\<lparr>nr_cidr = pd_host dest, nr_prefix_len = (case ip of V4 _ \<Rightarrow> 32 | V6 _ \<Rightarrow> 128),
                     nr_port_min = pd_port dest, nr_port_max = pd_port dest, nr_protocol = ProtoTcp\<rparr>], [])
      | None \<Rightarrow> ([], [\<lparr>nm_name = pd_host dest, nm_ports = [pd_port dest], nm_protocol = ProtoTcp\<rparr>]))"

lemma apply_net_effect:
  assumes "apply_field p ''net.proxy.allow'' v = Inr p'"
  obtains dest where "Destination_parse v = Inr dest"
    "net_allow (net_of p') = net_allow (net_of p) @ fst (rule_for dest)"
    "net_allow_names (net_of p') = net_allow_names (net_of p) @ snd (rule_for dest)"
  using assms that
  by (auto simp: apply_field_def apply_net_proxy_allow_def upd_net_def rule_for_def
    split: sum.splits option.splits)

lemma apply_entries_effect:
  "apply_entries t (p, counts) es = Inr (p', counts') \<Longrightarrow>
     frozen p' = frozen p
     \<and> fs_read (fs_of p') = fs_read (fs_of p) @ map (entry_value t) (entries_for ''fs.read'' es)
     \<and> fs_write (fs_of p') = fs_write (fs_of p) @ map (entry_value t) (entries_for ''fs.write'' es)
     \<and> rf_writable (sp_rootfs p') = rf_writable (sp_rootfs p) @ map (entry_value t) (entries_for ''rootfs.writable'' es)
     \<and> wl_argv (sp_workload p') = wl_argv (sp_workload p) @ map (entry_value t) (entries_for ''workload.argv'' es)"
proof (induction es arbitrary: p counts)
  case (Cons e es)
  from Cons.prems obtain p1 c1 where step: "apply_entry t (p, counts) e = Inr (p1, c1)"
    and rest: "apply_entries t (p1, c1) es = Inr (p', counts')"
    by (auto split: sum.splits)
  from step have f: "apply_field p (pe_field e) (entry_value t e) = Inr p1"
    by (rule apply_entry_Inr)
  show ?case
    using Cons.IH [OF rest] apply_field_effect(1-5) [OF f] by auto
qed simp

lemma apply_entries_net:
  "apply_entries t (p, counts) es = Inr (p', counts') \<Longrightarrow>
     \<exists>dests. map (\<lambda>e. Destination_parse (entry_value t e)) (entries_for ''net.proxy.allow'' es) = map Inr dests
       \<and> net_allow (net_of p') = net_allow (net_of p) @ concat (map (\<lambda>d. fst (rule_for d)) dests)
       \<and> net_allow_names (net_of p') = net_allow_names (net_of p) @ concat (map (\<lambda>d. snd (rule_for d)) dests)"
proof (induction es arbitrary: p counts)
  case (Cons e es)
  from Cons.prems obtain p1 c1 where step: "apply_entry t (p, counts) e = Inr (p1, c1)"
    and rest: "apply_entries t (p1, c1) es = Inr (p', counts')"
    by (auto split: sum.splits)
  from step have f: "apply_field p (pe_field e) (entry_value t e) = Inr p1"
    by (rule apply_entry_Inr)
  from Cons.IH [OF rest] obtain dests where d:
    "map (\<lambda>e. Destination_parse (entry_value t e)) (entries_for ''net.proxy.allow'' es) = map Inr dests"
    "net_allow (net_of p') = net_allow (net_of p1) @ concat (map (\<lambda>d. fst (rule_for d)) dests)"
    "net_allow_names (net_of p') = net_allow_names (net_of p1) @ concat (map (\<lambda>d. snd (rule_for d)) dests)"
    by blast
  show ?case
  proof (cases "pe_field e = ''net.proxy.allow''")
    case False
    with apply_field_effect(6) [OF f] d show ?thesis by (intro exI [of _ dests]) simp
  next
    case True
    with f obtain dest where "Destination_parse (entry_value t e) = Inr dest"
      "net_allow (net_of p1) = net_allow (net_of p) @ fst (rule_for dest)"
      "net_allow_names (net_of p1) = net_allow_names (net_of p) @ snd (rule_for dest)"
      by (auto elim: apply_net_effect)
    with True d show ?thesis by (intro exI [of _ "dest # dests"]) simp
  qed
qed simp

section \<open>The instance\<close>

lemma instantiate_Inr:
  assumes "instantiate t patch = Inr i"
  obtains p counts where "i = p\<lparr>sp_manifest := []\<rparr>"
    "apply_entries t (if entries_for ''workload.argv'' patch = [] then t else clear_argv t, \<lambda>_. 0) patch
       = Inr (p, counts)"
proof -
  have "list_ex (\<lambda>e. pe_field e = ''workload.argv'') patch \<longleftrightarrow> entries_for ''workload.argv'' patch \<noteq> []"
    by (auto simp: list_ex_iff entries_for_def filter_empty_conv)
  with assms that show thesis
    by (auto simp: instantiate_def Let_def split: sum.splits if_splits)
qed

lemma frozen_idem [simp]: "frozen (clear_argv p) = frozen p" "frozen (p\<lparr>sp_manifest := m\<rparr>) = frozen p"
  by (simp_all add: frozen_def clear_argv_def upd_fs_def upd_net_def)

lemma clear_argv_simps [simp]:
  "sp_effective_policy (clear_argv p) = sp_effective_policy p" "sp_rootfs (clear_argv p) = sp_rootfs p"
  "wl_argv (sp_workload (clear_argv p)) = []"
  by (simp_all add: clear_argv_def)

lemma instance_effect:
  assumes "instantiate t patch = Inr i"
  shows "frozen i = frozen t" "sp_manifest i = []"
    "fs_read (fs_of i) = fs_read (fs_of t) @ map (entry_value t) (entries_for ''fs.read'' patch)"
    "fs_write (fs_of i) = fs_write (fs_of t) @ map (entry_value t) (entries_for ''fs.write'' patch)"
    "rf_writable (sp_rootfs i) = rf_writable (sp_rootfs t) @ map (entry_value t) (entries_for ''rootfs.writable'' patch)"
    "wl_argv (sp_workload i) = (if entries_for ''workload.argv'' patch = [] then wl_argv (sp_workload t)
       else map (entry_value t) (entries_for ''workload.argv'' patch))"
  using assms by (auto elim!: instantiate_Inr dest!: apply_entries_effect split: if_splits)

text \<open>C2. An instantiated policy differs from its signed template in the five mutable leaves only: the rest,
  with every deny rule, exec grant, hardening flag, time limit, resource ceiling and spawn grant, is
  identical, the manifest is consumed, the file-system lists keep the template's entries and gain
  exactly the patch's admitted values in order, and the command line is either the template's or
  exactly the patch's.\<close>

theorem instance_confined:
  assumes "instantiate t patch = Inr i"
  shows "frozen i = frozen t \<and> sp_manifest i = []
    \<and> fs_read (fs_of i) = fs_read (fs_of t) @ map (entry_value t) (entries_for ''fs.read'' patch)
    \<and> fs_write (fs_of i) = fs_write (fs_of t) @ map (entry_value t) (entries_for ''fs.write'' patch)
    \<and> rf_writable (sp_rootfs i) =
        rf_writable (sp_rootfs t) @ map (entry_value t) (entries_for ''rootfs.writable'' patch)
    \<and> wl_argv (sp_workload i) =
        (if entries_for ''workload.argv'' patch = [] then wl_argv (sp_workload t)
         else map (entry_value t) (entries_for ''workload.argv'' patch))"
  using instance_effect [OF assms] by blast

text \<open>A template whose manifest opens \<open>fs.write\<close> below \<open>~/work\<close>.\<close>

definition work_template :: SettledPolicy where
  "work_template = floor_policy
     \<lparr>sp_manifest := [\<lparr>va_field = ''fs.write'', va_one_of = [], va_pool = [], va_pool_max = 0,
                       va_pattern = [], va_relpath_under = ''~/work/'', va_freeform = False,
                       va_reason = []\<rparr>]\<rparr>"

lemma work_template_constraint:
  "constraint_of work_template ''fs.write'' = Some (Relpath ''~/work/'')"
  by (simp add: constraint_of_def work_template_def Variant_resolve_def)

lemma work_template_instance:
  "instantiate work_template [\<lparr>pe_field = ''fs.write'', pe_value = ''sub/out''\<rparr>] =
     Inr (floor_policy\<lparr>sp_effective_policy := (sp_effective_policy floor_policy)
       \<lparr>ep_fs := (fs_of floor_policy)\<lparr>fs_write := [''~/work/sub/out'']\<rparr>\<rparr>\<rparr>)"
  by (simp add: instantiate_def apply_entry_def work_template_def Variant_resolve_def
    admit_relpath_def starts_with_def sat_add_def u32_max_def cap_exceeded_def apply_field_def upd_fs_def
    trim_end_matches_def floor_policy_def)

theorem instance_confined_witness:
  "frozen (floor_policy\<lparr>sp_effective_policy := (sp_effective_policy floor_policy)
       \<lparr>ep_fs := (fs_of floor_policy)\<lparr>fs_write := [''~/work/sub/out'']\<rparr>\<rparr>\<rparr>) = frozen work_template"
  by (rule instance_confined [OF work_template_instance, THEN conjunct1])

text \<open>C3. No value reaches the instance unchecked: every entry of an accepted patch names a field the signed
  manifest opens and carries a value its constraint admits, the field is one of the mutable leaves,
  and, the command line apart, no field receives more entries than its constraint allows.\<close>

theorem patch_entries_admitted:
  assumes "instantiate t patch = Inr i" "e \<in> set patch" "length patch < 2 ^ 32"
  shows "\<exists>c. constraint_of t (pe_field e) = Some c \<and> Constraint_admits c (pe_value e) = Inr ()
    \<and> is_mutable_field (pe_field e)
    \<and> (pe_field e = ''workload.argv''
       \<or> (\<forall>mx. max_entries c = Some mx \<longrightarrow> length (entries_for (pe_field e) patch) \<le> unat mx))"
proof -
  from assms(1) obtain p counts q where run: "apply_entries t (q, \<lambda>_. 0) patch = Inr (p, counts)"
    by (rule instantiate_Inr) blast
  have ne: "entries_for (pe_field e) patch \<noteq> []"
    using assms(2) by (auto simp: entries_for_def filter_empty_conv)
  from apply_entries_admitted [OF run assms(2)] obtain c where
    c: "constraint_of t (pe_field e) = Some c" "Constraint_admits c (pe_value e) = Inr ()" by blast
  have "length (entries_for (pe_field e) patch) \<le> length patch" by (simp add: entries_for_def)
  then have "counts (pe_field e) = length (entries_for (pe_field e) patch)"
    using apply_entries_counts [OF run, of "pe_field e"] assms(3) by (simp add: u32_max_def)
  with apply_entries_capped [OF run ne] c(1)
  have "cap_exceeded (pe_field e) c (length (entries_for (pe_field e) patch)) = None" by simp
  moreover have "is_mutable_field (pe_field e)" using apply_entries_mutable [OF run assms(2)] .
  ultimately show ?thesis using c by (auto simp: cap_exceeded_None_iff)
qed

theorem patch_entries_admitted_witness:
  "\<exists>c. constraint_of work_template ''fs.write'' = Some c \<and> Constraint_admits c ''sub/out'' = Inr ()"
  using patch_entries_admitted [OF work_template_instance,
      of "\<lparr>pe_field = ''fs.write'', pe_value = ''sub/out''\<rparr>"] by auto

text \<open>A relative path stays under its signed root: when the manifest bounds a file-system field by a root,
  every path the patch adds names the components of the root followed by the components of the
  supplied value, none of which is empty, \<open>.\<close> or \<open>..\<close>; the lexical path is strictly below the root.\<close>

theorem relpath_confined:
  assumes "constraint_of t (pe_field e) = Some (Relpath root)"
    and "Constraint_admits (Relpath root) (pe_value e) = Inr ()"
  shows "clean_components (entry_value t e) = clean_components root @ split_on CHR ''/'' (pe_value e)
    \<and> split_on CHR ''/'' (pe_value e) \<noteq> []"
proof -
  have "list_all plain_component (split_on CHR ''/'' (pe_value e))"
    using assms(2) admit_components_plain split_on_pieces
    by (auto simp: admit_relpath_def list_all_iff split: if_splits)
  moreover have "entry_value t e = trim_end_matches CHR ''/'' root @ CHR ''/'' # pe_value e"
    by (simp add: entry_value_def assms(1))
  ultimately show ?thesis
    by (simp add: clean_components_join foldl_clean_plain clean_components_trim_slash)
qed

theorem relpath_confined_witness:
  "clean_components ''~/work/sub/out'' = clean_components ''~/work/'' @ [''sub'', ''out'']"
  using relpath_confined [of work_template "\<lparr>pe_field = ''fs.write'', pe_value = ''sub/out''\<rparr>" "''~/work/''"]
  by (simp add: work_template_constraint entry_value_def trim_end_matches_def admit_relpath_def
    starts_with_def)

section \<open>Invariants of the instance\<close>

text \<open>The checked parts of a policy are in its frozen part, the write set apart.\<close>

lemma frozen_parts:
  assumes "frozen i = frozen t"
  shows "ep_cap (sp_effective_policy i) = ep_cap (sp_effective_policy t)"
    "ep_exec (sp_effective_policy i) = ep_exec (sp_effective_policy t)"
    "ep_lifecycle (sp_effective_policy i) = ep_lifecycle (sp_effective_policy t)"
    "fs_home_shadow (fs_of i) = fs_home_shadow (fs_of t)" "fs_redirect (fs_of i) = fs_redirect (fs_of t)"
    "fs_exclusive (fs_of i) = fs_exclusive (fs_of t)" "fs_home_persist (fs_of i) = fs_home_persist (fs_of t)"
    "net_deny_invariant (net_of i) = net_deny_invariant (net_of t)"
    "net_deny_author (net_of i) = net_deny_author (net_of t)" "net_mode (net_of i) = net_mode (net_of t)"
    "sp_spawn i = sp_spawn t" "sp_ulimits i = sp_ulimits t"
proof -
  have e: "sp_effective_policy (frozen i) = sp_effective_policy (frozen t)"
    "sp_spawn (frozen i) = sp_spawn (frozen t)" "sp_ulimits (frozen i) = sp_ulimits (frozen t)"
    using assms by simp_all
  have c: "sp_effective_policy (frozen p) =
      (sp_effective_policy p)\<lparr>ep_fs := (fs_of p)\<lparr>fs_read := [], fs_write := []\<rparr>,
         ep_net := (net_of p)\<lparr>net_allow := [], net_allow_names := []\<rparr>\<rparr>"
    "sp_spawn (frozen p) = sp_spawn p" "sp_ulimits (frozen p) = sp_ulimits p" for p
    by (simp_all add: frozen_def upd_fs_def upd_net_def)
  note e1 = e(1) [unfolded c]
  show "sp_spawn i = sp_spawn t" "sp_ulimits i = sp_ulimits t" using e(2,3) by (simp_all only: c)
  show "ep_cap (sp_effective_policy i) = ep_cap (sp_effective_policy t)"
    "ep_exec (sp_effective_policy i) = ep_exec (sp_effective_policy t)"
    "ep_lifecycle (sp_effective_policy i) = ep_lifecycle (sp_effective_policy t)"
    using arg_cong [OF e1, of ep_cap] arg_cong [OF e1, of ep_exec] arg_cong [OF e1, of ep_lifecycle]
    by simp_all
  have fs: "(fs_of i)\<lparr>fs_read := [], fs_write := []\<rparr> = (fs_of t)\<lparr>fs_read := [], fs_write := []\<rparr>"
    using arg_cong [OF e1, of ep_fs] by simp
  show "fs_home_shadow (fs_of i) = fs_home_shadow (fs_of t)" "fs_redirect (fs_of i) = fs_redirect (fs_of t)"
    "fs_exclusive (fs_of i) = fs_exclusive (fs_of t)" "fs_home_persist (fs_of i) = fs_home_persist (fs_of t)"
    using arg_cong [OF fs, of fs_home_shadow] arg_cong [OF fs, of fs_redirect]
      arg_cong [OF fs, of fs_exclusive] arg_cong [OF fs, of fs_home_persist] by simp_all
  have net: "(net_of i)\<lparr>net_allow := [], net_allow_names := []\<rparr> = (net_of t)\<lparr>net_allow := [], net_allow_names := []\<rparr>"
    using arg_cong [OF e1, of ep_net] by simp
  show "net_deny_invariant (net_of i) = net_deny_invariant (net_of t)"
    "net_deny_author (net_of i) = net_deny_author (net_of t)" "net_mode (net_of i) = net_mode (net_of t)"
    using arg_cong [OF net, of net_deny_invariant] arg_cong [OF net, of net_deny_author]
      arg_cong [OF net, of net_mode] by simp_all
qed

lemma instance_eligible:
  assumes "instantiate t patch = Inr i"
  shows "spawn_eligible i = spawn_eligible t"
  by (simp only: spawn_eligible_def frozen_parts [OF instance_effect(1) [OF assms]])

lemma require_ceilings_ok_iff: "require_ceilings limits ks = Inr () \<longleftrightarrow> (\<forall>k \<in> set ks. limits k \<noteq> None)"
  by (induction ks) auto

text \<open>C36. Instantiation keeps the framework invariants of a verified template that has no file redirects, and
  the spawn ceilings of an eligible one: the instance still passes the re-assertion, cannot itself
  spawn, and has a time limit and memory, process and CPU ceilings.\<close>

theorem instance_invariants_kept:
  assumes "instantiate t patch = Inr i" "validate t = Inr ()" "spawn_eligible t = Inr ()"
    and "fs_redirect (fs_of t) = []"
  shows "validate i = Inr () \<and> sp_spawn i = None
    \<and> lc_ttl_seconds (ep_lifecycle (sp_effective_policy i)) \<noteq> None
    \<and> sp_ulimits i ''as'' \<noteq> None \<and> sp_ulimits i ''nproc'' \<noteq> None \<and> sp_ulimits i ''cpu'' \<noteq> None"
proof -
  note same = frozen_parts [OF instance_effect(1) [OF assms(1)]]
  have "validate i = Inr ()"
    using assms(2,4) by (simp add: validate_ok_iff same metadata_denied_def redirect_violations_empty_iff Let_def)
  moreover have "spawn_eligible i = Inr ()" using instance_eligible [OF assms(1)] assms(3) by simp
  ultimately show ?thesis
    by (auto simp: spawn_eligible_def REQUIRED_CEILINGS_def require_ceilings_ok_iff split: if_splits)
qed

theorem instance_invariants_kept_witness:
  "validate (floor_policy\<lparr>sp_effective_policy := (sp_effective_policy floor_policy)
       \<lparr>ep_fs := (fs_of floor_policy)\<lparr>fs_write := [''~/work/sub/out'']\<rparr>\<rparr>\<rparr>) = Inr ()"
proof -
  have "validate work_template = Inr ()"
    by (simp add: validate_ok_iff work_template_def floor_policy_def metadata_denied_def floor_net_def
      redirect_violations_def)
  moreover have "spawn_eligible work_template = Inr ()"
    by (simp add: spawn_eligible_def work_template_def floor_policy_def REQUIRED_CEILINGS_def)
  ultimately show ?thesis
    using instance_invariants_kept [OF work_template_instance] by (simp add: work_template_def floor_policy_def)
qed

text \<open>A verified, eligible template whose redirect source lies below the root its manifest opens for writing.\<close>

definition store_template :: SettledPolicy where
  "store_template = redirect_policy
     \<lparr>sp_manifest := [\<lparr>va_field = ''fs.write'', va_one_of = [], va_pool = [], va_pool_max = 0,
                       va_pattern = [], va_relpath_under = ''~/store'', va_freeform = False,
                       va_reason = []\<rparr>]\<rparr>"

lemma store_template_accepted: "validate store_template = Inr ()" "spawn_eligible store_template = Inr ()"
  using redirect_policy_valid
  by (simp add: validate_ok_iff store_template_def)
    (simp add: spawn_eligible_def store_template_def redirect_policy_def floor_policy_def REQUIRED_CEILINGS_def)

definition store_instance :: SettledPolicy where
  "store_instance = upd_fs (\<lambda>fs. fs\<lparr>fs_write := [''~/work/**'', ''~/store/cred'']\<rparr>) redirect_policy"

lemma store_template_instance:
  "instantiate store_template [\<lparr>pe_field = ''fs.write'', pe_value = ''cred''\<rparr>] = Inr store_instance"
  by (simp add: instantiate_def apply_entry_def store_template_def redirect_policy_def Variant_resolve_def
    admit_relpath_def starts_with_def sat_add_def u32_max_def cap_exceeded_def apply_field_def upd_fs_def
    trim_end_matches_def floor_policy_def store_instance_def)

text \<open>The redirect floor is not re-asserted on the instance: a template that passes verification and
  eligibility can be instantiated, by a patch its manifest admits, to a policy that grants the
  workload write access to the source of one of its redirects and that the re-assertion would
  refuse.\<close>

lemma instance_can_break_redirect_floor:
  "validate store_instance = Inl [FsRedirectWriteSet ''~/store/cred'' ''~/.cred'' ''~/store/cred'']"
  by (simp add: validate_def store_instance_def upd_fs_def redirect_policy_def floor_policy_def metadata_denied_def
    floor_net_def redirect_violations_def path_eval starts_with_def)

text \<open>C37. What instantiation can cost a verified template: of the framework invariants only the redirect floor
  depends on the patch, and the instance satisfies all of them exactly when no value the patch adds
  to \<open>fs.write\<close> names a directory above, below or equal to the source of a redirect. Instantiation
  itself does not make that check, so an admitted value that meets a source yields an instance the
  re-assertion would refuse.\<close>

theorem instance_floor_exact:
  assumes "instantiate t patch = Inr i" "validate t = Inr ()"
  shows "validate i = Inr () \<longleftrightarrow>
    (\<forall>r \<in> set (fs_redirect (fs_of t)). \<forall>e \<in> set (entries_for ''fs.write'' patch).
       \<not> paths_intersect (rd_source r) (normalize_grant (entry_value t e)))"
proof -
  note same = frozen_parts [OF instance_effect(1) [OF assms(1)]]
  have "set (writable_surface (fs_of i)) = set (writable_surface (fs_of t))
      \<union> (\<lambda>e. normalize_grant (entry_value t e)) ` set (entries_for ''fs.write'' patch)"
    by (auto simp: writable_surface_def same instance_effect(4) [OF assms(1)])
  then show ?thesis
    using assms(2) by (auto simp: validate_ok_iff same metadata_denied_def redirect_violations_empty_iff Let_def)
qed

theorem instance_floor_exact_witness: "validate store_instance \<noteq> Inr ()"
  using instance_floor_exact [OF store_template_instance store_template_accepted(1)]
  by (simp add: store_template_def redirect_policy_def floor_policy_def entry_value_def constraint_of_def
    Variant_resolve_def trim_end_matches_def path_eval)

end
