(* ===== verification/Sshsig.thy ===== *)
theory Sshsig
  imports Base64 Wire_Codec
begin

text \<open>
  Detached OpenSSH signatures over canonical bytes: the SSHSIG format
  (\<open>kennel-lib-policy/src/sshsig.rs\<close>), the trust store (\<open>keys.rs\<close>) and the envelope check
  (\<open>signature.rs\<close>).  Ed25519 and SHA-512 come from other packages: they are the fields of a
  \<open>Crypto\<close> record that the definitions take as an argument.  A formatted error message is its fixed
  part.  The lemmas give what an accepted signature guarantees, and that what is signed verifies.
\<close>

section \<open>The cryptographic parameters\<close>

record 'kp Crypto =
  cr_sha512 :: "bytes \<Rightarrow> bytes"
  cr_verify :: "bytes \<Rightarrow> bytes \<Rightarrow> bytes \<Rightarrow> bool"
  cr_sign :: "'kp \<Rightarrow> bytes \<Rightarrow> bytes"
  cr_public :: "'kp \<Rightarrow> bytes"
  cr_public_ok :: "bytes \<Rightarrow> bool"

section \<open>Lossy decoding and substring search\<close>

text \<open>
  \<open>String::from_utf8_lossy\<close>: valid sequences are kept, and each maximal ill-formed subpart becomes
  U+FFFD.  \<open>utf8_step\<close> says whether the front of the input is a valid sequence, and how many bytes
  to consume; past the end a byte reads as zero.
\<close>

definition byte_or_zero :: "bytes \<Rightarrow> nat \<Rightarrow> u8" where
  "byte_or_zero bs i = (case get_at bs i of Some b \<Rightarrow> b | None \<Rightarrow> 0)"

definition utf8_step :: "u8 \<Rightarrow> bytes \<Rightarrow> bool \<times> nat" where
  "utf8_step b bs =
     (let c = byte_or_zero bs 0; d = byte_or_zero bs 1; e = byte_or_zero bs 2 in
      if b \<le> 0x7f then (True, 1)
      else if 0xc2 \<le> b \<and> b \<le> 0xdf then (if utf8_cont c then (True, 2) else (False, 1))
      else if 0xe0 \<le> b \<and> b \<le> 0xef then
        (if \<not> (if b = 0xe0 then 0xa0 \<le> c \<and> c \<le> 0xbf
               else if b = 0xed then 0x80 \<le> c \<and> c \<le> 0x9f else utf8_cont c) then (False, 1)
         else if \<not> utf8_cont d then (False, 2) else (True, 3))
      else if 0xf0 \<le> b \<and> b \<le> 0xf4 then
        (if \<not> (if b = 0xf0 then 0x90 \<le> c \<and> c \<le> 0xbf
               else if b = 0xf4 then 0x80 \<le> c \<and> c \<le> 0x8f else utf8_cont c) then (False, 1)
         else if \<not> utf8_cont d then (False, 2)
         else if \<not> utf8_cont e then (False, 3) else (True, 4))
      else (False, 1))"

lemma utf8_step_pos: "0 < snd (utf8_step b bs)"
  by (simp add: utf8_step_def Let_def)

function utf8_lossy :: "bytes \<Rightarrow> bytes" where
  "utf8_lossy [] = []"
| "utf8_lossy (b # bs) =
     (case utf8_step b bs of (ok, n) \<Rightarrow>
        (if ok then take n (b # bs) else [0xef, 0xbf, 0xbd]) @ utf8_lossy (drop (n - 1) bs))"
  by pat_completeness auto

termination by (relation "measure length") auto

fun find_sub :: "string \<Rightarrow> string \<Rightarrow> nat option" where
  "find_sub pat [] = (if pat = [] then Some 0 else None)"
| "find_sub pat (c # cs) =
     (if starts_with pat (c # cs) then Some 0 else map_option Suc (find_sub pat cs))"

text \<open>\<open>chars().filter(|c| !c.is_whitespace())\<close>\<close>

function remove_white :: "string \<Rightarrow> string" where
  "remove_white s =
     (case strip_white s of
        Some r \<Rightarrow> remove_white r
      | None \<Rightarrow> (case s of [] \<Rightarrow> [] | c # cs \<Rightarrow> c # remove_white cs))"
  by pat_completeness auto

termination by (relation "measure length") (auto dest: strip_white_shorter)

declare remove_white.simps [simp del]

section \<open>SSH wire fields\<close>

definition put_string :: "bytes \<Rightarrow> bytes" where
  "put_string s = u32_to_be (if length s < 2 ^ 32 then word_of_nat (length s) else 4294967295) @ s"

definition take_u32 :: "u32 cursor" where
  "take_u32 cur = do { (b, cur) \<leftarrow> split_at_checked 4 cur; Some (u32_of_be b, cur) }"

definition take_string :: "bytes cursor" where
  "take_string cur = do { (len, cur) \<leftarrow> take_u32 cur; split_at_checked (unat len) cur }"

section \<open>The signature format\<close>

definition NAMESPACE :: string where "NAMESPACE = ''policy.v1@projectkennel.org''"
definition MAGIC :: bytes where "MAGIC = as_bytes ''SSHSIG''"
definition SIG_VERSION :: u32 where "SIG_VERSION = 1"
definition ED25519 :: bytes where "ED25519 = as_bytes ''ssh-ed25519''"
definition SK_ED25519 :: bytes where "SK_ED25519 = as_bytes ''sk-ssh-ed25519@openssh.com''"
definition HASH_ALG_SHA512 :: bytes where "HASH_ALG_SHA512 = as_bytes ''sha512''"
definition ARMOR_BEGIN :: string where "ARMOR_BEGIN = ''-----BEGIN SSH SIGNATURE-----''"
definition ARMOR_END :: string where "ARMOR_END = ''-----END SSH SIGNATURE-----''"
definition MAX_BLOB :: nat where "MAX_BLOB = 16 * 1024"

datatype SignatureError =
    UnsupportedAlgorithm string
  | UnknownKey string
  | MalformedKey
  | MalformedSignature
  | Verification
  | MalformedSshsig string
  | NamespaceMismatch string
  | KeyMismatch
  | HardwareKeyRequiresExternalVerify

datatype KeyKind = Ed25519 | HardwareSk

record SshSig =
  ss_key_kind :: KeyKind
  ss_pubkey :: bytes
  ss_namespace :: string
  ss_reserved :: bytes
  ss_hash_alg :: bytes
  ss_ed25519_sig :: "bytes option"

definition bad :: "string \<Rightarrow> SignatureError" where
  "bad reason = MalformedSshsig reason"

definition dearmor :: "string \<Rightarrow> SignatureError + bytes" where
  "dearmor armor =
     and_then (ok_or (find_sub ARMOR_BEGIN armor) (bad ''missing BEGIN SSH SIGNATURE'')) (\<lambda>i.
     let rest = drop (i + length ARMOR_BEGIN) armor in
     and_then (ok_or (find_sub ARMOR_END rest) (bad ''missing END SSH SIGNATURE'')) (\<lambda>end_pos.
     let body = remove_white (take end_pos rest) in
     and_then (ok_or (b64_decode (as_bytes body)) (bad ''invalid base64 in armor'')) (\<lambda>blob.
     if blob = [] \<or> length blob > MAX_BLOB then Inl (bad ''implausible SSHSIG blob length'')
     else Inr blob)))"

definition sshsig_parse_public_key :: "bytes \<Rightarrow> SignatureError + KeyKind \<times> bytes" where
  "sshsig_parse_public_key blob =
     and_then (ok_or (take_string blob) (bad ''truncated key type'')) (\<lambda>(keytype, r).
     if keytype = ED25519 then
       and_then (ok_or (take_string r) (bad ''truncated Ed25519 key'')) (\<lambda>(pk, _).
         if length pk = 32 then Inr (Ed25519, pk) else Inl (bad ''Ed25519 key is not 32 bytes''))
     else if keytype = SK_ED25519 then
       and_then (ok_or (take_string r) (bad ''truncated sk-Ed25519 key'')) (\<lambda>(pk, _).
         if length pk = 32 then Inr (HardwareSk, pk) else Inl (bad ''sk-Ed25519 key is not 32 bytes''))
     else Inl (bad ''unsupported key type''))"

definition parse_ed25519_sig :: "bytes \<Rightarrow> SignatureError + bytes" where
  "parse_ed25519_sig blob =
     and_then (ok_or (take_string blob) (bad ''truncated signature type'')) (\<lambda>(sigtype, r).
     if sigtype \<noteq> ED25519 then Inl (bad ''signature type is not ssh-ed25519'')
     else and_then (ok_or (take_string r) (bad ''truncated signature body'')) (\<lambda>(sig, _).
       if length sig = 64 then Inr sig else Inl (bad ''Ed25519 signature is not 64 bytes'')))"

definition parse_blob :: "bytes \<Rightarrow> SignatureError + SshSig" where
  "parse_blob blob =
     and_then (ok_or (split_at_checked (length MAGIC) blob) (bad ''truncated magic'')) (\<lambda>(magic, r).
     if magic \<noteq> MAGIC then Inl (bad ''not an SSHSIG (bad magic)'')
     else and_then (ok_or (take_u32 r) (bad ''truncated version'')) (\<lambda>(version, r).
     if version \<noteq> SIG_VERSION then Inl (bad ''unsupported SSHSIG version'')
     else and_then (ok_or (take_string r) (bad ''truncated public key'')) (\<lambda>(publickey, r).
     and_then (ok_or (take_string r) (bad ''truncated namespace'')) (\<lambda>(ns, r).
     and_then (ok_or (take_string r) (bad ''truncated reserved'')) (\<lambda>(reserved, r).
     and_then (ok_or (take_string r) (bad ''truncated hash algorithm'')) (\<lambda>(hash_alg, r).
     and_then (ok_or (take_string r) (bad ''truncated signature'')) (\<lambda>(sig_blob, r).
     if r \<noteq> [] then Inl (bad ''trailing bytes after SSHSIG signature'')
     else and_then (sshsig_parse_public_key publickey) (\<lambda>(key_kind, pubkey).
     and_then (case key_kind of
            Ed25519 \<Rightarrow> and_then (parse_ed25519_sig sig_blob) (\<lambda>s. Inr (Some s))
          | HardwareSk \<Rightarrow> Inr None) (\<lambda>ed25519_sig.
     Inr \<lparr>ss_key_kind = key_kind, ss_pubkey = pubkey,
          ss_namespace = string_of_bytes (utf8_lossy ns), ss_reserved = reserved,
          ss_hash_alg = hash_alg, ss_ed25519_sig = ed25519_sig\<rparr>)))))))))"

definition parse_armored :: "string \<Rightarrow> SignatureError + SshSig" where
  "parse_armored armor = and_then (dearmor armor) parse_blob"

definition preimage :: "SshSig \<Rightarrow> bytes \<Rightarrow> bytes" where
  "preimage sig digest =
     MAGIC @ put_string (as_bytes (ss_namespace sig)) @ put_string (ss_reserved sig)
     @ put_string (ss_hash_alg sig) @ put_string digest"

definition SshSig_verify :: "'kp Crypto \<Rightarrow> SshSig \<Rightarrow> bytes \<Rightarrow> bytes \<Rightarrow> SignatureError + unit" where
  "SshSig_verify C sig message trusted =
     (if ss_namespace sig \<noteq> NAMESPACE then Inl (NamespaceMismatch (ss_namespace sig))
      else if ss_pubkey sig \<noteq> trusted then Inl KeyMismatch
      else and_then (case ss_key_kind sig of
                  Ed25519 \<Rightarrow> ok_or (ss_ed25519_sig sig) MalformedSignature
                | HardwareSk \<Rightarrow> Inl HardwareKeyRequiresExternalVerify) (\<lambda>s.
        if ss_hash_alg sig \<noteq> HASH_ALG_SHA512 then Inl (bad ''unexpected hash algorithm'')
        else if cr_verify C trusted (preimage sig (cr_sha512 C message)) s then Inr ()
        else Inl Verification))"

section \<open>Signing\<close>

record 'kp SigningKey =
  sk_key_id :: string
  sk_keypair :: 'kp

function chunks70 :: "string \<Rightarrow> string list" where
  "chunks70 s = (if s = [] then [] else take 70 s # chunks70 (drop 70 s))"
  by pat_completeness auto

termination by (relation "measure length") auto

declare chunks70.simps [simp del]

definition armor :: "bytes \<Rightarrow> string" where
  "armor blob =
     ARMOR_BEGIN @ [CHR 0x0A]
     @ concat (map (\<lambda>chunk. chunk @ [CHR 0x0A]) (chunks70 (string_of_bytes (b64_encode blob))))
     @ ARMOR_END @ [CHR 0x0A]"

definition sign_ed25519 :: "'kp Crypto \<Rightarrow> 'kp SigningKey \<Rightarrow> bytes \<Rightarrow> string" where
  "sign_ed25519 C key message =
     (let digest = cr_sha512 C message;
          image = MAGIC @ put_string (as_bytes NAMESPACE) @ put_string []
                  @ put_string HASH_ALG_SHA512 @ put_string digest;
          sig = cr_sign C (sk_keypair key) image;
          pub_blob = put_string ED25519 @ put_string (cr_public C (sk_keypair key));
          sig_blob = put_string ED25519 @ put_string sig;
          blob = MAGIC @ u32_to_be SIG_VERSION @ put_string pub_blob
                 @ put_string (as_bytes NAMESPACE) @ put_string [] @ put_string HASH_ALG_SHA512
                 @ put_string sig_blob
      in armor blob)"

section \<open>The trust store and the envelope\<close>

type_synonym KeySet = "(string \<times> bytes) list"

definition KeySet_insert :: "'kp Crypto \<Rightarrow> KeySet \<Rightarrow> string \<Rightarrow> bytes \<Rightarrow> SignatureError + KeySet" where
  "KeySet_insert C keys key_id key_bytes =
     (if cr_public_ok C key_bytes then Inr (keys @ [(key_id, key_bytes)]) else Inl MalformedKey)"

definition KeySet_get :: "KeySet \<Rightarrow> string \<Rightarrow> bytes option" where
  "KeySet_get keys key_id = map_option snd (find (\<lambda>(i, _). i = key_id) keys)"

definition SSHSIG_ALGORITHM :: string where "SSHSIG_ALGORITHM = ''sshsig''"

record SignatureEnvelope =
  env_algorithm :: string
  env_key_id :: string
  env_signature :: string
  env_signed_fields :: "string list"

definition verify_signature ::
    "'kp Crypto \<Rightarrow> bytes \<Rightarrow> SignatureEnvelope \<Rightarrow> KeySet \<Rightarrow> SignatureError + unit" where
  "verify_signature C canonical envelope keys =
     (if env_algorithm envelope \<noteq> SSHSIG_ALGORITHM
      then Inl (UnsupportedAlgorithm (env_algorithm envelope))
      else and_then (ok_or (KeySet_get keys (env_key_id envelope)) (UnknownKey (env_key_id envelope))) (\<lambda>key.
           and_then (parse_armored (env_signature envelope)) (\<lambda>sig.
           SshSig_verify C sig canonical key)))"

section \<open>What an accepted signature guarantees\<close>

lemma SshSig_verify_ok_iff:
  "SshSig_verify C sig message trusted = Inr () \<longleftrightarrow>
     ss_namespace sig = NAMESPACE \<and> ss_pubkey sig = trusted \<and> ss_key_kind sig = Ed25519
     \<and> ss_hash_alg sig = HASH_ALG_SHA512
     \<and> (\<exists>s. ss_ed25519_sig sig = Some s \<and> cr_verify C trusted (preimage sig (cr_sha512 C message)) s)"
  by (cases "ss_key_kind sig")
    (auto simp: SshSig_verify_def and_then_Inr_iff ok_or_Inr_iff and_then_def ok_or_def
      split: if_splits option.splits)

text \<open>The bytes an Ed25519 signature over a message covers.\<close>

definition signed_image :: "'kp Crypto \<Rightarrow> bytes \<Rightarrow> bytes \<Rightarrow> bytes" where
  "signed_image C reserved message =
     MAGIC @ put_string (as_bytes NAMESPACE) @ put_string reserved @ put_string HASH_ALG_SHA512
     @ put_string (cr_sha512 C message)"

lemma verify_signature_ok:
  assumes "verify_signature C canonical envelope keys = Inr ()"
  obtains key sig s where "env_algorithm envelope = SSHSIG_ALGORITHM"
    "KeySet_get keys (env_key_id envelope) = Some key" "parse_armored (env_signature envelope) = Inr sig"
    "ss_pubkey sig = key" "ss_ed25519_sig sig = Some s"
    "cr_verify C key (signed_image C (ss_reserved sig) canonical) s"
proof -
  from assms obtain key sig where a: "env_algorithm envelope = SSHSIG_ALGORITHM"
    "KeySet_get keys (env_key_id envelope) = Some key" "parse_armored (env_signature envelope) = Inr sig"
    and v: "SshSig_verify C sig canonical key = Inr ()"
    by (auto simp: verify_signature_def and_then_Inr_iff ok_or_Inr_iff split: if_splits)
  from v obtain s where s: "ss_namespace sig = NAMESPACE" "ss_pubkey sig = key"
    "ss_hash_alg sig = HASH_ALG_SHA512" "ss_ed25519_sig sig = Some s"
    "cr_verify C key (preimage sig (cr_sha512 C canonical)) s"
    by (auto simp: SshSig_verify_ok_iff)
  then have "cr_verify C key (signed_image C (ss_reserved sig) canonical) s"
    by (simp add: preimage_def signed_image_def)
  with a s that show thesis by blast
qed

section \<open>What is signed verifies\<close>

text \<open>The characters of the encoder: none is a dash or starts a white-space character.\<close>

definition b64_letter :: "u8 \<Rightarrow> bool" where
  "b64_letter c \<longleftrightarrow> c = 43 \<or> 47 \<le> c \<and> c \<le> 57 \<or> c = 61 \<or> 65 \<le> c \<and> c \<le> 90 \<or> 97 \<le> c \<and> c \<le> 122"

lemma b64_letter_table: "\<forall>n \<in> set [0..<64]. b64_letter (b64_char_of (word_of_nat n))"
  by code_simp

lemma b64_letter_char_of: "b64_letter (b64_char_of v)"
proof (cases "unat v < 64")
  case True
  then have "unat v \<in> set [0..<64]" by simp
  from b64_letter_table [rule_format, OF this] show ?thesis by simp
next
  case False
  then have "b64_char_of v = 47" by (auto simp: b64_char_of_def word_le_nat_alt)
  then show ?thesis by (simp add: b64_letter_def)
qed

lemma emit_go_letters: "\<forall>c \<in> set (fst (emit_go acc n)). b64_letter c"
  by (induction acc n rule: emit_go.induct)
    (subst emit_go.simps, auto simp: b64_letter_char_of split: prod.splits)

lemma encode_go_letters: "\<forall>c \<in> set (encode_go acc n bs). b64_letter c"
proof (induction bs arbitrary: acc n)
  case (Cons b bs)
  obtain out m where e: "emit_go (shl32 acc 8 + unat b) (n + 8) = (out, m)" by fastforce
  with emit_go_letters [of "shl32 acc 8 + unat b" "n + 8"] Cons.IH show ?case by auto
qed (simp add: b64_letter_char_of)

lemma b64_encode_letters: "c \<in> set (b64_encode bs) \<Longrightarrow> b64_letter c"
  using encode_go_letters [of 0 0 bs] by (auto simp: b64_encode_def b64_pad_def b64_letter_def)

lemma white_heads: "\<forall>w \<in> set white_space. \<not> b64_letter (hd w) \<and> w \<noteq> []"
  by code_simp

lemma strip_white_letter:
  assumes "b64_letter (byte_of_char c)"
  shows "strip_white (c # cs) = None"
proof (rule ccontr)
  assume "strip_white (c # cs) \<noteq> None"
  then obtain r w where w: "w \<in> set white_space" "c # cs = string_of_bytes w @ r"
    using strip_white_Some [of "c # cs"] by blast
  with white_heads obtain b bs where "w = b # bs" "\<not> b64_letter b"
    by (metis list.exhaust_sel)
  with w(2) have "c = char_of_byte b" by (simp add: string_of_bytes_def)
  with \<open>\<not> b64_letter b\<close> assms show False by simp
qed

lemma strip_white_newline: "strip_white (CHR 0x0A # cs) = Some cs"
proof -
  have w: "white_space = [9] # [10] # drop 2 white_space" by (simp add: white_space_def)
  have "string_of_bytes [9] = [CHR 0x09]" "string_of_bytes [10] = [CHR 0x0A]" by code_simp+
  then show ?thesis unfolding strip_white_def by (subst w) (simp add: map_filter_simps)
qed

lemma remove_white_newline: "remove_white (CHR 0x0A # cs) = remove_white cs"
  by (subst remove_white.simps) (simp add: strip_white_newline)

lemma remove_white_letters:
  "\<forall>c \<in> set s. b64_letter (byte_of_char c) \<Longrightarrow> remove_white (s @ cs) = s @ remove_white cs"
proof (induction s)
  case (Cons c s)
  then show ?case by (simp, subst remove_white.simps) (simp add: strip_white_letter)
qed simp

lemma remove_white_Nil: "remove_white [] = []"
proof -
  have "strip_white [] = None"
    using strip_white_shorter [of "[]"] by (cases "strip_white []") auto
  then show ?thesis by (subst remove_white.simps) simp
qed

lemma remove_white_chunks:
  "\<forall>c \<in> set s. b64_letter (byte_of_char c) \<Longrightarrow>
     remove_white (concat (map (\<lambda>chunk. chunk @ [CHR 0x0A]) (chunks70 s))) = s"
proof (induction s rule: chunks70.induct)
  case (1 s)
  show ?case
  proof (cases "s = []")
    case True
    then show ?thesis by (simp add: chunks70.simps remove_white_Nil)
  next
    case False
    have "\<forall>c \<in> set (take 70 s). b64_letter (byte_of_char c)" "\<forall>c \<in> set (drop 70 s). b64_letter (byte_of_char c)"
      using "1.prems" by (auto dest: in_set_takeD in_set_dropD)
    with False "1.IH" show ?thesis
      by (subst chunks70.simps) (simp add: remove_white_letters remove_white_newline)
  qed
qed

lemma find_sub_front: "find_sub p (p @ s) = Some 0"
proof (cases "p @ s")
  case Nil
  then show ?thesis by simp
next
  case (Cons c cs)
  then have "starts_with p (c # cs)" by (simp add: starts_with_iff flip: Cons)
  with Cons show ?thesis by simp
qed

text \<open>A marker whose first character does not occur before it is found where it stands.\<close>

lemma find_sub_after: "c \<notin> set s \<Longrightarrow> find_sub (c # p) (s @ (c # p) @ r) = Some (length s)"
proof (induction s)
  case Nil
  show ?case using find_sub_front [of "c # p" r] by simp
next
  case (Cons x s)
  then have "\<not> starts_with (c # p) (x # s @ (c # p) @ r)" by (auto simp: starts_with_iff)
  with Cons show ?case by simp
qed

lemma chunks70_elems: "chunk \<in> set (chunks70 s) \<Longrightarrow> set chunk \<subseteq> set s"
proof (induction s rule: chunks70.induct)
  case (1 s)
  show ?case
  proof (cases "s = []")
    case True
    with "1.prems" show ?thesis by (simp add: chunks70.simps)
  next
    case False
    with "1.prems" have "chunk = take 70 s \<or> chunk \<in> set (chunks70 (drop 70 s))"
      by (subst (asm) chunks70.simps) simp
    with "1.IH" [OF False] show ?thesis by (auto dest: in_set_takeD in_set_dropD)
  qed
qed

lemma chunks70_set: "set (concat (map (\<lambda>chunk. chunk @ [CHR 0x0A]) (chunks70 s))) \<subseteq> set s \<union> {CHR 0x0A}"
  using chunks70_elems [of _ s] by auto

lemma b64_string_letters: "c \<in> set (string_of_bytes (b64_encode blob)) \<Longrightarrow> b64_letter (byte_of_char c)"
  by (auto simp: string_of_bytes_def dest: b64_encode_letters)

lemma dearmor_armor:
  assumes "blob \<noteq> []" "length blob \<le> MAX_BLOB"
  shows "dearmor (armor blob) = Inr blob"
proof -
  define s where "s = string_of_bytes (b64_encode blob)"
  define body where "body = CHR 0x0A # concat (map (\<lambda>chunk. chunk @ [CHR 0x0A]) (chunks70 s))"
  obtain p where p: "ARMOR_END = CHR ''-'' # p" by (simp add: ARMOR_END_def)
  have letters: "\<forall>c \<in> set s. b64_letter (byte_of_char c)" by (auto simp: s_def b64_string_letters)
  have "\<not> b64_letter (byte_of_char CHR ''-'')" by code_simp
  with letters have "CHR ''-'' \<notin> set s \<union> {CHR 0x0A}" by auto
  with chunks70_set [of s] have "CHR ''-'' \<notin> set body"
    unfolding body_def set_simps by blast
  then have e: "find_sub ARMOR_END (body @ ARMOR_END @ [CHR 0x0A]) = Some (length body)"
    using find_sub_after [of "CHR ''-''" body p "[CHR 0x0A]"] by (simp add: p)
  have a: "armor blob = ARMOR_BEGIN @ body @ ARMOR_END @ [CHR 0x0A]"
    by (simp add: armor_def body_def s_def)
  have "remove_white body = s"
    by (simp add: body_def remove_white_newline remove_white_chunks [OF letters])
  moreover have "b64_decode (as_bytes s) = Some blob" by (simp add: s_def b64_decode_encode)
  ultimately show ?thesis
    using assms by (simp add: dearmor_def a find_sub_front e Let_def)
qed

lemma take_u32_put [simp]: "take_u32 (u32_to_be v @ rest) = Some (v, rest)"
  by (simp add: take_u32_def byte_simps)

lemma take_string_put [simp]: "length s < 2 ^ 32 \<Longrightarrow> take_string (put_string s @ rest) = Some (s, rest)"
  by (simp add: take_string_def put_string_def unat_of_nat take_bit_nat_eq_self)

lemma length_put_string [simp]: "length (put_string s) = 4 + length s"
  by (simp add: put_string_def)

lemma utf8_lossy_ascii: "\<forall>b \<in> set bs. b \<le> 0x7f \<Longrightarrow> utf8_lossy bs = bs"
  by (induction bs) (simp_all add: utf8_step_def Let_def)

lemma namespace_ascii: "utf8_lossy (as_bytes NAMESPACE) = as_bytes NAMESPACE"
proof (rule utf8_lossy_ascii)
  show "\<forall>b \<in> set (as_bytes NAMESPACE). b \<le> 0x7f" by code_simp
qed

lemma field_lengths: "length MAGIC = 6" "length NAMESPACE = 27" "length ED25519 = 11"
  "length HASH_ALG_SHA512 = 6"
  by (simp_all add: MAGIC_def NAMESPACE_def ED25519_def HASH_ALG_SHA512_def)

text \<open>The documented behaviour of Ed25519: key and signature lengths, and that a signature verifies.\<close>

definition ed25519_correct :: "'kp Crypto \<Rightarrow> bool" where
  "ed25519_correct C \<longleftrightarrow>
     (\<forall>k m. length (cr_public C k) = 32 \<and> length (cr_sign C k m) = 64
            \<and> cr_verify C (cr_public C k) m (cr_sign C k m))"

lemma sign_ed25519_blob:
  fixes key :: "'kp SigningKey"
  assumes "ed25519_correct C"
  defines "kp \<equiv> sk_keypair key"
  shows "parse_armored (sign_ed25519 C key message) =
    Inr \<lparr>ss_key_kind = Ed25519, ss_pubkey = cr_public C kp, ss_namespace = NAMESPACE, ss_reserved = [],
         ss_hash_alg = HASH_ALG_SHA512, ss_ed25519_sig = Some (cr_sign C kp (signed_image C [] message))\<rparr>"
proof -
  have len: "length (cr_public C kp) = 32" "length (cr_sign C kp m) = 64" for m
    using assms(1) by (simp_all add: ed25519_correct_def)
  define blob where "blob = MAGIC @ u32_to_be SIG_VERSION
      @ put_string (put_string ED25519 @ put_string (cr_public C kp))
      @ put_string (as_bytes NAMESPACE) @ put_string [] @ put_string HASH_ALG_SHA512
      @ put_string (put_string ED25519 @ put_string (cr_sign C kp (signed_image C [] message)))"
  have "sign_ed25519 C key message = armor blob"
    by (simp add: sign_ed25519_def blob_def signed_image_def kp_def Let_def)
  moreover have "dearmor (armor blob) = Inr blob"
    by (rule dearmor_armor) (simp_all add: blob_def MAX_BLOB_def field_lengths len MAGIC_def)
  moreover have "sshsig_parse_public_key (put_string ED25519 @ put_string (cr_public C kp)) =
      Inr (Ed25519, cr_public C kp)"
    using take_string_put [of "cr_public C kp" "[]"]
    by (simp add: sshsig_parse_public_key_def field_lengths len)
  moreover have "parse_ed25519_sig (put_string ED25519 @ put_string (cr_sign C kp m)) = Inr (cr_sign C kp m)" for m
    using take_string_put [of "cr_sign C kp m" "[]"]
    by (simp add: parse_ed25519_sig_def field_lengths len)
  moreover have "take_string (put_string s) = Some (s, [])" if "length s < 2 ^ 32" for s
    using take_string_put [OF that, of "[]"] by simp
  ultimately show ?thesis
    by (simp add: parse_armored_def parse_blob_def blob_def field_lengths len namespace_ascii)
qed

lemma signed_verifies:
  assumes "ed25519_correct C" "KeySet_get keys (sk_key_id key) = Some (cr_public C (sk_keypair key))"
  shows "verify_signature C message
    \<lparr>env_algorithm = SSHSIG_ALGORITHM, env_key_id = sk_key_id key,
     env_signature = sign_ed25519 C key message, env_signed_fields = fs\<rparr> keys = Inr ()"
proof -
  have "cr_verify C (cr_public C (sk_keypair key)) m (cr_sign C (sk_keypair key) m)" for m
    using assms(1) by (simp add: ed25519_correct_def)
  then show ?thesis
    by (simp add: verify_signature_def assms(2) sign_ed25519_blob [OF assms(1)] SshSig_verify_ok_iff
      preimage_def signed_image_def)
qed

end
