(* ===== verification/Policy_Verify.thy ===== *)
theory Policy_Verify
  imports Spawn_Patch Sshsig
begin

text \<open>
  The runtime trust gate of a settled policy (\<open>kennel-lib-policy/src/lib.rs\<close>, with the errors of
  \<open>error.rs\<close>): schema version, signature over the canonical form, framework invariants, and the
  content pin of a spawn template.  The TOML reader and writer come from another package and are
  parameters: \<open>parse\<close> reads a document, \<open>print\<close> gives the canonical text of a policy body.
\<close>

section \<open>Documents and errors\<close>

record SignedSettledPolicy =
  doc_signature :: SignatureEnvelope
  doc_policy :: SettledPolicy

datatype PolicyError =
    Parse string
  | Canonical string
  | Signature SignatureError
  | UnsupportedSchemaVersion u32 u32
  | ObsoleteSchemaVersion u32 u32
  | InvariantViolations "InvariantViolation list"
  | SourceValidation "string list"
  | Resolution string
  | Translation string
  | LockMismatch string
  | IncludeConflict string
  | Patch PatchError
  | Spawn SpawnError

type_synonym toml_reader = "bytes \<Rightarrow> string + SignedSettledPolicy"
type_synonym toml_writer = "SettledPolicy \<Rightarrow> string + bytes"

section \<open>The gate\<close>

definition SETTLED_SCHEMA_VERSION :: u32 where "SETTLED_SCHEMA_VERSION = 5"
definition MIN_SETTLED_SCHEMA_VERSION :: u32 where "MIN_SETTLED_SCHEMA_VERSION = 3"

definition check_schema_version :: "u32 \<Rightarrow> PolicyError + unit" where
  "check_schema_version version =
     (if version > SETTLED_SCHEMA_VERSION
      then Inl (UnsupportedSchemaVersion version SETTLED_SCHEMA_VERSION)
      else if version < MIN_SETTLED_SCHEMA_VERSION
      then Inl (ObsoleteSchemaVersion version MIN_SETTLED_SCHEMA_VERSION)
      else Inr ())"

definition canonical_bytes :: "toml_writer \<Rightarrow> SettledPolicy \<Rightarrow> PolicyError + bytes" where
  "canonical_bytes print policy = map_err Canonical (print policy)"

definition verify_doc ::
    "'kp Crypto \<Rightarrow> toml_writer \<Rightarrow> SignedSettledPolicy \<Rightarrow> KeySet \<Rightarrow> PolicyError + SettledPolicy" where
  "verify_doc C print doc keys =
     and_then (check_schema_version (sp_schema_version (doc_policy doc))) (\<lambda>_.
     and_then (canonical_bytes print (doc_policy doc)) (\<lambda>canonical.
     and_then (map_err Signature (verify_signature C canonical (doc_signature doc) keys)) (\<lambda>_.
     and_then (map_err InvariantViolations (validate (doc_policy doc))) (\<lambda>_.
     Inr (doc_policy doc)))))"

definition verify_settled ::
    "'kp Crypto \<Rightarrow> toml_reader \<Rightarrow> toml_writer \<Rightarrow> bytes \<Rightarrow> KeySet \<Rightarrow> PolicyError + SettledPolicy" where
  "verify_settled C parse print bs keys =
     and_then (map_err Parse (parse bs)) (\<lambda>doc. verify_doc C print doc keys)"

definition verify_settled_signed ::
    "'kp Crypto \<Rightarrow> toml_reader \<Rightarrow> toml_writer \<Rightarrow> bytes \<Rightarrow> KeySet \<Rightarrow>
     PolicyError + SettledPolicy \<times> string" where
  "verify_settled_signed C parse print bs keys =
     and_then (map_err Parse (parse bs)) (\<lambda>doc.
     let key_id = env_key_id (doc_signature doc) in
     and_then (verify_doc C print doc keys) (\<lambda>policy. Inr (policy, key_id)))"

definition verify_pinned ::
    "'kp Crypto \<Rightarrow> toml_reader \<Rightarrow> toml_writer \<Rightarrow> bytes \<Rightarrow> KeySet \<Rightarrow> string \<Rightarrow> string \<Rightarrow>
     PolicyError + SettledPolicy" where
  "verify_pinned C parse print bs keys expected_key_id expected_signature =
     and_then (map_err Parse (parse bs)) (\<lambda>doc.
     if env_key_id (doc_signature doc) \<noteq> expected_key_id
        \<or> env_signature (doc_signature doc) \<noteq> expected_signature
     then Inl (Spawn PinMismatch)
     else verify_doc C print doc keys)"

definition parse_signed_settled_unverified :: "toml_reader \<Rightarrow> bytes \<Rightarrow> PolicyError + SignedSettledPolicy" where
  "parse_signed_settled_unverified parse bs =
     and_then (map_err Parse (parse bs)) (\<lambda>doc.
     and_then (check_schema_version (sp_schema_version (doc_policy doc))) (\<lambda>_. Inr doc))"

definition parse_settled_unverified :: "toml_reader \<Rightarrow> bytes \<Rightarrow> PolicyError + SettledPolicy" where
  "parse_settled_unverified parse bs =
     and_then (parse_signed_settled_unverified parse bs) (\<lambda>doc. Inr (doc_policy doc))"

definition sign_settled ::
    "'kp Crypto \<Rightarrow> toml_writer \<Rightarrow> SettledPolicy \<Rightarrow> 'kp SigningKey \<Rightarrow> PolicyError + SignedSettledPolicy" where
  "sign_settled C print policy key =
     and_then (canonical_bytes print policy) (\<lambda>canonical.
     Inr \<lparr>doc_signature = \<lparr>env_algorithm = SSHSIG_ALGORITHM, env_key_id = sk_key_id key,
                            env_signature = sign_ed25519 C key canonical, env_signed_fields = []\<rparr>,
          doc_policy = policy\<rparr>)"

section \<open>What acceptance means\<close>

lemma check_schema_version_ok_iff: "check_schema_version v = Inr () \<longleftrightarrow> 3 \<le> v \<and> v \<le> 5"
  by (auto simp: check_schema_version_def SETTLED_SCHEMA_VERSION_def MIN_SETTLED_SCHEMA_VERSION_def)

lemma verify_doc_ok_iff:
  "verify_doc C print doc keys = Inr p \<longleftrightarrow>
     p = doc_policy doc \<and> 3 \<le> sp_schema_version p \<and> sp_schema_version p \<le> 5
     \<and> (\<exists>canonical. print p = Inr canonical
          \<and> verify_signature C canonical (doc_signature doc) keys = Inr ())
     \<and> validate p = Inr ()"
  by (auto simp: verify_doc_def and_then_Inr_iff map_err_Inr_iff check_schema_version_ok_iff
    canonical_bytes_def)

text \<open>
  A policy is authentic for a store under an envelope when the envelope names the supported algorithm
  and the armoured blob it carries parses to an Ed25519 signature by the very key the store holds under
  the envelope's name, made for this namespace and hash, that verifies over the domain-separated hash
  of the policy's canonical text.
\<close>

definition authentic ::
    "'kp Crypto \<Rightarrow> toml_writer \<Rightarrow> KeySet \<Rightarrow> SignatureEnvelope \<Rightarrow> SettledPolicy \<Rightarrow> bool" where
  "authentic C print keys envelope p \<longleftrightarrow>
     env_algorithm envelope = SSHSIG_ALGORITHM
     \<and> (\<exists>canonical key sig s. print p = Inr canonical
        \<and> KeySet_get keys (env_key_id envelope) = Some key
        \<and> parse_armored (env_signature envelope) = Inr sig
        \<and> ss_namespace sig = NAMESPACE \<and> ss_key_kind sig = Ed25519 \<and> ss_hash_alg sig = HASH_ALG_SHA512
        \<and> ss_pubkey sig = key \<and> ss_ed25519_sig sig = Some s
        \<and> cr_verify C key (signed_image C (ss_reserved sig) canonical) s)"

lemma verify_signature_ok_iff:
  "verify_signature C canonical envelope keys = Inr () \<longleftrightarrow>
     env_algorithm envelope = SSHSIG_ALGORITHM
     \<and> (\<exists>key sig s. KeySet_get keys (env_key_id envelope) = Some key
        \<and> parse_armored (env_signature envelope) = Inr sig
        \<and> ss_namespace sig = NAMESPACE \<and> ss_key_kind sig = Ed25519 \<and> ss_hash_alg sig = HASH_ALG_SHA512
        \<and> ss_pubkey sig = key \<and> ss_ed25519_sig sig = Some s
        \<and> cr_verify C key (signed_image C (ss_reserved sig) canonical) s)"
  by (auto simp: verify_signature_def and_then_Inr_iff ok_or_Inr_iff SshSig_verify_ok_iff preimage_def
    signed_image_def)

lemma verify_doc_authentic_iff:
  "verify_doc C print doc keys = Inr p \<longleftrightarrow>
     p = doc_policy doc \<and> 3 \<le> sp_schema_version p \<and> sp_schema_version p \<le> 5
     \<and> authentic C print keys (doc_signature doc) p \<and> validate p = Inr ()"
  by (auto simp: verify_doc_ok_iff authentic_def verify_signature_ok_iff)

lemma verify_doc_authentic:
  "verify_doc C print doc keys = Inr p \<Longrightarrow> authentic C print keys (doc_signature doc) p"
  by (blast dest: verify_doc_authentic_iff [THEN iffD1])

lemma verify_settled_Inr_iff:
  "verify_settled C parse print bs keys = Inr p \<longleftrightarrow>
     (\<exists>doc. parse bs = Inr doc \<and> verify_doc C print doc keys = Inr p)"
  by (simp add: verify_settled_def and_then_Inr_iff map_err_Inr_iff)

lemma verify_pinned_Inr_iff:
  "verify_pinned C parse print bs keys key_id sig = Inr p \<longleftrightarrow>
     (\<exists>doc. parse bs = Inr doc \<and> env_key_id (doc_signature doc) = key_id
        \<and> env_signature (doc_signature doc) = sig \<and> verify_doc C print doc keys = Inr p)"
  by (auto simp: verify_pinned_def and_then_Inr_iff map_err_Inr_iff)

section \<open>A signed document verifies\<close>

lemma sign_settled_Inr:
  assumes "print p = Inr canonical"
  shows "sign_settled C print p key = Inr
    \<lparr>doc_signature = \<lparr>env_algorithm = SSHSIG_ALGORITHM, env_key_id = sk_key_id key,
                      env_signature = sign_ed25519 C key canonical, env_signed_fields = []\<rparr>,
     doc_policy = p\<rparr>"
  by (simp add: sign_settled_def canonical_bytes_def assms)

lemma sign_settled_verifies:
  assumes "ed25519_correct C" "KeySet_get keys (sk_key_id key) = Some (cr_public C (sk_keypair key))"
    and "sign_settled C print p key = Inr doc"
    and "check_schema_version (sp_schema_version p) = Inr ()" "validate p = Inr ()"
  shows "verify_doc C print doc keys = Inr p"
proof -
  from assms(3) obtain canonical where c: "print p = Inr canonical"
    by (auto simp: sign_settled_def canonical_bytes_def and_then_Inr_iff map_err_Inr_iff)
  then have "doc = \<lparr>doc_signature = \<lparr>env_algorithm = SSHSIG_ALGORITHM, env_key_id = sk_key_id key,
                      env_signature = sign_ed25519 C key canonical, env_signed_fields = []\<rparr>,
                    doc_policy = p\<rparr>"
    using assms(3) by (simp add: sign_settled_Inr)
  with c assms(4,5) signed_verifies [OF assms(1,2)] show ?thesis
    by (simp add: verify_doc_ok_iff check_schema_version_ok_iff)
qed

text \<open>
  A concrete trust store: one key named \<open>site\<close>, a signature scheme in which a signature is a constant
  that verifies under that key only, a writer that prints the policy's name, and the signed floor policy.
\<close>

definition demo_crypto :: "unit Crypto" where
  "demo_crypto = \<lparr>cr_sha512 = (\<lambda>_. replicate 64 0), cr_verify = (\<lambda>k m s. k = replicate 32 7 \<and> s = replicate 64 9),
     cr_sign = (\<lambda>_ _. replicate 64 9), cr_public = (\<lambda>_. replicate 32 7), cr_public_ok = (\<lambda>k. length k = 32)\<rparr>"

definition demo_key :: "unit SigningKey" where
  "demo_key = \<lparr>sk_key_id = ''site'', sk_keypair = ()\<rparr>"

definition demo_keys :: KeySet where "demo_keys = [(''site'', replicate 32 7)]"

definition demo_print :: toml_writer where "demo_print p = Inr (as_bytes (sp_name p))"

definition demo_doc :: "SettledPolicy \<Rightarrow> SignedSettledPolicy" where
  "demo_doc p = \<lparr>doc_signature = \<lparr>env_algorithm = SSHSIG_ALGORITHM, env_key_id = ''site'',
                    env_signature = sign_ed25519 demo_crypto demo_key (as_bytes (sp_name p)), env_signed_fields = []\<rparr>,
                 doc_policy = p\<rparr>"

lemma demo_laws:
  "ed25519_correct demo_crypto"
  "KeySet_get demo_keys (sk_key_id demo_key) = Some (cr_public demo_crypto (sk_keypair demo_key))"
  "sign_settled demo_crypto demo_print p demo_key = Inr (demo_doc p)"
  by (simp_all add: ed25519_correct_def demo_crypto_def demo_keys_def demo_key_def KeySet_get_def
    sign_settled_def canonical_bytes_def demo_print_def demo_doc_def)

lemma floor_policy_accepted:
  "check_schema_version (sp_schema_version floor_policy) = Inr ()" "validate floor_policy = Inr ()"
  by (simp add: check_schema_version_ok_iff floor_policy_def,
      simp add: validate_ok_iff floor_policy_def metadata_denied_def floor_net_def redirect_violations_empty_iff)

lemma demo_doc_accepted:
  "verify_settled demo_crypto (\<lambda>_. Inr (demo_doc floor_policy)) demo_print [] demo_keys = Inr floor_policy"
  unfolding verify_settled_Inr_iff
  using sign_settled_verifies [OF demo_laws(1,2,3) floor_policy_accepted] by blast

section \<open>Properties\<close>

text \<open>C4. The runtime gate accepts a document exactly when its body has a schema version this build reads, the
  signature the envelope carries (and no other) is an Ed25519 signature, made in this namespace by the
  very key the trust store holds under the envelope's key name, that verifies over the
  domain-separated hash of the body's canonical text, and every framework invariant holds; what it
  returns is that body.\<close>

theorem verify_settled_exact:
  "verify_settled C parse print bs keys = Inr p \<longleftrightarrow>
     (\<exists>doc. parse bs = Inr doc \<and> p = doc_policy doc
        \<and> 3 \<le> sp_schema_version p \<and> sp_schema_version p \<le> 5
        \<and> authentic C print keys (doc_signature doc) p \<and> validate p = Inr ())"
  by (auto simp: verify_settled_Inr_iff verify_doc_authentic_iff)

theorem verify_settled_exact_witness:
  "authentic demo_crypto demo_print demo_keys (doc_signature (demo_doc floor_policy)) floor_policy"
  using verify_settled_exact [THEN iffD1, OF demo_doc_accepted] by simp

text \<open>C20. What the compiler signs, the runtime accepts: when the store holds the public half of the signing key
  under its name and the signature scheme is correct, a signed policy of a readable schema version
  that satisfies the framework invariants passes the gate and comes back unchanged, whatever bytes
  read back as the signed document.\<close>

theorem sign_then_verify:
  assumes "ed25519_correct C"
    and "KeySet_get keys (sk_key_id key) = Some (cr_public C (sk_keypair key))"
    and "sign_settled C print p key = Inr doc" "parse bs = Inr doc"
    and "check_schema_version (sp_schema_version p) = Inr ()" "validate p = Inr ()"
  shows "verify_settled C parse print bs keys = Inr p"
  using sign_settled_verifies [OF assms(1-3,5,6)] assms(4) by (simp add: verify_settled_Inr_iff)

theorem sign_then_verify_witness:
  "verify_settled demo_crypto (\<lambda>_. Inr (demo_doc redirect_policy)) demo_print [] demo_keys = Inr redirect_policy"
proof (rule sign_then_verify [where key = demo_key and doc = "demo_doc redirect_policy"])
  show "check_schema_version (sp_schema_version redirect_policy) = Inr ()"
    by (simp add: check_schema_version_ok_iff redirect_policy_def floor_policy_def)
qed (simp_all add: demo_laws redirect_policy_valid)

end
