(* ===== verification/Priv_Addr.thy ===== *)
theory Priv_Addr
  imports Net_Addr Rust_Text
begin

unbundle bit_operations_syntax

text \<open>
  The addresses a kennel may use (\<open>kennel-privhelper/src/addr.rs\<close>) and the check the privileged helper
  makes before every address operation (\<open>validate.rs\<close>).  A user's subnet is a hash of the user id that
  the kernel reports; the request only supplies the kennel context.
\<close>

section \<open>Construction\<close>

definition V6_PREFIX :: u8 where "V6_PREFIX = 64"
definition KENNEL_ULA :: bytes where "KENNEL_ULA = [0x6b, 0x6e]"

definition fnv_step :: "u32 \<Rightarrow> u8 \<Rightarrow> u32" where
  "fnv_step h b = (h XOR ucast b) * 0x01000193"

definition uid_subnet :: "u32 \<Rightarrow> bytes" where
  "uid_subnet uid = drop 1 (u32_to_be (foldl fnv_step 0x811c9dc5 (u32_to_le uid)))"

definition loopback_v6 :: "u32 \<Rightarrow> u16 \<Rightarrow> u64 \<Rightarrow> Ipv6Addr" where
  "loopback_v6 uid ctx host =
     v6_from ([0xfd] @ KENNEL_ULA @ uid_subnet uid @ u16_to_be ctx @ u64_to_be host)"

definition TUN_CTX_FLIP :: u16 where "TUN_CTX_FLIP = 0x8000"
definition TUN_HOST :: u64 where "TUN_HOST = 1"
definition TUN_RESOLVER_HOST :: u64 where "TUN_RESOLVER_HOST = 2"

definition tun_addr :: "u32 \<Rightarrow> u16 \<Rightarrow> Ipv6Addr" where
  "tun_addr op_uid kennel_ctx = loopback_v6 op_uid (kennel_ctx XOR TUN_CTX_FLIP) TUN_HOST"

definition tun_resolver_addr :: "u32 \<Rightarrow> u16 \<Rightarrow> Ipv6Addr" where
  "tun_resolver_addr op_uid kennel_ctx = loopback_v6 op_uid (kennel_ctx XOR TUN_CTX_FLIP) TUN_RESOLVER_HOST"

section \<open>Validation\<close>

definition IFNAME_MAX :: nat where "IFNAME_MAX = 15"
definition IFACE_PREFIX :: string where "IFACE_PREFIX = ''kennel-''"

record ReservedScope =
  rs_uid :: u32

record AddrRequest =
  ar_ctx :: u16
  ar_interface :: string
  ar_addr :: IpAddr
  ar_prefix :: u8

datatype Refusal = BadPrefix u8 u8 | AddrOutOfScope | InterfaceNotAllowed | InterfaceNameTooLong

definition iface_byte :: "char \<Rightarrow> bool" where
  "iface_byte c \<longleftrightarrow> (let n = (of_char c :: nat) in 97 \<le> n \<and> n \<le> 122 \<or> 48 \<le> n \<and> n \<le> 57 \<or> c = CHR ''-'')"

definition validate_interface :: "string \<Rightarrow> Refusal + unit" where
  "validate_interface interface =
     (if interface = ''lo'' then Inr ()
      else case strip_prefix IFACE_PREFIX interface of
             None \<Rightarrow> Inl InterfaceNotAllowed
           | Some ident \<Rightarrow>
               if length interface > IFNAME_MAX then Inl InterfaceNameTooLong
               else if ident = [] then Inl InterfaceNotAllowed
               else if list_all iface_byte ident then Inr ()
               else Inl InterfaceNotAllowed)"

definition validate_addr :: "AddrRequest \<Rightarrow> ReservedScope \<Rightarrow> Refusal + unit" where
  "validate_addr req scope =
     (case validate_interface (ar_interface req) of
        Inl r \<Rightarrow> Inl r
      | Inr _ \<Rightarrow>
          (case ar_addr req of
             V4 _ \<Rightarrow> Inl AddrOutOfScope
           | V6 v6 \<Rightarrow>
               if ar_prefix req \<noteq> V6_PREFIX then Inl (BadPrefix V6_PREFIX (ar_prefix req))
               else let o8 = v6_octets v6;
                        addr_ctx = u16_of_be (take 2 (drop 6 o8))
                    in if take 1 o8 = [0xfd] \<and> take 2 (drop 1 o8) = KENNEL_ULA
                          \<and> take 3 (drop 3 o8) = uid_subnet (rs_uid scope) \<and> addr_ctx = ar_ctx req
                       then Inr () else Inl AddrOutOfScope))"

section \<open>The validator takes apart what the constructor builds\<close>

lemma length_uid_subnet [simp]: "length (uid_subnet uid) = 3"
  by (simp add: uid_subnet_def)

lemma length_KENNEL_ULA [simp]: "length KENNEL_ULA = 2"
  by (simp add: KENNEL_ULA_def)

lemma loopback_octets:
  "v6_octets (loopback_v6 uid ctx host) = [0xfd] @ KENNEL_ULA @ uid_subnet uid @ u16_to_be ctx @ u64_to_be host"
  unfolding loopback_v6_def by (rule octets_v6_from) simp

lemma split16:
  assumes "length xs = 16"
  shows "xs = take 1 xs @ take 2 (drop 1 xs) @ take 3 (drop 3 xs) @ take 2 (drop 6 xs) @ drop 8 xs"
proof -
  have "drop 8 xs = drop 2 (drop 6 xs)" "drop 6 xs = drop 3 (drop 3 xs)" "drop 3 xs = drop 2 (drop 1 xs)" by simp_all
  then show ?thesis by (metis append_take_drop_id)
qed

lemma in_loopback_iff:
  "(\<exists>host. a = loopback_v6 uid ctx host) \<longleftrightarrow>
     take 1 (v6_octets a) = [0xfd] \<and> take 2 (drop 1 (v6_octets a)) = KENNEL_ULA
     \<and> take 3 (drop 3 (v6_octets a)) = uid_subnet uid \<and> u16_of_be (take 2 (drop 6 (v6_octets a))) = ctx"
    (is "?l \<longleftrightarrow> ?r")
proof
  assume ?l
  then show ?r by (auto simp: loopback_octets u16_of_to_be)
next
  assume r: ?r
  let ?o = "v6_octets a"
  have "u16_to_be ctx = take 2 (drop 6 ?o)"
    using r by (auto simp: to_of_bytes)
  moreover have "u64_to_be (u64_of_be (drop 8 ?o)) = drop 8 ?o" by (rule to_of_bytes) simp
  ultimately have "?o = [0xfd] @ KENNEL_ULA @ uid_subnet uid @ u16_to_be ctx @ u64_to_be (u64_of_be (drop 8 ?o))"
    using r split16 [of ?o] by simp
  then have "a = loopback_v6 uid ctx (u64_of_be (drop 8 ?o))"
    unfolding loopback_v6_def by (metis from_octets(2))
  then show ?l by blast
qed

lemma validate_addr_iff:
  "validate_addr req scope = Inr () \<longleftrightarrow>
     validate_interface (ar_interface req) = Inr () \<and> ar_prefix req = V6_PREFIX
     \<and> (\<exists>host. ar_addr req = V6 (loopback_v6 (rs_uid scope) (ar_ctx req) host))"
proof (cases "ar_addr req")
  case (V4 a)
  then show ?thesis by (simp add: validate_addr_def split: sum.splits)
next
  case (V6 a)
  then show ?thesis using in_loopback_iff [of a "rs_uid scope" "ar_ctx req"]
    by (auto simp: validate_addr_def Let_def split: sum.splits)
qed

section \<open>Subnets of different users\<close>

text \<open>Only the low 24 bits of the hash are used, and modulo \<open>2^24\<close> the multiplier is 403.\<close>

lemma drop_be_bytes: "drop 1 (be_bytes (Suc n) x) = be_bytes n x"
  by (simp only: be_bytes_Cons) simp

lemma be3_val: "be_val (be_bytes 3 x) = x mod 16777216"
  by (simp add: be_val_be_bytes)

lemma uid_subnet_eq_iff:
  "uid_subnet u = uid_subnet v \<longleftrightarrow>
     unat (foldl fnv_step 0x811c9dc5 (u32_to_le u)) mod 16777216 = unat (foldl fnv_step 0x811c9dc5 (u32_to_le v)) mod 16777216"
proof -
  have "drop 1 (be_bytes 4 x) = be_bytes 3 x" for x
    using drop_be_bytes [of 3 x] by (simp only: numeral_eq_Suc) simp
  moreover have "be_bytes 3 x = be_bytes 3 y \<longleftrightarrow> x mod 16777216 = y mod 16777216" for x y
    by (metis be3_val be_bytes_be_val length_be_bytes)
  ultimately show ?thesis by (simp add: uid_subnet_def u32_to_be_def)
qed

lemma fnv_low: "unat (fnv_step h b) mod 16777216 = unat (h XOR ucast b) * 403 mod 16777216"
proof -
  have "unat (fnv_step h b) mod 16777216 = unat (h XOR ucast b) * 0x01000193 mod 4294967296 mod 16777216"
    by (simp add: fnv_step_def unat_word_ariths)
  also have "\<dots> = unat (h XOR ucast b) * 0x01000193 mod 16777216" by (rule mod_mod_cancel) (simp add: dvd_def)
  also have "\<dots> = unat (h XOR ucast b) * (0x01000193 mod 16777216) mod 16777216" by (rule mod_mult_right_eq [symmetric])
  finally show ?thesis by simp
qed

lemma mult_403_cancel:
  fixes x y :: nat
  assumes "x * 403 mod 16777216 = y * 403 mod 16777216"
  shows "x mod 16777216 = y mod 16777216"
proof -
  have inv: "z mod 16777216 = z * 403 mod 16777216 * 10241179 mod 16777216" for z :: nat
  proof -
    have "z * 403 mod 16777216 * 10241179 mod 16777216 = z * (403 * 10241179) mod 16777216"
      by (simp only: mod_mult_left_eq mult.assoc)
    also have "\<dots> = z * (403 * 10241179 mod 16777216) mod 16777216" by (rule mod_mult_right_eq [symmetric])
    finally show ?thesis by simp
  qed
  show ?thesis using inv [of x] inv [of y] assms by simp
qed

lemma xor_byte_high: "unat (h XOR ucast (b :: u8)) div 256 = unat (h :: u32) div 256"
proof -
  have "drop_bit 8 (h XOR ucast b) = drop_bit 8 h"
    by (rule bit_eqI) (auto simp: bit_simps dest: bit_imp_le_length)
  then have "unat (drop_bit 8 (h XOR ucast b)) = unat (drop_bit 8 h)" by simp
  then show ?thesis by (simp add: drop_bit_eq_div unat_div)
qed

lemma first_step_low:
  "unat (fnv_step 0x811c9dc5 b) mod 16777216 = 730880 + 403 * (unat ((0x811c9dc5 :: u32) XOR ucast b) mod 256)"
proof -
  define x where "x = unat ((0x811c9dc5 :: u32) XOR ucast b)"
  have "x div 256 = 0x811c9d" using xor_byte_high [of "0x811c9dc5" b] by (simp add: x_def)
  then have x: "x = 0x811c9d00 + x mod 256" using div_mult_mod_eq [of x 256] by simp
  have "x * 403 mod 16777216 = (0x811c9d00 * 403 + x mod 256 * 403) mod 16777216"
    by (subst x) (simp add: algebra_simps)
  also have "\<dots> = (730880 + x mod 256 * 403) mod 16777216"
    by (subst mod_add_left_eq [symmetric]) simp
  also have "\<dots> = 730880 + x mod 256 * 403"
  proof (rule mod_less)
    have "x mod 256 < 256" by simp
    then show "730880 + x mod 256 * 403 < 16777216" by simp
  qed
  finally show ?thesis by (simp add: fnv_low x_def mult.commute)
qed

lemma step_zero: "unat (fnv_step h 0) mod 16777216 = unat h * 403 mod 16777216"
  by (simp add: fnv_low)

lemma zero_steps_cancel:
  assumes "unat (fnv_step (fnv_step h 0) 0) mod 16777216 = unat (fnv_step (fnv_step h' 0) 0) mod 16777216"
  shows "unat h mod 16777216 = unat h' mod 16777216"
proof (rule mult_403_cancel)
  have "unat (fnv_step h 0) mod 16777216 = unat (fnv_step h' 0) mod 16777216"
    by (rule mult_403_cancel) (use assms in \<open>simp only: step_zero\<close>)
  then show "unat h * 403 mod 16777216 = unat h' * 403 mod 16777216" by (simp only: step_zero)
qed

lemma small_uid_bytes:
  assumes "unat (uid :: u32) < 65536"
  shows "u32_to_le uid = [word_of_nat (unat uid), word_of_nat (unat uid div 256), 0, 0]"
proof -
  have "unat uid div 256 div 256 = 0" "unat uid div 256 div 256 div 256 = 0" using assms by simp_all
  then show ?thesis by (simp add: u32_to_le_def be_bytes_numeral)
qed

lemma byte_digits:
  assumes "n < 65536" "m < 65536" "(word_of_nat n :: u8) = word_of_nat m"
    "(word_of_nat (n div 256) :: u8) = word_of_nat (m div 256)"
  shows "n = m"
proof -
  from assms(3,4) have "n mod 256 = m mod 256" "n div 256 mod 256 = m div 256 mod 256"
    using unat_of_nat_u8 by metis+
  moreover have "n div 256 < 256" "m div 256 < 256" using assms(1,2) by simp_all
  ultimately show ?thesis by (metis div_mult_mod_eq mod_less)
qed

lemma spread_403:
  fixes a c :: nat
  assumes "(730880 + 403 * a) div 256 = (730880 + 403 * c) div 256"
  shows "a = c"
  using assms by linarith

lemma xor_byte_low:
  assumes "unat ((h :: u32) XOR ucast (b :: u8)) mod 256 = unat (h XOR ucast c) mod 256"
  shows "b = c"
proof -
  have "take_bit 8 (h XOR ucast b) = take_bit 8 (h XOR ucast c)"
    using assms by (simp add: word_unat_eq_iff take_bit_eq_mod unat_mod)
  then have "bit (h XOR ucast b) n = bit (h XOR ucast c) n" if "n < 8" for n
    using that by (metis bit_take_bit_iff)
  then have "bit b n = bit c n" if "n < 8" for n
    using that by (auto simp: bit_simps)
  then show ?thesis by (intro bit_eqI) simp
qed

lemma uid_subnet_inj:
  assumes u: "unat u < 65536" and v: "unat v < 65536" and eq: "uid_subnet u = uid_subnet v"
  shows "u = v"
proof -
  define b0 b1 c0 c1 :: u8 where "b0 = word_of_nat (unat u)" and "b1 = word_of_nat (unat u div 256)"
    and "c0 = word_of_nat (unat v)" and "c1 = word_of_nat (unat v div 256)"
  let ?h = "fnv_step 0x811c9dc5"
  have "unat (fnv_step (fnv_step (fnv_step (?h b0) b1) 0) 0) mod 16777216 =
      unat (fnv_step (fnv_step (fnv_step (?h c0) c1) 0) 0) mod 16777216"
    using eq by (simp only: uid_subnet_eq_iff small_uid_bytes [OF u] small_uid_bytes [OF v] foldl.simps
      b0_def b1_def c0_def c1_def)
  then have "unat (fnv_step (?h b0) b1) mod 16777216 = unat (fnv_step (?h c0) c1) mod 16777216"
    by (rule zero_steps_cancel)
  then have low: "unat (?h b0 XOR ucast b1) mod 16777216 = unat (?h c0 XOR ucast c1) mod 16777216"
    by (simp only: fnv_low) (rule mult_403_cancel)
  have split: "x mod 16777216 div 256 = x div 256 mod 65536" for x :: nat
    using mod_mult2_eq [of x 256 65536] by simp
  have "unat (?h b0) div 256 mod 65536 = unat (?h c0) div 256 mod 65536"
    using arg_cong [OF low, of "\<lambda>x. x div 256"] by (simp only: split xor_byte_high)
  then have "(730880 + 403 * (unat ((0x811c9dc5 :: u32) XOR ucast b0) mod 256)) div 256 =
      (730880 + 403 * (unat ((0x811c9dc5 :: u32) XOR ucast c0) mod 256)) div 256"
    by (simp only: split [symmetric] first_step_low)
  then have "unat ((0x811c9dc5 :: u32) XOR ucast b0) mod 256 = unat ((0x811c9dc5 :: u32) XOR ucast c0) mod 256"
    by (rule spread_403)
  then have b0: "b0 = c0" by (rule xor_byte_low)
  moreover have "unat (?h b0 XOR ucast b1) mod 256 = unat (?h b0 XOR ucast c1) mod 256"
    using arg_cong [OF low, of "\<lambda>x. x mod 256"] by (simp add: mod_mod_cancel b0)
  then have "b1 = c1" by (rule xor_byte_low)
  ultimately have "unat u = unat v" using u v by (intro byte_digits) (simp_all add: b0_def b1_def c0_def c1_def)
  then show ?thesis by (simp add: word_unat_eq_iff)
qed

lemma loopback_eq_iff:
  "loopback_v6 u c h = loopback_v6 v d k \<longleftrightarrow> uid_subnet u = uid_subnet v \<and> c = d \<and> h = k"
proof
  assume "loopback_v6 u c h = loopback_v6 v d k"
  then have "[0xfd] @ KENNEL_ULA @ uid_subnet u @ u16_to_be c @ u64_to_be h =
      [0xfd] @ KENNEL_ULA @ uid_subnet v @ u16_to_be d @ u64_to_be k"
    using loopback_octets by metis
  then have "uid_subnet u = uid_subnet v" "u16_to_be c = u16_to_be d" "u64_to_be h = u64_to_be k" by auto
  then show "uid_subnet u = uid_subnet v \<and> c = d \<and> h = k"
    by (metis u16_of_to_be u64_of_to_be)
qed (simp add: loopback_v6_def)

lemma flip_high:
  assumes "unat (c :: u16) < 32768" "unat (d :: u16) < 32768"
  shows "c XOR TUN_CTX_FLIP \<noteq> d"
proof
  assume "c XOR TUN_CTX_FLIP = d"
  moreover have "\<not> bit w 15" if "unat w < 32768" for w :: u16
  proof -
    have "unat (w div 32768) = 0" using that by (simp add: unat_div)
    then have "w div 32768 = 0" by (simp add: word_unat_eq_iff)
    then show ?thesis by (simp add: bit_iff_odd)
  qed
  moreover have "bit (TUN_CTX_FLIP :: u16) 15" unfolding TUN_CTX_FLIP_def by code_simp
  ultimately show False using assms by (metis bit_xor_iff)
qed

section \<open>Properties\<close>

text \<open>C25. The helper accepts an address operation exactly when the interface is the loopback device or a well-formed
  kennel interface, the prefix length is 64, and the address is one the constructor builds for the
  caller's own user id and the request's context; nothing else passes, in particular no IPv4 address.\<close>

theorem address_scope_exact:
  "validate_addr req scope = Inr () \<longleftrightarrow>
     (ar_interface req = ''lo'' \<or> (\<exists>ident. ar_interface req = ''kennel-'' @ ident \<and> ident \<noteq> [] \<and> length ident \<le> 8
        \<and> list_all iface_byte ident))
     \<and> ar_prefix req = 64
     \<and> (\<exists>host. ar_addr req = V6 (loopback_v6 (rs_uid scope) (ar_ctx req) host))"
proof -
  have "validate_interface i = Inr () \<longleftrightarrow>
      i = ''lo'' \<or> (\<exists>ident. i = ''kennel-'' @ ident \<and> ident \<noteq> [] \<and> length ident \<le> 8 \<and> list_all iface_byte ident)" for i
    by (auto simp: validate_interface_def IFACE_PREFIX_def IFNAME_MAX_def strip_prefix_Some_iff split: option.splits)
  then show ?thesis by (simp add: validate_addr_iff V6_PREFIX_def)
qed

text \<open>C26. Users and kennels do not share addresses: for user ids below 65536 an address that passes the check for one
  user and context passes it for no other user or context, and the tun network of a kennel is disjoint
  from the loopback network of every kennel with a context below \<open>2^15\<close>.\<close>

theorem kennel_addresses_disjoint:
  assumes "unat u < 65536" "unat v < 65536"
    "validate_addr \<lparr>ar_ctx = c, ar_interface = i, ar_addr = a, ar_prefix = p\<rparr> \<lparr>rs_uid = u\<rparr> = Inr ()"
    "validate_addr \<lparr>ar_ctx = d, ar_interface = j, ar_addr = a, ar_prefix = q\<rparr> \<lparr>rs_uid = v\<rparr> = Inr ()"
  shows "u = v \<and> c = d \<and>
    (unat c < 32768 \<and> unat e < 32768 \<longrightarrow> a \<noteq> V6 (tun_addr w e) \<and> a \<noteq> V6 (tun_resolver_addr w e))"
proof -
  from assms(3) obtain h where a: "a = V6 (loopback_v6 u c h)" unfolding validate_addr_iff by auto
  moreover from assms(4) obtain k where "a = V6 (loopback_v6 v d k)" unfolding validate_addr_iff by auto
  ultimately have "uid_subnet u = uid_subnet v" "c = d" by (simp_all add: loopback_eq_iff)
  moreover have "unat c < 32768 \<and> unat e < 32768 \<longrightarrow> a \<noteq> V6 (tun_addr w e) \<and> a \<noteq> V6 (tun_resolver_addr w e)"
    using flip_high [of e c] by (auto simp: a tun_addr_def tun_resolver_addr_def loopback_eq_iff)
  ultimately show ?thesis using uid_subnet_inj [OF assms(1,2)] by simp
qed

theorem kennel_addresses_disjoint_witness: "V6 (loopback_v6 1000 3 1) \<noteq> V6 (tun_addr 1000 3)"
proof -
  have v: "validate_addr \<lparr>ar_ctx = 3, ar_interface = ''lo'', ar_addr = V6 (loopback_v6 1000 3 1), ar_prefix = 64\<rparr>
      \<lparr>rs_uid = 1000\<rparr> = Inr ()"
    by (auto simp: validate_addr_iff validate_interface_def V6_PREFIX_def)
  show ?thesis using kennel_addresses_disjoint [OF _ _ v v, of 3 1000] by simp
qed

end
