(* ===== verification/Rate_Limit.thy ===== *)
theory Rate_Limit
  imports Kennel_Prelude
begin

text \<open>
  The two token buckets of the system: the message limiter of the D-Bus boundary
  (\<open>kennel-lib-binder/src/ratelimit.rs\<close>) and the new-flow bucket of the tun broker
  (\<open>kennel-tun-broker/src/table.rs\<close>), and the contract they share: what a limiter admits over a run is
  bounded by its initial level and the time that passed.
\<close>

section \<open>The contract of a limiter\<close>

text \<open>A limiter takes the current time and answers whether it admits.  Its level pays for what it admits and
  grows with its clock, which never passes the current time.\<close>

locale limiter =
  fixes attempt :: "'s \<Rightarrow> nat \<Rightarrow> bool \<times> 's" and level :: "'s \<Rightarrow> nat" and clock :: "'s \<Rightarrow> nat"
    and cost :: nat and gain :: nat and inv :: "'s \<Rightarrow> bool"
  assumes pays: "inv s \<Longrightarrow> clock s \<le> t \<Longrightarrow> attempt s t = (ok, s') \<Longrightarrow>
      level s' + (if ok then cost else 0) \<le> level s + gain * (clock s' - clock s)"
    and clock_mono: "inv s \<Longrightarrow> clock s \<le> t \<Longrightarrow> attempt s t = (ok, s') \<Longrightarrow> clock s \<le> clock s' \<and> clock s' \<le> t"
    and inv_attempt: "inv s \<Longrightarrow> clock s \<le> t \<Longrightarrow> attempt s t = (ok, s') \<Longrightarrow> inv s'"

text \<open>A run over a list of times: how many attempts were admitted, and the final state.\<close>

fun admitted :: "('s \<Rightarrow> nat \<Rightarrow> bool \<times> 's) \<Rightarrow> 's \<Rightarrow> nat list \<Rightarrow> nat \<times> 's" where
  "admitted attempt s [] = (0, s)"
| "admitted attempt s (t # ts) =
     (case attempt s t of (ok, s') \<Rightarrow>
        case admitted attempt s' ts of (n, s'') \<Rightarrow> ((if ok then 1 else 0) + n, s''))"

context limiter
begin

lemma run_pays:
  assumes "inv s" "sorted (clock s # ts)" "admitted attempt s ts = (n, s')"
  shows "level s' + cost * n \<le> level s + gain * (clock s' - clock s) \<and> clock s \<le> clock s'
    \<and> clock s' \<le> last (clock s # ts)"
  using assms
proof (induction ts arbitrary: s n)
  case (Cons t ts)
  obtain ok s1 where a: "attempt s t = (ok, s1)" by fastforce
  obtain m where m: "admitted attempt s1 ts = (m, s')" and n: "n = (if ok then 1 else 0) + m"
    using Cons.prems(3) a by (auto split: prod.splits)
  have t: "clock s \<le> t" using Cons.prems(2) by simp
  note one = pays [OF Cons.prems(1) t a] clock_mono [OF Cons.prems(1) t a] inv_attempt [OF Cons.prems(1) t a]
  have s1: "sorted (clock s1 # ts)" using one(2) Cons.prems(2) by auto
  note IH = Cons.IH [OF one(3) s1 m]
  have last: "clock s' \<le> last (clock s # t # ts)"
    using IH one(2) by (cases ts) auto
  have "gain * (clock s' - clock s) = gain * (clock s' - clock s1) + gain * (clock s1 - clock s)"
    using IH one(2) by (simp add: add_mult_distrib2 [symmetric])
  moreover have "cost * n = cost * m + (if ok then cost else 0)" by (simp add: n)
  ultimately have "level s' + cost * n \<le> level s + gain * (clock s' - clock s)"
    using IH one(1) by linarith
  with IH one(2) last show ?case by linarith
qed simp

text \<open>Over a run from \<open>s\<close> no more is admitted than the level and the elapsed time pay for.\<close>

lemma admitted_bound:
  assumes "inv s" "sorted (clock s # ts)" "admitted attempt s ts = (n, s')"
  shows "cost * n \<le> level s + gain * (last (clock s # ts) - clock s)"
proof -
  note r = run_pays [OF assms]
  then have "gain * (clock s' - clock s) \<le> gain * (last (clock s # ts) - clock s)"
    by (intro mult_left_mono) auto
  with r show ?thesis by linarith
qed

end

section \<open>The message limiter\<close>

definition DEFAULT_PER_SECOND :: nat where "DEFAULT_PER_SECOND = 200"
definition DEFAULT_BURST :: nat where "DEFAULT_BURST = 400"
definition TOKEN :: nat where "TOKEN = 1000"

record RateLimiter =
  rl_capacity :: nat
  rl_tokens :: nat
  rl_refill_per_ms :: nat
  rl_last_ms :: nat
  rl_started :: bool

definition RateLimiter_new :: "nat \<Rightarrow> nat \<Rightarrow> RateLimiter" where
  "RateLimiter_new per_second burst =
     (let capacity = sat_mul u64_max burst TOKEN
      in \<lparr>rl_capacity = capacity, rl_tokens = capacity, rl_refill_per_ms = per_second, rl_last_ms = 0,
          rl_started = False\<rparr>)"

definition RateLimiter_with_defaults :: RateLimiter where
  "RateLimiter_with_defaults = RateLimiter_new DEFAULT_PER_SECOND DEFAULT_BURST"

definition rl_refill :: "RateLimiter \<Rightarrow> nat \<Rightarrow> RateLimiter" where
  "rl_refill s now_ms =
     (if rl_started s
      then s\<lparr>rl_tokens := min (rl_capacity s)
               (sat_add u64_max (rl_tokens s) (sat_mul u64_max (rl_refill_per_ms s) (now_ms - rl_last_ms s)))\<rparr>
      else s\<lparr>rl_started := True\<rparr>)"

definition allow_message :: "RateLimiter \<Rightarrow> nat \<Rightarrow> bool \<times> RateLimiter" where
  "allow_message s now_ms =
     (let s = (rl_refill s now_ms)\<lparr>rl_last_ms := now_ms\<rparr>
      in if rl_tokens s \<ge> TOKEN then (True, s\<lparr>rl_tokens := rl_tokens s - TOKEN\<rparr>) else (False, s))"

interpretation message_limiter: limiter allow_message rl_tokens rl_last_ms TOKEN r "\<lambda>s. rl_refill_per_ms s = r"
  for r :: nat
proof
  fix s t ok s'
  assume r: "rl_refill_per_ms s = r" and t: "rl_last_ms s \<le> t" and a: "allow_message s t = (ok, s')"
  define u where "u = (rl_refill s t)\<lparr>rl_last_ms := t\<rparr>"
  have u: "rl_last_ms u = t" "rl_refill_per_ms u = r" "rl_tokens u \<le> rl_tokens s + r * (t - rl_last_ms s)"
    using r sat_add_le_sum [of u64_max "rl_tokens s" "sat_mul u64_max r (t - rl_last_ms s)"]
      sat_mul_le_prod [of u64_max r "t - rl_last_ms s"]
    by (auto simp: u_def rl_refill_def min_le_iff_disj)
  have s': "s' = (if ok then u\<lparr>rl_tokens := rl_tokens u - TOKEN\<rparr> else u)" "ok \<longleftrightarrow> rl_tokens u \<ge> TOKEN"
    using a by (auto simp: allow_message_def u_def [symmetric] Let_def split: if_splits)
  show "rl_tokens s' + (if ok then TOKEN else 0) \<le> rl_tokens s + r * (rl_last_ms s' - rl_last_ms s)"
    using u s' by auto
  show "rl_last_ms s \<le> rl_last_ms s' \<and> rl_last_ms s' \<le> t" using u t s' by simp
  show "rl_refill_per_ms s' = r" using u s' by simp
qed

section \<open>The new-flow bucket\<close>

text \<open>An instant is a number of nanoseconds; the clock's representation ends at \<open>instant_max\<close>.\<close>

definition instant_max :: nat where
  "instant_max = (2 ^ 63 - 1) * 10 ^ 9 + 999999999"

definition as_millis :: "nat \<Rightarrow> nat" where "as_millis ns = ns div 10 ^ 6"

record TokenBucket =
  tb_capacity :: nat
  tb_tokens :: nat
  tb_refill_per_sec :: nat
  tb_last :: nat

definition TokenBucket_new :: "nat \<Rightarrow> nat \<Rightarrow> nat \<Rightarrow> TokenBucket" where
  "TokenBucket_new capacity refill_per_sec now =
     \<lparr>tb_capacity = capacity, tb_tokens = capacity, tb_refill_per_sec = refill_per_sec, tb_last = now\<rparr>"

definition credit :: "nat \<Rightarrow> nat \<Rightarrow> nat" where
  "credit rate elapsed_ms = sat_mul u128_max elapsed_ms rate div 1000"

definition refill :: "TokenBucket \<Rightarrow> nat \<Rightarrow> TokenBucket" where
  "refill b now =
     (if tb_refill_per_sec b = 0 then b
      else let credited = credit (tb_refill_per_sec b) (as_millis (now - tb_last b))
           in if credited = 0 then b
              else let credited = min credited u32_max;
                       consumed_ms = sat_mul u64_max credited 1000 div tb_refill_per_sec b;
                       advanced = tb_last b + consumed_ms * 10 ^ 6
                   in b\<lparr>tb_tokens := min (sat_add u32_max (tb_tokens b) credited) (tb_capacity b),
                        tb_last := (if advanced \<le> instant_max then advanced else now)\<rparr>)"

definition try_take :: "TokenBucket \<Rightarrow> nat \<Rightarrow> bool \<times> TokenBucket" where
  "try_take b now =
     (let b = refill b now
      in if tb_tokens b \<ge> 1 then (True, b\<lparr>tb_tokens := tb_tokens b - 1\<rparr>) else (False, b))"

text \<open>The whole milliseconds a token costs: the quotient is rounded down.\<close>

definition token_ns :: "nat \<Rightarrow> nat" where "token_ns rate = 1000 div rate * 10 ^ 6"

lemma credited_time:
  fixes c r :: nat
  assumes "0 < r"
  shows "c * (1000 div r) \<le> c * 1000 div r"
proof -
  have "c * (1000 div r) * r \<le> c * 1000"
    by (simp add: mult.assoc)
  with assms show ?thesis by (simp add: less_eq_div_iff_mult_less_eq)
qed

lemma consumed_within:
  fixes c e r :: nat
  assumes "0 < r" "c \<le> e * r div 1000"
  shows "c * 1000 div r \<le> e"
proof -
  have "c * 1000 \<le> e * r" using assms(2) by (simp add: less_eq_div_iff_mult_less_eq)
  then have "c * 1000 div r \<le> e * r div r" by (rule div_le_mono)
  with assms(1) show ?thesis by simp
qed

lemma refill_facts:
  assumes "tb_refill_per_sec b = r" "0 < r" "tb_last b \<le> now" "now \<le> instant_max"
  shows "tb_last b \<le> tb_last (refill b now) \<and> tb_last (refill b now) \<le> now
    \<and> tb_tokens (refill b now) * token_ns r \<le> tb_tokens b * token_ns r + (tb_last (refill b now) - tb_last b)
    \<and> tb_refill_per_sec (refill b now) = r"
proof (cases "credit r (as_millis (now - tb_last b)) = 0")
  case True
  with assms show ?thesis by (simp add: refill_def)
next
  case False
  define c where "c = min (credit r (as_millis (now - tb_last b))) u32_max"
  define consumed where "consumed = c * 1000 div r"
  have sat: "sat_mul u64_max c 1000 = c * 1000"
    by (rule sat_mul_eq) (simp add: c_def u32_max_def u64_max_def min_def)
  have "credit r (as_millis (now - tb_last b)) \<le> as_millis (now - tb_last b) * r div 1000"
    unfolding credit_def by (rule div_le_mono [OF sat_mul_le_prod])
  then have "c \<le> as_millis (now - tb_last b) * r div 1000" by (simp add: c_def)
  with assms(2) have "consumed \<le> as_millis (now - tb_last b)" unfolding consumed_def by (rule consumed_within)
  then have "consumed * 10 ^ 6 \<le> now - tb_last b"
    by (simp add: as_millis_def less_eq_div_iff_mult_less_eq)
  then have adv: "tb_last b + consumed * 10 ^ 6 \<le> now" using assms(3) by linarith
  have rf: "refill b now = b\<lparr>tb_tokens := min (sat_add u32_max (tb_tokens b) c) (tb_capacity b),
      tb_last := tb_last b + consumed * 10 ^ 6\<rparr>"
    using assms(1,2,4) False adv
    by (simp add: refill_def Let_def sat consumed_def c_def [symmetric])
  have "c * (1000 div r) * 10 ^ 6 \<le> consumed * 10 ^ 6"
    using credited_time [OF assms(2), of c] unfolding consumed_def by (rule mult_right_mono) simp
  then have time: "c * token_ns r \<le> consumed * 10 ^ 6" by (simp add: token_ns_def mult.assoc)
  have "min (sat_add u32_max (tb_tokens b) c) (tb_capacity b) \<le> tb_tokens b + c"
    using sat_add_le_sum [of u32_max "tb_tokens b" c] by linarith
  then have "min (sat_add u32_max (tb_tokens b) c) (tb_capacity b) * token_ns r \<le> (tb_tokens b + c) * token_ns r"
    by (rule mult_right_mono) simp
  with time have "min (sat_add u32_max (tb_tokens b) c) (tb_capacity b) * token_ns r
      \<le> tb_tokens b * token_ns r + consumed * 10 ^ 6" by (simp add: add_mult_distrib)
  with rf adv assms(1) show ?thesis by simp
qed

text \<open>The bucket as a limiter whose level is the time its tokens stand for.\<close>

definition try_take_until :: "TokenBucket \<Rightarrow> nat \<Rightarrow> bool \<times> TokenBucket" where
  "try_take_until b now = try_take b (min now instant_max)"

interpretation flow_limiter: limiter try_take_until "\<lambda>b. tb_tokens b * token_ns r" tb_last "token_ns r" 1
  "\<lambda>b. tb_refill_per_sec b = r \<and> 0 < r \<and> tb_last b \<le> instant_max"
  for r :: nat
proof
  fix b t ok b'
  assume i: "tb_refill_per_sec b = r \<and> 0 < r \<and> tb_last b \<le> instant_max" and t: "tb_last b \<le> t"
    and a: "try_take_until b t = (ok, b')"
  define u where "u = refill b (min t instant_max)"
  have u: "tb_last b \<le> tb_last u \<and> tb_last u \<le> min t instant_max
    \<and> tb_tokens u * token_ns r \<le> tb_tokens b * token_ns r + (tb_last u - tb_last b) \<and> tb_refill_per_sec u = r"
    unfolding u_def by (rule refill_facts) (use i t in auto)
  have b': "b' = (if ok then u\<lparr>tb_tokens := tb_tokens u - 1\<rparr> else u)" "ok \<longleftrightarrow> tb_tokens u \<ge> 1"
    using a by (auto simp: try_take_until_def try_take_def u_def [symmetric] Let_def split: if_splits)
  have "ok \<Longrightarrow> (tb_tokens u - 1) * token_ns r + token_ns r = tb_tokens u * token_ns r"
    using b'(2) by (simp add: diff_mult_distrib)
  with u b' show "tb_tokens b' * token_ns r + (if ok then token_ns r else 0)
      \<le> tb_tokens b * token_ns r + 1 * (tb_last b' - tb_last b)" by auto
  show "tb_last b \<le> tb_last b' \<and> tb_last b' \<le> t" using u b' by auto
  show "tb_refill_per_sec b' = r \<and> 0 < r \<and> tb_last b' \<le> instant_max" using u b' i by auto
qed

section \<open>Properties\<close>

lemma admitted_cong:
  "(\<And>s t. t \<in> set ts \<Longrightarrow> f s t = g s t) \<Longrightarrow> admitted f s ts = admitted g s ts"
  by (induction ts arbitrary: s) (auto split: prod.splits)

lemma sorted_le_last: "sorted xs \<Longrightarrow> x \<in> set xs \<Longrightarrow> x \<le> (last xs :: nat)"
  by (induction xs) auto

text \<open>C34. Across the D-Bus boundary a kennel sends at most its burst plus the sustained rate times the time that
  passed since its first message, for every sequence of send times: the limiter loses nothing to
  rounding and never admits more.\<close>

theorem messages_bounded:
  assumes "sorted (t # ts)" "admitted allow_message (RateLimiter_new per_second burst) (t # ts) = (n, s')"
  shows "1000 * n \<le> 1000 * burst + per_second * (last (t # ts) - t)"
proof -
  let ?s = "RateLimiter_new per_second burst"
  obtain ok s1 where a: "allow_message ?s t = (ok, s1)" by fastforce
  obtain m where m: "admitted allow_message s1 ts = (m, s')" and n: "n = (if ok then 1 else 0) + m"
    using assms(2) a by (auto split: prod.splits)
  have cap: "rl_tokens ?s \<le> 1000 * burst"
    using sat_mul_le_prod [of u64_max burst TOKEN] by (simp add: RateLimiter_new_def Let_def TOKEN_def)
  have s1: "rl_last_ms s1 = t" "rl_refill_per_ms s1 = per_second"
    "rl_tokens s1 + (if ok then 1000 else 0) \<le> rl_tokens ?s"
    using a by (auto simp: allow_message_def rl_refill_def RateLimiter_new_def Let_def TOKEN_def split: if_splits)
  have "TOKEN * m \<le> rl_tokens s1 + per_second * (last (rl_last_ms s1 # ts) - rl_last_ms s1)"
    by (rule message_limiter.admitted_bound [OF _ _ m]) (use s1 assms(1) in auto)
  with s1 cap n show ?thesis by (simp add: TOKEN_def split: if_splits)
qed

theorem messages_bounded_witness:
  "1000 * fst (admitted allow_message (RateLimiter_new 1 1) [0, 0, 500, 1000]) \<le> 1000 * 1 + 1 * (1000 - (0 :: nat))"
  using messages_bounded [of 0 "[0, 500, 1000]" 1 1, OF _ surjective_pairing] by (simp del: admitted.simps)

text \<open>The new-flow bucket bounds a spray: over every sequence of instants, beyond the initial burst a new flow
  is admitted at most once per whole number of milliseconds its rate stands for, so at the deployed 32
  flows per second at most one per 31 milliseconds.\<close>

theorem flows_bounded:
  assumes "0 < rate" "sorted (now # ts)" "last (now # ts) \<le> instant_max"
    and "admitted try_take (TokenBucket_new capacity rate now) ts = (n, b')"
  shows "n * token_ns rate \<le> capacity * token_ns rate + (last (now # ts) - now)"
proof -
  let ?b = "TokenBucket_new capacity rate now"
  have le: "t \<le> instant_max" if "t \<in> set (now # ts)" for t
    using sorted_le_last [OF assms(2) that] assms(3) by linarith
  have "admitted try_take ?b ts = admitted try_take_until ?b ts"
    by (rule admitted_cong) (use le in \<open>auto simp: try_take_until_def min_def\<close>)
  with assms(4) have "admitted try_take_until ?b ts = (n, b')" by simp
  then have "token_ns rate * n \<le> tb_tokens ?b * token_ns rate + 1 * (last (tb_last ?b # ts) - tb_last ?b)"
    by (rule flow_limiter.admitted_bound [rotated 2])
      (use assms(1,2) le in \<open>auto simp: TokenBucket_new_def\<close>)
  then show ?thesis by (simp add: TokenBucket_new_def mult.commute)
qed

theorem flows_bounded_witness:
  "fst (admitted try_take (TokenBucket_new 2 500 0) [0, 0, 0, 2000000]) * token_ns 500
     \<le> 2 * token_ns 500 + (2000000 - 0)"
  using flows_bounded [of 500 0 "[0, 0, 0, 2000000]" 2, OF _ _ _ surjective_pairing]
  by (simp add: instant_max_def del: admitted.simps)

text \<open>The credit rounds up against the clock: with more than a thousand tokens per second the time a token
  stands for rounds to zero, the bucket's clock stays behind, and after a single millisecond any
  number of attempts at the same instant is admitted.\<close>

lemma fast_bucket_admits_all: "fst (admitted try_take (TokenBucket_new 1 1500 0) (replicate k 1000000)) = k"
proof -
  have step: "try_take \<lparr>tb_capacity = 1, tb_tokens = n, tb_refill_per_sec = 1500, tb_last = 0\<rparr> 1000000 =
      (True, \<lparr>tb_capacity = 1, tb_tokens = 0, tb_refill_per_sec = 1500, tb_last = 0\<rparr>)" for n
    by (simp add: try_take_def refill_def credit_def as_millis_def sat_mul_def sat_add_def u128_max_def u64_max_def
      u32_max_def instant_max_def Let_def)
  have "fst (admitted try_take \<lparr>tb_capacity = 1, tb_tokens = n, tb_refill_per_sec = 1500, tb_last = 0\<rparr>
      (replicate k 1000000)) = k" for n
    by (induction k arbitrary: n) (simp_all add: step case_prod_beta del: One_nat_def)
  then show ?thesis by (simp add: TokenBucket_new_def)
qed

text \<open>With a sustained rate of zero the initial burst still passes.\<close>

lemma zero_rate_admits_burst: "fst (allow_message (RateLimiter_new 0 1) 0)"
  by (simp add: allow_message_def rl_refill_def RateLimiter_new_def TOKEN_def sat_mul_def u64_max_def Let_def)

end
