(* ===== verification/Source_Policy.thy ===== *)
theory Source_Policy
  imports Policy_Verify Rust_Fmt
begin

text \<open>
  The source policy an operator or a template author writes (\<open>kennel-lib-compile/src/source.rs\<close>, with the
  \<open>[audit]\<close> section of \<open>kennel-lib-policy/src/audit.rs\<close>): every section as a record, the three kinds of
  list field that replace or increment what is inherited.  The TOML reader comes from another package and
  is a parameter of what uses it.
\<close>

section \<open>List fields\<close>

record Threats =
  thr_exposed :: "string list"
  thr_mitigated :: "string list"

record PathEntry =
  pte_path :: "string list"
  pte_source :: "string option"
  pte_reason :: "string option"
  pte_threats :: "Threats option"

record 'a Delta =
  dl_add :: "'a list"
  dl_remove :: "'a list"

datatype PathField = PathSet "string list" | PathDelta "PathEntry Delta"

datatype 'a ListField = ListSet "'a list" | ListDelta "'a Delta"

record GroupEntry =
  ge_group :: string
  ge_reason :: "string option"

datatype GroupField = GroupSet "string list" | GroupDelta "GroupEntry Delta"

fun path_resolved :: "PathField \<Rightarrow> string list" where
  "path_resolved (PathSet v) = v"
| "path_resolved (PathDelta d) = []"

fun path_delta_entries :: "PathField \<Rightarrow> PathEntry list" where
  "path_delta_entries (PathSet v) = []"
| "path_delta_entries (PathDelta d) = dl_add d @ dl_remove d"

fun path_additive :: "PathField \<Rightarrow> bool" where
  "path_additive (PathSet v) = False"
| "path_additive (PathDelta d) = (dl_remove d = [])"

fun list_resolved :: "'a ListField \<Rightarrow> 'a list" where
  "list_resolved (ListSet v) = v"
| "list_resolved (ListDelta d) = []"

fun list_entries :: "'a ListField \<Rightarrow> 'a list" where
  "list_entries (ListSet v) = v"
| "list_entries (ListDelta d) = dl_add d @ dl_remove d"

fun list_additive :: "'a ListField \<Rightarrow> bool" where
  "list_additive (ListSet v) = (v = [])"
| "list_additive (ListDelta d) = (dl_remove d = [])"

fun group_resolved :: "GroupField \<Rightarrow> string list" where
  "group_resolved (GroupSet v) = v"
| "group_resolved (GroupDelta d) = []"

fun group_delta_entries :: "GroupField \<Rightarrow> GroupEntry list" where
  "group_delta_entries (GroupSet v) = []"
| "group_delta_entries (GroupDelta d) = dl_add d @ dl_remove d"

section \<open>Sections\<close>

record RootfsSection =
  rfs_path :: "string option"
  rfs_image :: "string option"
  rfs_reason :: "string option"
  rfs_persistence :: "string option"
  rfs_readonly :: "string list option"
  rfs_writable :: "string list option"

record SpawnAllow =
  sa_template :: "string option"
  sa_mutable :: "string list option"

record SpawnSection =
  ss_max_instances :: "u32 option"
  ss_reason :: "string option"
  ss_allow :: "SpawnAllow ListField"

record MutableField =
  mf_field :: "string option"
  mf_from :: "string list option"
  mf_max :: "u32 option"
  mf_oneof :: "string list option"
  mf_match :: "string list option"
  mf_type :: "string option"
  mf_under :: "string option"
  mf_freeform :: "bool option"
  mf_reason :: "string option"

record CapSection =
  cs_no_new_privs :: "bool option"

record ExecSection =
  xs_allow :: "PathField option"
  xs_deny :: "string list option"
  xs_deny_setuid :: "bool option"
  xs_deny_setgid :: "bool option"
  xs_deny_setcap :: "bool option"
  xs_deny_writable :: "bool option"
  xs_path :: "string list option"
  xs_shell :: "string option"

record RedirectEntry =
  rd_path :: string
  rd_source :: string
  rd_write :: bool

record FsCwd =
  fc_grant :: "string option"
  fc_required :: "string list option"
  fc_reason :: "string option"

record FsHome =
  fh_shadow :: "bool option"
  fh_persist :: "string list"
  fh_readonly :: "bool option"

record FsTmp =
  ft_writable :: "bool option"
  ft_size :: "string option"

record FsProc =
  fp_hidepid :: "bool option"

record DevPassthrough =
  dp_path :: "string option"
  dp_group :: "string option"
  dp_reason :: "string option"
  dp_threats :: "Threats option"

record FsDev =
  fd_allow :: "string list option"
  fd_passthrough :: "DevPassthrough ListField"

record FsSection =
  fss_read :: "PathField option"
  fss_write :: "PathField option"
  fss_exclusive :: "string list option"
  fss_deny :: "PathField option"
  fss_home :: "FsHome option"
  fss_tmp :: "FsTmp option"
  fss_proc :: "FsProc option"
  fss_dev :: "FsDev option"
  fss_cwd :: "FsCwd option"
  fss_redirect :: "RedirectEntry list"

record NetAllow =
  na_name :: "string option"
  na_cidr :: "string option"
  na_ports :: "u16 list"
  na_protocol :: "string option"
  na_reason :: "string option"
  na_tls_required :: "bool option option"
  na_threats :: "Threats option"

record NetDenyRule =
  nd_cidr :: string
  nd_reason :: "string option"
  nd_threats :: "Threats option"

record BpfRule =
  bpr_cidr :: "string option"
  bpr_ports :: "u16 list"
  bpr_protocol :: "string option"
  bpr_reason :: "string option"
  bpr_threats :: "Threats option"

record NetBpfAcl =
  nba_allow :: "BpfRule ListField"
  nba_deny :: "BpfRule ListField"

record NetBpf =
  nb_families :: "string list option"
  nb_deny_families :: "string list option"
  nb_connect :: "NetBpfAcl option"
  nb_bind :: "NetBpfAcl option"

record NetProxyDeny =
  npd_invariant :: "NetDenyRule list"
  npd_policy :: "NetDenyRule ListField"

record NetProxy =
  npx_allow :: "NetAllow ListField"
  npx_deny :: "NetProxyDeny option"

record NetUdp =
  nu_allow :: "NetAllow ListField"

datatype WildcardBindPolicy = WildcardRewrite | WildcardDeny
datatype NetAuditLevel = NetAuditSummary | NetAuditFull
datatype DbusAuditLevel = DbusAuditOff | DbusAuditSummary | DbusAuditFull

record NetBind =
  nbd_inaddr_any_policy :: "WildcardBindPolicy option"
  nbd_in6addr_any_policy :: "WildcardBindPolicy option"
  nbd_allow_host_loopback_v4 :: "bool option"
  nbd_allow_host_loopback_v6 :: "bool option"
  nbd_min_port :: "u16 option"
  nbd_allowed_ports :: "u16 list option"

record NetIpv6 =
  n6_force_v6only :: "bool option"

record NetAudit =
  nau_log_path :: "string option"
  nau_level :: "NetAuditLevel option"

record NetSection =
  ns_mode :: "string option"
  ns_reason :: "string option"
  ns_proxy_listen_address :: "string option"
  ns_proxy :: "NetProxy option"
  ns_bpf :: "NetBpf option"
  ns_bind :: "NetBind option"
  ns_ipv6 :: "NetIpv6 option"
  ns_audit :: "NetAudit option"
  ns_udp :: "NetUdp option"

record UnixAllow =
  ua_name :: "string option"
  ua_real :: "string option"
  ua_shim :: "string option"
  ua_env :: "string option"
  ua_reason :: "string option"
  ua_threats :: "Threats option"

record UnixSection =
  us_abstract_ns :: "string option"
  us_allow :: "UnixAllow ListField"

record ProvidesEntry =
  prv_name :: string
  prv_shape :: Shape
  prv_endpoint :: "string option"
  prv_key :: "string option"
  prv_reason :: "string option"
  prv_threats :: "Threats option"

record ConsumesEntry =
  cse_name :: string
  cse_shape :: Shape
  cse_at :: "string option"
  cse_env :: "string list"
  cse_key :: "string option"
  cse_required :: bool
  cse_reason :: "string option"
  cse_threats :: "Threats option"

record IdentitySection =
  ids_user :: "string option"
  ids_group :: "string option"
  ids_hostname :: "string option"
  ids_groups :: GroupField

record SshDestination =
  sd_dest :: "string option"
  sd_options :: "string list"
  sd_reason :: "string option"
  sd_threats :: "Threats option"

record SshSection =
  shs_allow_headless :: "bool option"
  shs_threats :: "Threats option"
  shs_destinations :: "SshDestination ListField"

record WorkloadSection =
  wls_argv :: "string list option"
  wls_cwd :: "string option"
  wls_pinned :: "bool option"
  wls_allowed_args :: "bool option"
  wls_sha256 :: "string list option"

record BoundaryAcl =
  ba_allow_targets :: "string list option"
  ba_allow_from :: "string list option"

record UnsafeSection =
  uns_ptrace :: "BoundaryAcl option"
  uns_signal :: "BoundaryAcl option"

record EnvSection =
  es_pass :: "string list option"
  es_deny :: "string list option"
  es_set :: "(string \<rightharpoonup> string) option"

record SeccompSection =
  scs_profile :: "string option"
  scs_deny :: "string list option"
  scs_allow :: "string list option"

record LifecycleSection =
  ls_ttl :: "string option"
  ls_ttl_action :: "string option"

record ServiceSection =
  svs_restart :: "RestartPolicy option"
  svs_backoff :: "string option"
  svs_max_attempts :: "u32 option"

record TtySection =
  tts_filter_terminal_escapes :: "bool option"

record TrustSection =
  trs_manifest :: "bool option"
  trs_on_change :: "OnChangeAction option"

record DbusRules =
  dbr_talk :: "string list"
  dbr_call :: "string list"
  dbr_broadcast :: "string list"
  dbr_own :: "string list"

record DbusBus =
  dbb_enabled :: "bool option"
  dbb_allow :: "DbusRules option"
  dbb_deny :: "DbusRules option"

record DbusAudit =
  dba_level :: "DbusAuditLevel option"

record DbusSection =
  dbs_session :: "DbusBus option"
  dbs_system :: "DbusBus option"
  dbs_audit :: "DbusAudit option"

record AuditFileSection =
  afs_dir :: "string option"
  afs_rotate_at_bytes :: "string option"
  afs_compress_after_seconds :: "u64 option"
  afs_retain_count :: "u64 option"

record AuditSyslogSection =
  ays_facility :: "string option"

record AuditClassSection =
  acs_level :: "string option"

record AuditSection =
  aus_sinks :: "string list"
  aus_file :: "AuditFileSection option"
  aus_syslog :: "AuditSyslogSection option"
  aus_journald :: "unit option"
  aus_stdout :: "unit option"
  aus_network :: "AuditClassSection option"
  aus_filesystem :: "AuditClassSection option"
  aus_exec :: "AuditClassSection option"
  aus_unix :: "AuditClassSection option"
  aus_dbus :: "AuditClassSection option"

record SourcePolicy =
  src_template_base :: "string option"
  src_template_name :: "string option"
  src_name :: "string option"
  src_include :: "string list"
  src_threat_catalogue_version :: "string option"
  src_signature :: "SignatureEnvelope option"
  src_cap :: "CapSection option"
  src_exec :: "ExecSection option"
  src_fs :: "FsSection option"
  src_net :: "NetSection option"
  src_unix :: "UnixSection option"
  src_ssh :: "SshSection option"
  src_identity :: "IdentitySection option"
  src_provides :: "ProvidesEntry list"
  src_consumes :: "ConsumesEntry ListField"
  src_service :: "ServiceSection option"
  src_unsafe :: "UnsafeSection option"
  src_env :: "EnvSection option"
  src_seccomp :: "SeccompSection option"
  src_lifecycle :: "LifecycleSection option"
  src_audit :: "AuditSection option"
  src_ulimits :: "(string \<rightharpoonup> string) option"
  src_workload :: "WorkloadSection option"
  src_tty :: "TtySection option"
  src_trust :: "TrustSection option"
  src_dbus :: "DbusSection option"
  src_rootfs :: "RootfsSection option"
  src_spawn :: "SpawnSection option"
  src_mutable :: "MutableField list"

end
