(* ===== verification/Source_Check.thy ===== *)
theory Source_Check
  imports Source_Policy
begin

text \<open>
  The checks of one source artefact (\<open>SourcePolicy::validate\<close>, \<open>is_additive_only\<close> and the reference grammar in
  \<open>kennel-lib-compile/src/source.rs\<close>).  Every check appends its messages, so the result of \<open>validate\<close> is the
  list of all problems.
\<close>

section \<open>References and keys\<close>

definition ref_start :: "char \<Rightarrow> bool" where
  "ref_start c \<longleftrightarrow> (97 \<le> (of_char c :: nat) \<and> of_char c \<le> (122 :: nat)) \<or> (48 \<le> (of_char c :: nat) \<and> of_char c \<le> (57 :: nat))"

definition validate_ref_name :: "string \<Rightarrow> string + unit" where
  "validate_ref_name name =
     (if name = [] \<or> length name > 64 then Inl ''name must be 1..=64 characters''
      else if \<not> ref_start (hd name) then Inl ''name must start with a lowercase letter or digit''
      else if list_ex (\<lambda>c. \<not> (ref_start c \<or> c = CHR ''-'')) (tl name)
      then Inl ''name may contain only lowercase letters, digits, and `-`''
      else Inr ())"

definition is_blank :: "string option \<Rightarrow> bool" where
  "is_blank s = (case s of None \<Rightarrow> True | Some v \<Rightarrow> trim v = [])"

definition unwrap_or :: "'a option \<Rightarrow> 'a \<Rightarrow> 'a" where
  "unwrap_or x d = (case x of None \<Rightarrow> d | Some v \<Rightarrow> v)"

definition net_key :: "NetAllow \<Rightarrow> string" where
  "net_key a = unwrap_or (or_else (na_name a) (na_cidr a)) []"

definition unix_key :: "UnixAllow \<Rightarrow> string" where
  "unix_key a = unwrap_or (or_else (ua_name a) (ua_real a)) []"

definition ssh_key :: "SshDestination \<Rightarrow> string" where "ssh_key a = unwrap_or (sd_dest a) []"
definition dev_key :: "DevPassthrough \<Rightarrow> string" where "dev_key a = unwrap_or (dp_path a) []"
definition bpf_key :: "BpfRule \<Rightarrow> string" where "bpf_key a = unwrap_or (bpr_cidr a) []"
definition deny_key :: "NetDenyRule \<Rightarrow> string" where "deny_key a = nd_cidr a"
definition consumes_key :: "ConsumesEntry \<Rightarrow> string" where "consumes_key a = cse_name a"
definition spawn_key :: "SpawnAllow \<Rightarrow> string" where "spawn_key a = unwrap_or (sa_template a) []"

section \<open>The D-Bus axiom\<close>

definition DBUS_REFUSE_TO_BROKER :: "string list" where
  "DBUS_REFUSE_TO_BROKER = [''org.freedesktop.secrets'', ''org.freedesktop.systemd1'', ''org.freedesktop.login1'',
     ''org.gnome.SessionManager'', ''org.kde.ksmserver'']"

definition dbus_pattern_admits :: "string \<Rightarrow> string \<Rightarrow> bool" where
  "dbus_pattern_admits pat name \<longleftrightarrow>
     pat = ''*'' \<or> pat = name
     \<or> (case Option.bind (strip_suffix ''*'' pat) (strip_suffix ''.'') of
          None \<Rightarrow> False
        | Some p \<Rightarrow> name = p \<or> (case strip_prefix p name of None \<Rightarrow> False | Some r \<Rightarrow> starts_with ''.'' r))"

definition dbus_destination :: "string \<Rightarrow> string" where
  "dbus_destination entry = trim (hd (split_on CHR ''='' entry))"

section \<open>Checks\<close>

definition is_leaf :: "SourcePolicy \<Rightarrow> bool" where
  "is_leaf p \<longleftrightarrow> src_name p \<noteq> None \<and> src_template_name p = None"

definition invariant_denies :: "SourcePolicy \<Rightarrow> NetDenyRule list" where
  "invariant_denies p =
     (case Option.bind (Option.bind (src_net p) ns_proxy) npx_deny of None \<Rightarrow> [] | Some d \<Rightarrow> npd_invariant d)"

definition net_allow_adds :: "SourcePolicy \<Rightarrow> NetAllow list" where
  "net_allow_adds p =
     (case map_option npx_allow (Option.bind (src_net p) ns_proxy) of Some (ListDelta d) \<Rightarrow> dl_add d | _ \<Rightarrow> [])"

definition join_str :: "string \<Rightarrow> string list \<Rightarrow> string" where
  "join_str sep ss = (case ss of [] \<Rightarrow> [] | s # r \<Rightarrow> s @ concat (map (\<lambda>t. sep @ t) r))"

definition quoted :: "string \<Rightarrow> string" where "quoted s = CHR 0x22 # s @ [CHR 0x22]"

definition check_identity :: "SourcePolicy \<Rightarrow> string list" where
  "check_identity p =
     (case (src_template_name p \<noteq> None, src_name p \<noteq> None) of
        (True, True) \<Rightarrow> [''artefact sets both `template_name` and `name`; a file is either a template or a leaf, not both'']
      | (False, False) \<Rightarrow> [''artefact sets neither `template_name` (templates) nor `name` (leaf policies)'']
      | _ \<Rightarrow> [])
     @ (if is_leaf p \<and> src_template_base p = None
        then [''leaf policy has no `template_base`; every leaf derives from a template''] else [])"

fun check_includes :: "string list \<Rightarrow> string list \<Rightarrow> string list" where
  "check_includes seen [] = []"
| "check_includes seen (inc # incs) =
     (case validate_ref_name inc of Inl msg \<Rightarrow> [''`include` entry '' @ quoted inc @ '': '' @ msg] | Inr _ \<Rightarrow> [])
     @ (if inc \<in> set seen then [''`include` entry '' @ quoted inc @ '' is duplicated''] else [])
     @ check_includes (seen @ [inc]) incs"

definition check_references :: "SourcePolicy \<Rightarrow> string list" where
  "check_references p =
     (case src_template_base p of
        None \<Rightarrow> []
      | Some b \<Rightarrow> (case validate_ref_name b of
          Inl msg \<Rightarrow> [''`template_base` = '' @ quoted b @ '': '' @ msg] | Inr _ \<Rightarrow> []))
     @ check_includes [] (src_include p)"

text \<open>One message for every entry without a reason.\<close>

definition missing_reason :: "string \<Rightarrow> ('a \<Rightarrow> string) \<Rightarrow> ('a \<Rightarrow> string option) \<Rightarrow> 'a list \<Rightarrow> string list" where
  "missing_reason label who reason es =
     map (\<lambda>e. label @ '' '' @ quoted (who e) @ '' is missing a `reason`'') (filter (\<lambda>e. is_blank (reason e)) es)"

definition opt_list :: "'a option \<Rightarrow> ('a \<Rightarrow> 'b list) \<Rightarrow> 'b list" where
  "opt_list x f = (case x of None \<Rightarrow> [] | Some v \<Rightarrow> f v)"

definition acl_reasons :: "NetBpfAcl \<Rightarrow> string list" where
  "acl_reasons acl = missing_reason ''[[net.bpf]]'' (\<lambda>r. unwrap_or (bpr_cidr r) ''<no-cidr>'') bpr_reason
     (list_entries (nba_allow acl) @ list_entries (nba_deny acl))"

definition check_net_reasons :: "NetSection \<Rightarrow> string list" where
  "check_net_reasons net =
     opt_list (ns_proxy net) (\<lambda>proxy.
       missing_reason ''[[net.proxy.allow]]'' (\<lambda>a. unwrap_or (or_else (na_name a) (na_cidr a)) ''<unnamed>'') na_reason
         (list_entries (npx_allow proxy))
       @ opt_list (npx_deny proxy) (\<lambda>deny.
           missing_reason ''[[net.proxy.deny]]'' nd_cidr nd_reason (npd_invariant deny @ list_entries (npd_policy deny))))
     @ opt_list (ns_bpf net) (\<lambda>bpf. opt_list (nb_connect bpf) acl_reasons @ opt_list (nb_bind bpf) acl_reasons)"

definition path_reasons :: "string \<Rightarrow> PathField option \<Rightarrow> string list" where
  "path_reasons label field =
     opt_list field (\<lambda>f. missing_reason (''[['' @ label @ ''.*]]'') (\<lambda>e. join_str '', '' (pte_path e)) pte_reason
       (path_delta_entries f))"

definition check_fs_reasons :: "FsSection \<Rightarrow> string list" where
  "check_fs_reasons fs =
     path_reasons ''fs.read'' (fss_read fs) @ path_reasons ''fs.write'' (fss_write fs) @ path_reasons ''fs.deny'' (fss_deny fs)
     @ opt_list (fss_dev fs) (\<lambda>dev.
         missing_reason ''[[fs.dev.passthrough]]'' (\<lambda>d. unwrap_or (dp_path d) ''<no-path>'') dp_reason
           (list_entries (fd_passthrough dev)))
     @ opt_list (fss_cwd fs) (\<lambda>cwd.
         if fc_grant cwd \<in> {Some ''read'', Some ''write''} \<and> is_blank (fc_reason cwd)
         then [''[fs.cwd] grant `'' @ unwrap_or (fc_grant cwd) ''none'' @ ''` is missing a `reason`''] else [])"

definition check_reasons :: "SourcePolicy \<Rightarrow> string list" where
  "check_reasons p =
     opt_list (src_identity p) (\<lambda>i. missing_reason ''[[identity.groups.*]]'' ge_group ge_reason (group_delta_entries (ids_groups i)))
     @ opt_list (src_net p) check_net_reasons
     @ opt_list (src_unix p) (\<lambda>u. missing_reason ''[[unix.allow]]''
         (\<lambda>a. unwrap_or (or_else (ua_name a) (ua_real a)) ''<unnamed>'') ua_reason (list_entries (us_allow u)))
     @ opt_list (src_fs p) check_fs_reasons
     @ opt_list (src_exec p) (\<lambda>x. path_reasons ''exec.allow'' (xs_allow x))
     @ opt_list (src_ssh p) (\<lambda>s. missing_reason ''[[ssh.destinations]]'' (\<lambda>d. unwrap_or (sd_dest d) ''<no-dest>'') sd_reason
         (list_entries (shs_destinations s)))"

definition redirect_axis :: "string \<Rightarrow> PathField option \<Rightarrow> string list" where
  "redirect_axis label field =
     (case field of
        Some (PathDelta d) \<Rightarrow>
          map (\<lambda>e. ''[['' @ label @ ''.add]] '' @ quoted (join_str '', '' (pte_path e)) @ '' carries a `source` against ''
                @ show_dec (length (pte_path e)) @ '' paths; a redirect maps exactly one view path'')
            (filter (\<lambda>e. pte_source e \<noteq> None \<and> length (pte_path e) > 1) (dl_add d))
          @ map (\<lambda>e. ''[['' @ label @ ''.remove]] '' @ quoted (join_str '', '' (pte_path e))
                @ '' carries a `source`; a remove subtracts a path and grants nothing to redirect'')
            (filter (\<lambda>e. pte_source e \<noteq> None) (dl_remove d))
      | _ \<Rightarrow> [])"

definition no_source :: "string \<Rightarrow> string \<Rightarrow> PathField option \<Rightarrow> string list" where
  "no_source label why field =
     opt_list field (\<lambda>f. map (\<lambda>e. label @ '' '' @ quoted (join_str '', '' (pte_path e)) @ why)
       (filter (\<lambda>e. pte_source e \<noteq> None) (path_delta_entries f)))"

definition check_redirect_sources :: "SourcePolicy \<Rightarrow> string list" where
  "check_redirect_sources p =
     opt_list (src_fs p) (\<lambda>fs. redirect_axis ''fs.read'' (fss_read fs) @ redirect_axis ''fs.write'' (fss_write fs)
       @ no_source ''[[fs.deny.*]]'' '' carries a `source`; a deny has no bind to redirect'' (fss_deny fs))
     @ opt_list (src_exec p) (\<lambda>x. no_source ''[[exec.allow.*]]''
         '' carries a `source`; redirects apply to `fs.read`/`fs.write` grants only'' (xs_allow x))"

definition check_leaf_invariants :: "SourcePolicy \<Rightarrow> string list" where
  "check_leaf_invariants p =
     (if is_leaf p \<and> src_template_base p \<noteq> None \<and> invariant_denies p \<noteq> []
      then [''a leaf policy may not declare `[[net.proxy.deny.invariant]]`; invariants are template- and fragment-author tools'']
      else [])"

definition em_dash :: string where "em_dash = [CHR 0xE2, CHR 0x80, CHR 0x94]"

definition check_bus :: "string \<Rightarrow> DbusBus option \<Rightarrow> string list" where
  "check_bus bus_name bus =
     opt_list (Option.bind bus dbb_allow) (\<lambda>allow.
       List.map_filter (\<lambda>entry.
         map_option (\<lambda>refused. ''[dbus.'' @ bus_name @ ''.allow] `'' @ entry @ ''` reaches `'' @ refused
             @ ''`, which cannot be brokered to a kennel (a credential oracle or session-control escape '' @ em_dash
             @ '' refused by axiom, not a footgun)'')
           (find (\<lambda>r. dbus_pattern_admits (dbus_destination entry) r) DBUS_REFUSE_TO_BROKER))
       (dbr_talk allow @ dbr_call allow @ dbr_broadcast allow @ dbr_own allow))"

definition check_dbus :: "SourcePolicy \<Rightarrow> string list" where
  "check_dbus p = opt_list (src_dbus p) (\<lambda>d. check_bus ''session'' (dbs_session d) @ check_bus ''system'' (dbs_system d))"

definition validate_source :: "SourcePolicy \<Rightarrow> PolicyError + unit" where
  "validate_source p =
     (let errs = check_identity p @ check_references p @ check_reasons p @ check_redirect_sources p
            @ check_leaf_invariants p @ check_dbus p
      in if errs = [] then Inr () else Inl (SourceValidation errs))"

section \<open>Fragments\<close>

definition none_or :: "'a option \<Rightarrow> ('a \<Rightarrow> bool) \<Rightarrow> bool" where
  "none_or x f \<longleftrightarrow> (case x of None \<Rightarrow> True | Some v \<Rightarrow> f v)"

definition acl_additive :: "NetBpfAcl \<Rightarrow> bool" where
  "acl_additive a \<longleftrightarrow> list_additive (nba_allow a) \<and> list_additive (nba_deny a)"

definition fs_additive :: "FsSection \<Rightarrow> bool" where
  "fs_additive fs \<longleftrightarrow>
     none_or (fss_read fs) path_additive \<and> none_or (fss_write fs) path_additive \<and> none_or (fss_deny fs) path_additive
     \<and> fss_exclusive fs = None \<and> fss_home fs = None \<and> fss_tmp fs = None \<and> fss_proc fs = None
     \<and> none_or (fss_dev fs) (\<lambda>d. list_additive (fd_passthrough d))"

definition exec_additive :: "ExecSection \<Rightarrow> bool" where
  "exec_additive e \<longleftrightarrow>
     none_or (xs_allow e) path_additive \<and> xs_deny e = None \<and> xs_path e = None \<and> xs_shell e = None
     \<and> xs_deny_setuid e = None \<and> xs_deny_setgid e = None \<and> xs_deny_setcap e = None \<and> xs_deny_writable e = None"

definition net_additive :: "NetSection \<Rightarrow> bool" where
  "net_additive n \<longleftrightarrow>
     ns_mode n = None \<and> ns_proxy_listen_address n = None \<and> ns_bind n = None \<and> ns_ipv6 n = None \<and> ns_audit n = None
     \<and> none_or (ns_proxy n) (\<lambda>p. list_additive (npx_allow p) \<and> none_or (npx_deny p) (\<lambda>d. list_additive (npd_policy d)))
     \<and> none_or (ns_bpf n) (\<lambda>b. nb_families b = None \<and> nb_deny_families b = None
         \<and> none_or (nb_connect b) acl_additive \<and> none_or (nb_bind b) acl_additive)"

definition is_additive_only :: "SourcePolicy \<Rightarrow> bool" where
  "is_additive_only p \<longleftrightarrow>
     none_or (src_fs p) fs_additive \<and> none_or (src_exec p) exec_additive \<and> none_or (src_net p) net_additive
     \<and> none_or (src_unix p) (\<lambda>u. us_abstract_ns u = None \<and> list_additive (us_allow u))
     \<and> none_or (src_ssh p) (\<lambda>s. list_additive (shs_destinations s))
     \<and> src_cap p = None \<and> src_identity p = None \<and> src_provides p = [] \<and> list_additive (src_consumes p)
     \<and> src_service p = None \<and> src_unsafe p = None \<and> src_env p = None \<and> src_seccomp p = None
     \<and> src_lifecycle p = None \<and> src_audit p = None \<and> src_ulimits p = None \<and> src_workload p = None
     \<and> src_tty p = None \<and> src_trust p = None \<and> src_dbus p = None \<and> src_rootfs p = None
     \<and> src_spawn p = None \<and> src_mutable p = []"

section \<open>What the checks guarantee\<close>

lemma opt_list_Nil_iff: "opt_list x f = [] \<longleftrightarrow> none_or x (\<lambda>v. f v = [])"
  by (simp add: opt_list_def none_or_def split: option.split)

lemma missing_reason_Nil_iff: "missing_reason l w r es = [] \<longleftrightarrow> list_all (\<lambda>e. \<not> is_blank (r e)) es"
  by (induction es) (auto simp: missing_reason_def)

lemma validate_source_ok_iff:
  "validate_source p = Inr () \<longleftrightarrow>
     check_identity p = [] \<and> check_references p = [] \<and> check_reasons p = [] \<and> check_redirect_sources p = []
     \<and> check_leaf_invariants p = [] \<and> check_dbus p = []"
  by (simp add: validate_source_def Let_def)

text \<open>The axiom on the bus: no accepted rule has a destination pattern that admits a refused name.\<close>

lemma check_bus_Nil_iff:
  "check_bus n bus = [] \<longleftrightarrow>
     none_or (Option.bind bus dbb_allow) (\<lambda>allow.
       \<forall>entry \<in> set (dbr_talk allow @ dbr_call allow @ dbr_broadcast allow @ dbr_own allow).
         \<forall>r \<in> set DBUS_REFUSE_TO_BROKER. \<not> dbus_pattern_admits (dbus_destination entry) r)"
proof -
  have "List.map_filter (\<lambda>e. map_option (f e) (find (P e) rs)) es = [] \<longleftrightarrow> (\<forall>e \<in> set es. \<forall>r \<in> set rs. \<not> P e r)"
    for f :: "string \<Rightarrow> string \<Rightarrow> string" and P es rs
    by (induction es) (auto simp: map_filter_simps find_None_iff find_Some_iff dest: nth_mem split: option.split)
  then show ?thesis unfolding check_bus_def opt_list_Nil_iff by simp
qed

end
