(* ===== verification/Source_Fold.thy ===== *)
theory Source_Fold
  imports Source_Check
begin

text \<open>
  Folding one step of an inheritance chain (\<open>fold\<close> and its section folds in
  \<open>kennel-lib-compile/src/resolve.rs\<close>): scalars of the child win, list fields replace or increment, the
  floors are unioned.  A fold that reports replaced lists returns its warnings beside its value.
\<close>

type_synonym 'a warned = "'a \<times> string list"

section \<open>Combinators\<close>

text \<open>\<open>or(child, parent)\<close> is \<open>or_else\<close> of the prelude.\<close>

definition merge :: "'a option \<Rightarrow> 'a option \<Rightarrow> ('a \<Rightarrow> 'a \<Rightarrow> 'a) \<Rightarrow> 'a option" where
  "merge parent child f =
     (case (parent, child) of (Some p, Some c) \<Rightarrow> Some (f p c) | _ \<Rightarrow> or_else child parent)"

definition merge_warned :: "'a option \<Rightarrow> 'a option \<Rightarrow> ('a \<Rightarrow> 'a \<Rightarrow> 'a warned) \<Rightarrow> 'a option warned" where
  "merge_warned parent child f =
     (case (parent, child) of
        (Some p, Some c) \<Rightarrow> (let (v, w) = f p c in (Some v, w))
      | _ \<Rightarrow> (or_else child parent, []))"

definition clobber_text :: "string \<Rightarrow> nat \<Rightarrow> string" where
  "clobber_text field dropped =
     ''`'' @ field @ ''` bare-set replaces '' @ show_dec dropped @ '' inherited entr'' @ (if dropped = 1 then ''y'' else ''ies'')
     @ '' '' @ em_dash @ '' an `add` increment extends the inherited list instead''"

text \<open>\<open>if !base.contains(x) { base.push(x) }\<close>, for every \<open>x\<close> in turn.\<close>

definition push_new :: "'a list \<Rightarrow> 'a list \<Rightarrow> 'a list" where
  "push_new base xs = fold (\<lambda>x acc. if x \<in> set acc then acc else acc @ [x]) xs base"

definition push_new_by :: "('a \<Rightarrow> 'k) \<Rightarrow> 'a list \<Rightarrow> 'a list \<Rightarrow> 'a list" where
  "push_new_by key base xs = fold (\<lambda>x acc. if key x \<in> key ` set acc then acc else acc @ [x]) xs base"

definition fold_pathfield :: "PathField option \<Rightarrow> PathField option \<Rightarrow> string \<Rightarrow> PathField option warned" where
  "fold_pathfield child parent field =
     (case child of
        None \<Rightarrow> (parent, [])
      | Some (PathSet v) \<Rightarrow>
          (Some (PathSet v),
           case parent of Some (PathSet pv) \<Rightarrow> if v \<noteq> [] \<and> pv \<noteq> [] then [clobber_text field (length pv)] else [] | _ \<Rightarrow> [])
      | Some (PathDelta d) \<Rightarrow>
          (let base = (case parent of Some (PathSet v) \<Rightarrow> v | _ \<Rightarrow> []);
               base = push_new base (concat (map pte_path (dl_add d)))
           in (Some (PathSet (filter (\<lambda>p. \<not> list_ex (\<lambda>e. p \<in> set (pte_path e)) (dl_remove d)) base)), [])))"

definition fold_listfield :: "'a ListField \<Rightarrow> 'a ListField \<Rightarrow> ('a \<Rightarrow> string) \<Rightarrow> string \<Rightarrow> 'a ListField warned" where
  "fold_listfield child parent key field =
     (case child of
        ListSet v \<Rightarrow>
          if v = [] then (parent, [])
          else (ListSet v, case parent of ListSet pv \<Rightarrow> if pv \<noteq> [] then [clobber_text field (length pv)] else [] | _ \<Rightarrow> [])
      | ListDelta d \<Rightarrow>
          (let base = (case parent of ListSet v \<Rightarrow> v | ListDelta _ \<Rightarrow> []);
               base = push_new_by key base (dl_add d)
           in (ListSet (filter (\<lambda>x. \<not> list_ex (\<lambda>r. key r = key x) (dl_remove d)) base), [])))"

definition fold_groupfield :: "GroupField \<Rightarrow> GroupField \<Rightarrow> GroupField warned" where
  "fold_groupfield child parent =
     (case child of
        GroupSet v \<Rightarrow>
          if v = [] then (parent, [])
          else (GroupSet v,
                case parent of GroupSet pv \<Rightarrow> if pv \<noteq> [] then [clobber_text ''identity.groups'' (length pv)] else [] | _ \<Rightarrow> [])
      | GroupDelta d \<Rightarrow>
          (let base = (case parent of GroupSet v \<Rightarrow> v | GroupDelta _ \<Rightarrow> []);
               base = push_new base (map ge_group (dl_add d))
           in (GroupSet (filter (\<lambda>g. \<not> list_ex (\<lambda>e. ge_group e = g) (dl_remove d)) base), [])))"

definition union_strings :: "string list \<Rightarrow> string list \<Rightarrow> string list" where
  "union_strings parent child = push_new parent child"

definition union_names :: "string list option \<Rightarrow> string list option \<Rightarrow> string list option" where
  "union_names p c =
     (if p = None \<and> c = None then None else Some (push_new (unwrap_or p []) (unwrap_or c [])))"

section \<open>Sections\<close>

definition fold_cap :: "CapSection \<Rightarrow> CapSection \<Rightarrow> CapSection" where
  "fold_cap p c = \<lparr>cs_no_new_privs = or_else (cs_no_new_privs c) (cs_no_new_privs p)\<rparr>"

definition fold_exec :: "ExecSection \<Rightarrow> ExecSection \<Rightarrow> ExecSection warned" where
  "fold_exec p c =
     (let (allow, w) = fold_pathfield (xs_allow c) (xs_allow p) ''exec.allow'' in
      (\<lparr>xs_allow = allow, xs_deny = union_names (xs_deny p) (xs_deny c),
        xs_deny_setuid = or_else (xs_deny_setuid c) (xs_deny_setuid p), xs_deny_setgid = or_else (xs_deny_setgid c) (xs_deny_setgid p),
        xs_deny_setcap = or_else (xs_deny_setcap c) (xs_deny_setcap p),
        xs_deny_writable = or_else (xs_deny_writable c) (xs_deny_writable p), xs_path = or_else (xs_path c) (xs_path p),
        xs_shell = or_else (xs_shell c) (xs_shell p)\<rparr>, w))"

text \<open>One axis of the redirects: those of the reads, or those of the writes.\<close>

definition add_redirect :: "bool \<Rightarrow> PathEntry \<Rightarrow> RedirectEntry list \<Rightarrow> RedirectEntry list" where
  "add_redirect write e axis =
     (case (pte_source e, pte_path e) of
        (Some source, path # _) \<Rightarrow> filter (\<lambda>r. rd_path r \<noteq> path) axis @ [\<lparr>rd_path = path, rd_source = source, rd_write = write\<rparr>]
      | _ \<Rightarrow> axis)"

definition fold_redirect_axis :: "RedirectEntry list \<Rightarrow> bool \<Rightarrow> PathField option \<Rightarrow> RedirectEntry list" where
  "fold_redirect_axis redirects write child_field =
     (let inherited = filter (\<lambda>r. rd_write r = write) redirects in
      case child_field of
        None \<Rightarrow> inherited
      | Some (PathSet _) \<Rightarrow> []
      | Some (PathDelta d) \<Rightarrow>
          fold (add_redirect write) (dl_add d)
            (filter (\<lambda>r. \<not> list_ex (\<lambda>e. rd_path r \<in> set (pte_path e)) (dl_remove d)) inherited))"

definition fold_redirects :: "FsSection \<Rightarrow> FsSection \<Rightarrow> RedirectEntry list" where
  "fold_redirects p c = fold_redirect_axis (fss_redirect p) False (fss_read c) @ fold_redirect_axis (fss_redirect p) True (fss_write c)"

definition fold_fs_home :: "FsHome \<Rightarrow> FsHome \<Rightarrow> FsHome" where
  "fold_fs_home p c = \<lparr>fh_shadow = or_else (fh_shadow c) (fh_shadow p), fh_persist = union_strings (fh_persist p) (fh_persist c),
     fh_readonly = or_else (fh_readonly c) (fh_readonly p)\<rparr>"

definition fold_fs_tmp :: "FsTmp \<Rightarrow> FsTmp \<Rightarrow> FsTmp" where
  "fold_fs_tmp p c = \<lparr>ft_writable = or_else (ft_writable c) (ft_writable p), ft_size = or_else (ft_size c) (ft_size p)\<rparr>"

definition fold_fs_proc :: "FsProc \<Rightarrow> FsProc \<Rightarrow> FsProc" where
  "fold_fs_proc p c = \<lparr>fp_hidepid = or_else (fp_hidepid c) (fp_hidepid p)\<rparr>"

definition fold_fs_dev :: "FsDev \<Rightarrow> FsDev \<Rightarrow> FsDev warned" where
  "fold_fs_dev p c =
     (let (passthrough, w) = fold_listfield (fd_passthrough c) (fd_passthrough p) dev_key ''fs.dev.passthrough'' in
      (\<lparr>fd_allow = or_else (fd_allow c) (fd_allow p), fd_passthrough = passthrough\<rparr>, w))"

definition fold_fs :: "FsSection \<Rightarrow> FsSection \<Rightarrow> FsSection warned" where
  "fold_fs p c =
     (let (read, w1) = fold_pathfield (fss_read c) (fss_read p) ''fs.read'';
          (write, w2) = fold_pathfield (fss_write c) (fss_write p) ''fs.write'';
          (deny, w3) = fold_pathfield (fss_deny c) (fss_deny p) ''fs.deny'';
          (dev, w4) = merge_warned (fss_dev p) (fss_dev c) fold_fs_dev
      in (\<lparr>fss_read = read, fss_write = write, fss_exclusive = or_else (fss_exclusive c) (fss_exclusive p), fss_deny = deny,
           fss_home = merge (fss_home p) (fss_home c) fold_fs_home, fss_tmp = merge (fss_tmp p) (fss_tmp c) fold_fs_tmp,
           fss_proc = merge (fss_proc p) (fss_proc c) fold_fs_proc, fss_dev = dev,
           fss_cwd = or_else (fss_cwd c) (fss_cwd p), fss_redirect = fold_redirects p c\<rparr>, w1 @ w2 @ w3 @ w4))"

definition fold_net_udp :: "NetUdp \<Rightarrow> NetUdp \<Rightarrow> NetUdp warned" where
  "fold_net_udp p c = (let (allow, w) = fold_listfield (nu_allow c) (nu_allow p) net_key ''net.udp.allow'' in (\<lparr>nu_allow = allow\<rparr>, w))"

definition fold_net_proxy_deny :: "NetProxyDeny \<Rightarrow> NetProxyDeny \<Rightarrow> NetProxyDeny warned" where
  "fold_net_proxy_deny p c =
     (let invariant = push_new_by nd_cidr (npd_invariant p) (npd_invariant c);
          (policy, w) = fold_listfield (npd_policy c) (npd_policy p) deny_key ''net.proxy.deny.policy''
      in (\<lparr>npd_invariant = invariant, npd_policy = policy\<rparr>, w))"

definition fold_net_proxy :: "NetProxy \<Rightarrow> NetProxy \<Rightarrow> NetProxy warned" where
  "fold_net_proxy p c =
     (let (allow, w1) = fold_listfield (npx_allow c) (npx_allow p) net_key ''net.proxy.allow'';
          (deny, w2) = merge_warned (npx_deny p) (npx_deny c) fold_net_proxy_deny
      in (\<lparr>npx_allow = allow, npx_deny = deny\<rparr>, w1 @ w2))"

definition fold_net_bpf_acl :: "string \<Rightarrow> NetBpfAcl \<Rightarrow> NetBpfAcl \<Rightarrow> NetBpfAcl warned" where
  "fold_net_bpf_acl dir p c =
     (let (allow, w1) = fold_listfield (nba_allow c) (nba_allow p) bpf_key (dir @ ''.allow'');
          (deny, w2) = fold_listfield (nba_deny c) (nba_deny p) bpf_key (dir @ ''.deny'')
      in (\<lparr>nba_allow = allow, nba_deny = deny\<rparr>, w1 @ w2))"

definition fold_net_bpf :: "NetBpf \<Rightarrow> NetBpf \<Rightarrow> NetBpf warned" where
  "fold_net_bpf p c =
     (let (connect, w1) = merge_warned (nb_connect p) (nb_connect c) (fold_net_bpf_acl ''net.bpf.connect'');
          (bind, w2) = merge_warned (nb_bind p) (nb_bind c) (fold_net_bpf_acl ''net.bpf.bind'')
      in (\<lparr>nb_families = or_else (nb_families c) (nb_families p),
           nb_deny_families = union_names (nb_deny_families p) (nb_deny_families c), nb_connect = connect, nb_bind = bind\<rparr>, w1 @ w2))"

definition fold_net_bind :: "NetBind \<Rightarrow> NetBind \<Rightarrow> NetBind" where
  "fold_net_bind p c =
     \<lparr>nbd_inaddr_any_policy = or_else (nbd_inaddr_any_policy c) (nbd_inaddr_any_policy p),
      nbd_in6addr_any_policy = or_else (nbd_in6addr_any_policy c) (nbd_in6addr_any_policy p),
      nbd_allow_host_loopback_v4 = or_else (nbd_allow_host_loopback_v4 c) (nbd_allow_host_loopback_v4 p),
      nbd_allow_host_loopback_v6 = or_else (nbd_allow_host_loopback_v6 c) (nbd_allow_host_loopback_v6 p),
      nbd_min_port = or_else (nbd_min_port c) (nbd_min_port p), nbd_allowed_ports = or_else (nbd_allowed_ports c) (nbd_allowed_ports p)\<rparr>"

definition fold_net_ipv6 :: "NetIpv6 \<Rightarrow> NetIpv6 \<Rightarrow> NetIpv6" where
  "fold_net_ipv6 p c = \<lparr>n6_force_v6only = or_else (n6_force_v6only c) (n6_force_v6only p)\<rparr>"

definition fold_net_audit :: "NetAudit \<Rightarrow> NetAudit \<Rightarrow> NetAudit" where
  "fold_net_audit p c = \<lparr>nau_log_path = or_else (nau_log_path c) (nau_log_path p), nau_level = or_else (nau_level c) (nau_level p)\<rparr>"

definition fold_net :: "NetSection \<Rightarrow> NetSection \<Rightarrow> NetSection warned" where
  "fold_net p c =
     (let (proxy, w1) = merge_warned (ns_proxy p) (ns_proxy c) fold_net_proxy;
          (bpf, w2) = merge_warned (ns_bpf p) (ns_bpf c) fold_net_bpf;
          (udp, w3) = merge_warned (ns_udp p) (ns_udp c) fold_net_udp
      in (\<lparr>ns_mode = or_else (ns_mode c) (ns_mode p), ns_reason = or_else (ns_reason c) (ns_reason p),
           ns_proxy_listen_address = or_else (ns_proxy_listen_address c) (ns_proxy_listen_address p),
           ns_proxy = proxy, ns_bpf = bpf, ns_bind = merge (ns_bind p) (ns_bind c) fold_net_bind,
           ns_ipv6 = merge (ns_ipv6 p) (ns_ipv6 c) fold_net_ipv6, ns_audit = merge (ns_audit p) (ns_audit c) fold_net_audit,
           ns_udp = udp\<rparr>, w1 @ w2 @ w3))"

definition fold_unix :: "UnixSection \<Rightarrow> UnixSection \<Rightarrow> UnixSection warned" where
  "fold_unix p c =
     (let (allow, w) = fold_listfield (us_allow c) (us_allow p) unix_key ''unix.allow'' in
      (\<lparr>us_abstract_ns = or_else (us_abstract_ns c) (us_abstract_ns p), us_allow = allow\<rparr>, w))"

definition fold_ssh :: "SshSection \<Rightarrow> SshSection \<Rightarrow> SshSection warned" where
  "fold_ssh p c =
     (let (destinations, w) = fold_listfield (shs_destinations c) (shs_destinations p) ssh_key ''ssh.destinations'' in
      (\<lparr>shs_allow_headless = or_else (shs_allow_headless c) (shs_allow_headless p),
        shs_threats = or_else (shs_threats c) (shs_threats p), shs_destinations = destinations\<rparr>, w))"

definition fold_identity :: "IdentitySection \<Rightarrow> IdentitySection \<Rightarrow> IdentitySection warned" where
  "fold_identity p c =
     (let (groups, w) = fold_groupfield (ids_groups c) (ids_groups p) in
      (\<lparr>ids_user = or_else (ids_user c) (ids_user p), ids_group = or_else (ids_group c) (ids_group p),
        ids_hostname = or_else (ids_hostname c) (ids_hostname p), ids_groups = groups\<rparr>, w))"

definition fold_service :: "ServiceSection \<Rightarrow> ServiceSection \<Rightarrow> ServiceSection" where
  "fold_service p c = \<lparr>svs_restart = or_else (svs_restart c) (svs_restart p), svs_backoff = or_else (svs_backoff c) (svs_backoff p),
     svs_max_attempts = or_else (svs_max_attempts c) (svs_max_attempts p)\<rparr>"

definition fold_boundary_acl :: "BoundaryAcl \<Rightarrow> BoundaryAcl \<Rightarrow> BoundaryAcl" where
  "fold_boundary_acl p c = \<lparr>ba_allow_targets = or_else (ba_allow_targets c) (ba_allow_targets p),
     ba_allow_from = or_else (ba_allow_from c) (ba_allow_from p)\<rparr>"

definition fold_unsafe :: "UnsafeSection \<Rightarrow> UnsafeSection \<Rightarrow> UnsafeSection" where
  "fold_unsafe p c = \<lparr>uns_ptrace = merge (uns_ptrace p) (uns_ptrace c) fold_boundary_acl,
     uns_signal = merge (uns_signal p) (uns_signal c) fold_boundary_acl\<rparr>"

definition fold_env :: "EnvSection \<Rightarrow> EnvSection \<Rightarrow> EnvSection" where
  "fold_env p c =
     \<lparr>es_pass = or_else (es_pass c) (es_pass p), es_deny = union_names (es_deny p) (es_deny c),
      es_set = (case (es_set p, es_set c) of (Some ps, Some cs) \<Rightarrow> Some (ps ++ cs) | (ps, cs) \<Rightarrow> or_else cs ps)\<rparr>"

definition fold_seccomp :: "SeccompSection \<Rightarrow> SeccompSection \<Rightarrow> SeccompSection" where
  "fold_seccomp p c = \<lparr>scs_profile = or_else (scs_profile c) (scs_profile p), scs_deny = union_names (scs_deny p) (scs_deny c),
     scs_allow = or_else (scs_allow c) (scs_allow p)\<rparr>"

definition fold_lifecycle :: "LifecycleSection \<Rightarrow> LifecycleSection \<Rightarrow> LifecycleSection" where
  "fold_lifecycle p c = \<lparr>ls_ttl = or_else (ls_ttl c) (ls_ttl p), ls_ttl_action = or_else (ls_ttl_action c) (ls_ttl_action p)\<rparr>"

definition fold_audit_file :: "AuditFileSection \<Rightarrow> AuditFileSection \<Rightarrow> AuditFileSection" where
  "fold_audit_file p c = \<lparr>afs_dir = or_else (afs_dir c) (afs_dir p), afs_rotate_at_bytes = or_else (afs_rotate_at_bytes c) (afs_rotate_at_bytes p),
     afs_compress_after_seconds = or_else (afs_compress_after_seconds c) (afs_compress_after_seconds p),
     afs_retain_count = or_else (afs_retain_count c) (afs_retain_count p)\<rparr>"

definition fold_audit_syslog :: "AuditSyslogSection \<Rightarrow> AuditSyslogSection \<Rightarrow> AuditSyslogSection" where
  "fold_audit_syslog p c = \<lparr>ays_facility = or_else (ays_facility c) (ays_facility p)\<rparr>"

definition fold_audit_class :: "AuditClassSection \<Rightarrow> AuditClassSection \<Rightarrow> AuditClassSection" where
  "fold_audit_class p c = \<lparr>acs_level = or_else (acs_level c) (acs_level p)\<rparr>"

definition fold_audit :: "AuditSection \<Rightarrow> AuditSection \<Rightarrow> AuditSection warned" where
  "fold_audit p c =
     (\<lparr>aus_sinks = (if aus_sinks c = [] then aus_sinks p else aus_sinks c),
       aus_file = merge (aus_file p) (aus_file c) fold_audit_file, aus_syslog = merge (aus_syslog p) (aus_syslog c) fold_audit_syslog,
       aus_journald = or_else (aus_journald c) (aus_journald p), aus_stdout = or_else (aus_stdout c) (aus_stdout p),
       aus_network = merge (aus_network p) (aus_network c) fold_audit_class,
       aus_filesystem = merge (aus_filesystem p) (aus_filesystem c) fold_audit_class,
       aus_exec = merge (aus_exec p) (aus_exec c) fold_audit_class, aus_unix = merge (aus_unix p) (aus_unix c) fold_audit_class,
       aus_dbus = merge (aus_dbus p) (aus_dbus c) fold_audit_class\<rparr>,
      if aus_sinks c \<noteq> [] \<and> aus_sinks p \<noteq> [] then [clobber_text ''audit.sinks'' (length (aus_sinks p))] else [])"

definition fold_ulimits :: "(string \<rightharpoonup> string) \<Rightarrow> (string \<rightharpoonup> string) \<Rightarrow> (string \<rightharpoonup> string)" where
  "fold_ulimits parent child = parent ++ child"

definition fold_workload :: "WorkloadSection \<Rightarrow> WorkloadSection \<Rightarrow> WorkloadSection" where
  "fold_workload p c = \<lparr>wls_argv = or_else (wls_argv c) (wls_argv p), wls_cwd = or_else (wls_cwd c) (wls_cwd p),
     wls_pinned = or_else (wls_pinned c) (wls_pinned p), wls_allowed_args = or_else (wls_allowed_args c) (wls_allowed_args p),
     wls_sha256 = or_else (wls_sha256 c) (wls_sha256 p)\<rparr>"

definition fold_tty :: "TtySection \<Rightarrow> TtySection \<Rightarrow> TtySection" where
  "fold_tty p c = \<lparr>tts_filter_terminal_escapes = or_else (tts_filter_terminal_escapes c) (tts_filter_terminal_escapes p)\<rparr>"

definition fold_trust :: "TrustSection \<Rightarrow> TrustSection \<Rightarrow> TrustSection" where
  "fold_trust p c = \<lparr>trs_manifest = or_else (trs_manifest c) (trs_manifest p), trs_on_change = or_else (trs_on_change c) (trs_on_change p)\<rparr>"

definition union_dbus_rules :: "DbusRules option \<Rightarrow> DbusRules option \<Rightarrow> DbusRules option" where
  "union_dbus_rules p c =
     (case (p, c) of
        (Some p, Some c) \<Rightarrow> Some \<lparr>dbr_talk = push_new (dbr_talk p) (dbr_talk c), dbr_call = push_new (dbr_call p) (dbr_call c),
          dbr_broadcast = push_new (dbr_broadcast p) (dbr_broadcast c), dbr_own = push_new (dbr_own p) (dbr_own c)\<rparr>
      | (Some r, None) \<Rightarrow> Some r | (None, Some r) \<Rightarrow> Some r | (None, None) \<Rightarrow> None)"

definition fold_dbus_bus :: "DbusBus option \<Rightarrow> DbusBus option \<Rightarrow> DbusBus option" where
  "fold_dbus_bus p c =
     (case (p, c) of
        (Some p, Some c) \<Rightarrow> Some \<lparr>dbb_enabled = or_else (dbb_enabled c) (dbb_enabled p),
          dbb_allow = union_dbus_rules (dbb_allow p) (dbb_allow c), dbb_deny = union_dbus_rules (dbb_deny p) (dbb_deny c)\<rparr>
      | (Some b, None) \<Rightarrow> Some b | (None, Some b) \<Rightarrow> Some b | (None, None) \<Rightarrow> None)"

definition fold_dbus :: "DbusSection \<Rightarrow> DbusSection \<Rightarrow> DbusSection" where
  "fold_dbus p c =
     \<lparr>dbs_session = fold_dbus_bus (dbs_session p) (dbs_session c), dbs_system = fold_dbus_bus (dbs_system p) (dbs_system c),
      dbs_audit = (case (dbs_audit c, dbs_audit p) of
        (Some ca, Some pa) \<Rightarrow> Some \<lparr>dba_level = or_else (dba_level ca) (dba_level pa)\<rparr>
      | (ca, None) \<Rightarrow> ca | (None, pa) \<Rightarrow> pa)\<rparr>"

definition fold_rootfs :: "RootfsSection \<Rightarrow> RootfsSection \<Rightarrow> RootfsSection" where
  "fold_rootfs p c = \<lparr>rfs_path = or_else (rfs_path c) (rfs_path p), rfs_image = or_else (rfs_image c) (rfs_image p),
     rfs_reason = or_else (rfs_reason c) (rfs_reason p), rfs_persistence = or_else (rfs_persistence c) (rfs_persistence p),
     rfs_readonly = or_else (rfs_readonly c) (rfs_readonly p), rfs_writable = or_else (rfs_writable c) (rfs_writable p)\<rparr>"

definition fold_spawn :: "SpawnSection \<Rightarrow> SpawnSection \<Rightarrow> SpawnSection warned" where
  "fold_spawn p c =
     (let (allow, w) = fold_listfield (ss_allow c) (ss_allow p) spawn_key ''spawn.allow'' in
      (\<lparr>ss_max_instances = or_else (ss_max_instances c) (ss_max_instances p), ss_reason = or_else (ss_reason c) (ss_reason p),
        ss_allow = allow\<rparr>, w))"

text \<open>The set-replace lists, \<open>[[provides]]\<close> and \<open>[[mutable]]\<close>.\<close>

definition replace_list :: "string \<Rightarrow> 'a list \<Rightarrow> 'a list \<Rightarrow> 'a list warned" where
  "replace_list field parent child =
     (if child = [] then parent else child,
      if child \<noteq> [] \<and> parent \<noteq> [] then [clobber_text field (length parent)] else [])"

definition fold_policy :: "SourcePolicy \<Rightarrow> SourcePolicy \<Rightarrow> SourcePolicy warned" where
  "fold_policy parent child =
     (let (exec, w1) = merge_warned (src_exec parent) (src_exec child) fold_exec;
          (fs, w2) = merge_warned (src_fs parent) (src_fs child) fold_fs;
          (net, w3) = merge_warned (src_net parent) (src_net child) fold_net;
          (unix, w4) = merge_warned (src_unix parent) (src_unix child) fold_unix;
          (ssh, w5) = merge_warned (src_ssh parent) (src_ssh child) fold_ssh;
          (identity, w6) = merge_warned (src_identity parent) (src_identity child) fold_identity;
          (provides, w7) = replace_list ''[[provides]]'' (src_provides parent) (src_provides child);
          (consumes, w8) = fold_listfield (src_consumes child) (src_consumes parent) consumes_key ''consumes'';
          (audit, w9) = merge_warned (src_audit parent) (src_audit child) fold_audit;
          (spawn, w10) = merge_warned (src_spawn parent) (src_spawn child) fold_spawn;
          (mutable, w11) = replace_list ''[[mutable]]'' (src_mutable parent) (src_mutable child)
      in (\<lparr>src_template_base = src_template_base child, src_template_name = or_else (src_template_name child) (src_template_name parent),
           src_name = or_else (src_name child) (src_name parent), src_include = union_strings (src_include parent) (src_include child),
           src_threat_catalogue_version = or_else (src_threat_catalogue_version child) (src_threat_catalogue_version parent),
           src_signature = None, src_cap = merge (src_cap parent) (src_cap child) fold_cap, src_exec = exec, src_fs = fs,
           src_net = net, src_unix = unix, src_ssh = ssh, src_identity = identity, src_provides = provides,
           src_consumes = consumes, src_service = merge (src_service parent) (src_service child) fold_service,
           src_unsafe = merge (src_unsafe parent) (src_unsafe child) fold_unsafe,
           src_env = merge (src_env parent) (src_env child) fold_env,
           src_seccomp = merge (src_seccomp parent) (src_seccomp child) fold_seccomp,
           src_lifecycle = merge (src_lifecycle parent) (src_lifecycle child) fold_lifecycle, src_audit = audit,
           src_ulimits = merge (src_ulimits parent) (src_ulimits child) fold_ulimits,
           src_workload = merge (src_workload parent) (src_workload child) fold_workload,
           src_tty = merge (src_tty parent) (src_tty child) fold_tty, src_trust = merge (src_trust parent) (src_trust child) fold_trust,
           src_dbus = merge (src_dbus parent) (src_dbus child) fold_dbus,
           src_rootfs = merge (src_rootfs parent) (src_rootfs child) fold_rootfs, src_spawn = spawn, src_mutable = mutable\<rparr>,
          w1 @ w2 @ w3 @ w4 @ w5 @ w6 @ w7 @ w8 @ w9 @ w10 @ w11))"

end
