(* ===== verification/Source_Resolve.thy ===== *)
theory Source_Resolve
  imports Source_Fold
begin

text \<open>
  Resolution of a policy's sources: the trust check of a source artefact (\<open>source_sig.rs\<close>), the walk up
  the inheritance chain and its fold (\<open>resolve.rs\<close>), the included fragments (\<open>apply_includes\<close> and
  \<open>effective_source\<close> in \<open>compile.rs\<close>) and the lock file (\<open>lock.rs\<close>).  The TOML reader and writer, the
  signature scheme and the search path are the fields of one record of parameters.
\<close>

record 'kp SourceEnv =
  se_crypto :: "'kp Crypto"
  se_parse :: "bytes \<Rightarrow> string + SourcePolicy"
  se_print :: "SourcePolicy \<Rightarrow> string + bytes"
  se_fetch :: "string \<Rightarrow> bytes option"

section \<open>Trust\<close>

datatype SignatureMode = Require | AllowUnsigned

datatype Tier = User | Host | Vendor

fun tier_rank :: "Tier \<Rightarrow> nat" where
  "tier_rank User = 0"
| "tier_rank Host = 1"
| "tier_rank Vendor = 2"

instantiation Tier :: linorder
begin

definition less_eq_Tier :: "Tier \<Rightarrow> Tier \<Rightarrow> bool" where
  "a \<le> b \<longleftrightarrow> tier_rank a \<le> tier_rank b"

definition less_Tier :: "Tier \<Rightarrow> Tier \<Rightarrow> bool" where
  "a < b \<longleftrightarrow> tier_rank a < tier_rank b"

instance
proof
  fix a b :: Tier
  assume "a \<le> b" "b \<le> a"
  then show "a = b" by (cases a; cases b) (simp_all add: less_eq_Tier_def)
qed (auto simp: less_eq_Tier_def less_Tier_def)

end

lemma vendor_le_iff: "Vendor \<le> t \<longleftrightarrow> t = Vendor"
  by (cases t) (simp_all add: less_eq_Tier_def)

lemma host_le_iff: "Host \<le> t \<longleftrightarrow> t \<noteq> User"
  by (cases t) (simp_all add: less_eq_Tier_def)

record ReservedNamespace =
  rn_prefix :: string
  rn_keys :: "string list"

record Trust =
  tr_keys :: "KeySet option"
  tr_mode :: SignatureMode
  tr_vendor_keys :: "string list option"
  tr_host_keys :: "string list option"
  tr_signing_key :: "string option"
  tr_reserved :: "ReservedNamespace list"

definition Trust_require :: "KeySet \<Rightarrow> Trust" where
  "Trust_require keys = \<lparr>tr_keys = Some keys, tr_mode = Require, tr_vendor_keys = None, tr_host_keys = None,
     tr_signing_key = None, tr_reserved = []\<rparr>"

definition Trust_allow_unsigned :: "KeySet option \<Rightarrow> Trust" where
  "Trust_allow_unsigned keys = \<lparr>tr_keys = keys, tr_mode = AllowUnsigned, tr_vendor_keys = None, tr_host_keys = None,
     tr_signing_key = None, tr_reserved = []\<rparr>"

definition Trust_dev :: Trust where
  "Trust_dev = \<lparr>tr_keys = None, tr_mode = AllowUnsigned, tr_vendor_keys = None, tr_host_keys = None,
     tr_signing_key = None, tr_reserved = []\<rparr>"

definition with_tiers :: "string list \<Rightarrow> string list \<Rightarrow> Trust \<Rightarrow> Trust" where
  "with_tiers vendor host t = t\<lparr>tr_vendor_keys := Some vendor, tr_host_keys := Some host\<rparr>"

definition with_signing_key :: "string option \<Rightarrow> Trust \<Rightarrow> Trust" where
  "with_signing_key key_id t = t\<lparr>tr_signing_key := key_id\<rparr>"

definition with_reserved :: "ReservedNamespace list \<Rightarrow> Trust \<Rightarrow> Trust" where
  "with_reserved reserved t = t\<lparr>tr_reserved := reserved\<rparr>"

definition tier_of :: "Trust \<Rightarrow> string \<Rightarrow> Tier" where
  "tier_of t key_id =
     (if (case tr_vendor_keys t of None \<Rightarrow> False | Some s \<Rightarrow> key_id \<in> set s) then Vendor
      else if (case tr_host_keys t of None \<Rightarrow> False | Some s \<Rightarrow> key_id \<in> set s) then Host
      else User)"

definition signing_tier :: "Trust \<Rightarrow> Tier option" where
  "signing_tier t = map_option (tier_of t) (tr_signing_key t)"

definition canonical_source :: "'kp SourceEnv \<Rightarrow> SourcePolicy \<Rightarrow> PolicyError + bytes" where
  "canonical_source E policy = map_err Canonical (se_print E (policy\<lparr>src_signature := None\<rparr>))"

definition require_err :: "string \<Rightarrow> string \<Rightarrow> PolicyError" where
  "require_err name why = Resolution (''template `'' @ name @ ''` cannot be trusted: '' @ why)"

definition Trust_check :: "'kp SourceEnv \<Rightarrow> Trust \<Rightarrow> string \<Rightarrow> SourcePolicy \<Rightarrow> PolicyError + string option" where
  "Trust_check E t name policy =
     (case (src_signature policy, tr_keys t) of
        (Some env, Some keys) \<Rightarrow>
          and_then (canonical_source E policy) (\<lambda>canonical.
          and_then (map_err Signature (verify_signature (se_crypto E) canonical env keys)) (\<lambda>_.
          Inr (Some (env_key_id env))))
      | (Some _, None) \<Rightarrow>
          if tr_mode t = Require then Inl (require_err name ''no trust store is configured to verify its signature'')
          else Inr None
      | (None, _) \<Rightarrow>
          if tr_mode t = Require then Inl (require_err name ''it is unsigned and signatures are required'')
          else Inr None)"

definition sign_source :: "'kp SourceEnv \<Rightarrow> SourcePolicy \<Rightarrow> 'kp SigningKey \<Rightarrow> PolicyError + SourcePolicy" where
  "sign_source E policy key =
     and_then (canonical_source E policy) (\<lambda>canonical.
       Inr (policy\<lparr>src_signature := Some \<lparr>env_algorithm = SSHSIG_ALGORITHM, env_key_id = sk_key_id key,
         env_signature = sign_ed25519 (se_crypto E) key canonical, env_signed_fields = []\<rparr>\<rparr>))"

definition verify_source :: "'kp SourceEnv \<Rightarrow> SourcePolicy \<Rightarrow> SignatureEnvelope \<Rightarrow> KeySet \<Rightarrow> PolicyError + string" where
  "verify_source E policy envelope keys =
     and_then (canonical_source E policy) (\<lambda>canonical.
     and_then (map_err Signature (verify_signature (se_crypto E) canonical envelope keys)) (\<lambda>_.
     Inr (env_key_id envelope)))"

definition verify_self :: "'kp SourceEnv \<Rightarrow> SourcePolicy \<Rightarrow> KeySet \<Rightarrow> PolicyError + string" where
  "verify_self E policy keys =
     and_then (ok_or (src_signature policy) (Signature MalformedSignature)) (\<lambda>env. verify_source E policy env keys)"

section \<open>The inheritance chain\<close>

definition MAX_CHAIN_DEPTH :: nat where "MAX_CHAIN_DEPTH = 16"

record ChainLink =
  cl_name :: string
  cl_signing_key_id :: "string option"
  cl_signature :: "string option"

datatype ProvidesOrigin = Absent | Entry | Ancestor "Tier option"

record ResolvedChain =
  rc_effective :: SourcePolicy
  rc_chain :: "ChainLink list"
  rc_provides_origin :: ProvidesOrigin
  rc_warnings :: "string list"

definition parse_reference :: "string \<Rightarrow> PolicyError + string" where
  "parse_reference reference =
     and_then (map_err (\<lambda>d. Resolution (''`template_base` = '' @ quoted reference @ '': '' @ d)) (validate_ref_name reference))
       (\<lambda>_. Inr reference)"

text \<open>What one turn of the loop fetches, parses, validates and checks.\<close>

definition fetch_parent :: "'kp SourceEnv \<Rightarrow> Trust \<Rightarrow> string \<Rightarrow> PolicyError + SourcePolicy \<times> ChainLink" where
  "fetch_parent E trust name =
     and_then (ok_or (se_fetch E name) (Resolution (''reference `'' @ name @ ''` not found in the search path''))) (\<lambda>bs.
     and_then (map_err Parse (se_parse E bs)) (\<lambda>parent.
     and_then (validate_source parent) (\<lambda>_.
     and_then (Trust_check E trust name parent) (\<lambda>signing_key_id.
     Inr (parent, \<lparr>cl_name = name, cl_signing_key_id = signing_key_id,
                   cl_signature = map_option env_signature (src_signature parent)\<rparr>)))))"

definition walk_step ::
    "'kp SourceEnv \<Rightarrow> Trust \<Rightarrow> nat \<Rightarrow> string list \<Rightarrow> string \<Rightarrow> PolicyError + SourcePolicy \<times> ChainLink" where
  "walk_step E trust depth seen reference =
     and_then (parse_reference reference) (\<lambda>name.
       if name \<in> set seen then Inl (Resolution (''cycle detected at `'' @ name @ ''`''))
       else if depth \<ge> MAX_CHAIN_DEPTH
       then Inl (Resolution (''inheritance chain exceeds the maximum depth of '' @ show_dec MAX_CHAIN_DEPTH))
       else fetch_parent E trust name)"

partial_function (option) walk ::
    "'kp SourceEnv \<Rightarrow> Trust \<Rightarrow> SourcePolicy list \<Rightarrow> ChainLink list \<Rightarrow> string list \<Rightarrow> SourcePolicy
       \<Rightarrow> (PolicyError + SourcePolicy list \<times> ChainLink list) option" where
  "walk E trust parents links seen current =
     (case src_template_base current of
        None \<Rightarrow> Some (Inr (parents, links))
      | Some reference \<Rightarrow>
          (case walk_step E trust (length parents) seen reference of
             Inl e \<Rightarrow> Some (Inl e)
           | Inr (parent, link) \<Rightarrow>
               walk E trust (parents @ [parent]) (links @ [link]) (seen @ [cl_name link]) parent))"

definition provides_origin :: "Trust \<Rightarrow> SourcePolicy \<Rightarrow> SourcePolicy list \<Rightarrow> ChainLink list \<Rightarrow> ProvidesOrigin" where
  "provides_origin trust entry parents links =
     (if src_provides entry \<noteq> [] then Entry
      else case find (\<lambda>(p, _). src_provides p \<noteq> []) (zip parents links) of
             Some (_, l) \<Rightarrow> Ancestor (map_option (tier_of trust) (cl_signing_key_id l))
           | None \<Rightarrow> Absent)"

text \<open>The fold of the chain, root first; the parents are leaf first.\<close>

definition fold_step :: "SourcePolicy \<Rightarrow> SourcePolicy warned \<Rightarrow> SourcePolicy warned" where
  "fold_step child = (\<lambda>(acc, w). let (v, w') = fold_policy acc child in (v, w @ w'))"

definition fold_chain :: "SourcePolicy list \<Rightarrow> SourcePolicy \<Rightarrow> SourcePolicy warned" where
  "fold_chain parents entry =
     (case rev parents of
        [] \<Rightarrow> fold_step entry (entry, [])
      | root # rest \<Rightarrow> fold_step entry (fold fold_step rest (root, [])))"

definition resolve_verified :: "'kp SourceEnv \<Rightarrow> Trust \<Rightarrow> SourcePolicy \<Rightarrow> (PolicyError + ResolvedChain) option" where
  "resolve_verified E trust entry =
     (case validate_source entry of
        Inl e \<Rightarrow> Some (Inl e)
      | Inr _ \<Rightarrow> map_option (\<lambda>r. and_then r (\<lambda>(parents, links).
          let (acc, warnings) = fold_chain parents entry in
          Inr \<lparr>rc_effective = acc\<lparr>src_template_base := None, src_template_name := src_template_name entry,
                  src_name := src_name entry, src_signature := None\<rparr>,
               rc_chain = rev links, rc_provides_origin = provides_origin trust entry parents links,
               rc_warnings = warnings\<rparr>)) (walk E trust [] [] [] entry))"

definition resolve :: "'kp SourceEnv \<Rightarrow> SourcePolicy \<Rightarrow> (PolicyError + ResolvedChain) option" where
  "resolve E entry = resolve_verified E Trust_dev entry"

section \<open>Fragments\<close>

definition apply_fragment :: "SourcePolicy \<Rightarrow> SourcePolicy \<Rightarrow> SourcePolicy" where
  "apply_fragment base fragment =
     (fst (fold_policy base fragment))\<lparr>src_template_base := src_template_base base, src_template_name := src_template_name base,
        src_name := src_name base, src_include := src_include base, src_signature := None\<rparr>"

fun check_conflicts :: "NetAllow list \<Rightarrow> NetAllow list \<Rightarrow> PolicyError + NetAllow list" where
  "check_conflicts seen_net [] = Inr seen_net"
| "check_conflicts seen_net (entry # es) =
     (case find (\<lambda>e. net_key e = net_key entry) seen_net of
        Some prev \<Rightarrow>
          if prev \<noteq> entry
          then Inl (IncludeConflict (''two includes add conflicting rules for `'' @ net_key entry @ ''`; reconcile them in the leaf''))
          else check_conflicts seen_net es
      | None \<Rightarrow> check_conflicts (seen_net @ [entry]) es)"

definition fetch_fragment :: "'kp SourceEnv \<Rightarrow> Trust \<Rightarrow> string \<Rightarrow> PolicyError + SourcePolicy \<times> ChainLink" where
  "fetch_fragment E trust reference =
     and_then (parse_reference reference) (\<lambda>name.
     and_then (ok_or (se_fetch E name) (Resolution (''include `'' @ name @ ''` not found in the search path''))) (\<lambda>bs.
     and_then (map_err Parse (se_parse E bs)) (\<lambda>fragment.
       if \<not> is_additive_only fragment
       then Inl (SourceValidation [''fragment `'' @ name @ ''` carries a non-additive contribution (a `Set`-replace, a `.remove` delta, or an override-prone section); includes are additive-only''])
       else if src_template_base fragment \<notin> {None, Some ''base-confined''}
       then Inl (Resolution (''fragment `'' @ name @ ''` derives from `'' @ unwrap_or (src_template_base fragment) [] @ ''`; a fragment may only extend base-confined''))
       else and_then (Trust_check E trust name fragment) (\<lambda>signing_key_id.
         Inr (fragment, \<lparr>cl_name = name, cl_signing_key_id = signing_key_id,
                         cl_signature = map_option env_signature (src_signature fragment)\<rparr>)))))"

fun include_loop ::
    "'kp SourceEnv \<Rightarrow> Trust \<Rightarrow> string list \<Rightarrow> SourcePolicy \<Rightarrow> NetAllow list \<Rightarrow> ChainLink list
       \<Rightarrow> PolicyError + SourcePolicy \<times> ChainLink list" where
  "include_loop E trust [] effective seen_net links = Inr (effective, links)"
| "include_loop E trust (reference # refs) effective seen_net links =
     and_then (fetch_fragment E trust reference) (\<lambda>(fragment, link).
     and_then (check_conflicts seen_net (net_allow_adds fragment)) (\<lambda>seen_net'.
     include_loop E trust refs (apply_fragment effective fragment) seen_net' (links @ [link])))"

definition apply_includes ::
    "'kp SourceEnv \<Rightarrow> Trust \<Rightarrow> SourcePolicy \<Rightarrow> string list \<Rightarrow> PolicyError + SourcePolicy \<times> ChainLink list" where
  "apply_includes E trust effective includes = include_loop E trust includes effective [] []"

definition effective_source :: "'kp SourceEnv \<Rightarrow> Trust \<Rightarrow> bytes \<Rightarrow> (PolicyError + SourcePolicy) option" where
  "effective_source E trust bs =
     (case se_parse E bs of
        Inl e \<Rightarrow> Some (Inl (Parse e))
      | Inr entry \<Rightarrow> map_option (\<lambda>r. and_then r (\<lambda>c.
          and_then (apply_includes E trust (rc_effective c) (src_include (rc_effective c))) (\<lambda>(effective, _).
          Inr effective))) (resolve_verified E trust entry))"

section \<open>The lock file\<close>

record LockEntry =
  lk_name :: string
  lk_signing_key_id :: string
  lk_signature :: string

definition Lockfile_from_chain :: "ChainLink list \<Rightarrow> LockEntry list" where
  "Lockfile_from_chain chain =
     map (\<lambda>link. \<lparr>lk_name = cl_name link, lk_signing_key_id = unwrap_or (cl_signing_key_id link) [],
                   lk_signature = unwrap_or (cl_signature link) []\<rparr>) chain"

fun verify_against :: "LockEntry list \<Rightarrow> LockEntry list \<Rightarrow> PolicyError + unit" where
  "verify_against [] previous = Inr ()"
| "verify_against (e # es) previous =
     (case find (\<lambda>p. lk_name p = lk_name e) previous of
        Some prev \<Rightarrow>
          if lk_signature prev \<noteq> lk_signature e
          then Inl (LockMismatch (''`'' @ lk_name e @ ''` resolved to different bytes than the lockfile pins (the template was re-pointed or re-signed); re-pin by recompiling''))
          else verify_against es previous
      | None \<Rightarrow> verify_against es previous)"

section \<open>The walk returns\<close>

lemma walk_returns: "length parents \<le> 16 \<Longrightarrow> \<exists>r. walk E trust parents links seen current = Some r"
proof (induction "16 - length parents" arbitrary: parents links seen current rule: less_induct)
  case less
  show ?case
  proof (cases "src_template_base current")
    case None
    then show ?thesis by (simp add: walk.simps)
  next
    case (Some reference)
    note tb = this
    show ?thesis
    proof (cases "walk_step E trust (length parents) seen reference")
      case (Inl e)
      with tb show ?thesis by (simp add: walk.simps)
    next
      case (Inr r)
      then have "length parents < 16"
        by (auto simp: walk_step_def and_then_Inr_iff MAX_CHAIN_DEPTH_def split: if_splits)
      then have "\<exists>s. walk E trust (parents @ [fst r]) (links @ [snd r]) (seen @ [cl_name (snd r)]) (fst r) = Some s"
        by (intro less.hyps) simp_all
      with tb Inr show ?thesis by (cases r) (simp add: walk.simps [of E trust parents])
    qed
  qed
qed

text \<open>
  What the walk returns: each ancestor is what the search path holds under the name its child gives as its
  base, parsed, valid and trusted; the last has no base.
\<close>

fun ancestors :: "'kp SourceEnv \<Rightarrow> Trust \<Rightarrow> SourcePolicy \<Rightarrow> SourcePolicy list \<Rightarrow> ChainLink list \<Rightarrow> bool" where
  "ancestors E trust current [] [] \<longleftrightarrow> src_template_base current = None"
| "ancestors E trust current (p # ps) (l # ls) \<longleftrightarrow>
     src_template_base current = Some (cl_name l) \<and> validate_ref_name (cl_name l) = Inr ()
     \<and> fetch_parent E trust (cl_name l) = Inr (p, l) \<and> ancestors E trust p ps ls"
| "ancestors E trust current _ _ \<longleftrightarrow> False"

lemma parse_reference_Inr_iff: "parse_reference r = Inr n \<longleftrightarrow> n = r \<and> validate_ref_name r = Inr ()"
  by (auto simp: parse_reference_def and_then_Inr_iff map_err_Inr_iff)

lemma fetch_parent_name: "fetch_parent E trust n = Inr (p, l) \<Longrightarrow> cl_name l = n"
  by (auto simp: fetch_parent_def and_then_Inr_iff)

lemma walk_step_Inr_iff:
  "walk_step E trust d seen r = Inr (p, l) \<longleftrightarrow>
     r = cl_name l \<and> validate_ref_name r = Inr () \<and> r \<notin> set seen \<and> d < 16 \<and> fetch_parent E trust r = Inr (p, l)"
  by (auto simp: walk_step_def and_then_Inr_iff parse_reference_Inr_iff MAX_CHAIN_DEPTH_def
      dest: fetch_parent_name)

lemma walk_sound:
  fixes E :: "'kp SourceEnv"
  assumes "walk E trust parents links seen current = Some res"
  shows "\<forall>ps' ls'. res = Inr (ps', ls') \<longrightarrow> (\<exists>ps ls. ps' = parents @ ps \<and> ls' = links @ ls \<and> ancestors E trust current ps ls
    \<and> distinct (map cl_name ls) \<and> set seen \<inter> cl_name ` set ls = {} \<and> (ps \<noteq> [] \<longrightarrow> length ps' \<le> 16))"
proof (rule walk.raw_induct [OF _ assms], intro allI impI)
  fix walk :: "'kp SourceEnv \<Rightarrow> Trust \<Rightarrow> SourcePolicy list \<Rightarrow> ChainLink list \<Rightarrow> string list \<Rightarrow> SourcePolicy
      \<Rightarrow> (PolicyError + SourcePolicy list \<times> ChainLink list) option"
    and E :: "'kp SourceEnv" and trust parents links seen and current :: SourcePolicy and res ps' ls'
  assume hyp: "\<And>E trust parents links seen current res. walk E trust parents links seen current = Some res \<Longrightarrow>
      \<forall>ps' ls'. res = Inr (ps', ls') \<longrightarrow> (\<exists>ps ls. ps' = parents @ ps \<and> ls' = links @ ls \<and> ancestors E trust current ps ls
        \<and> distinct (map cl_name ls) \<and> set seen \<inter> cl_name ` set ls = {} \<and> (ps \<noteq> [] \<longrightarrow> length ps' \<le> 16))"
    and eq: "(case src_template_base current of None \<Rightarrow> Some (Inr (parents, links))
      | Some reference \<Rightarrow> case walk_step E trust (length parents) seen reference of Inl e \<Rightarrow> Some (Inl e)
        | Inr (parent, link) \<Rightarrow> walk E trust (parents @ [parent]) (links @ [link]) (seen @ [cl_name link]) parent) = Some res"
    and res: "res = Inr (ps', ls')"
  show "\<exists>ps ls. ps' = parents @ ps \<and> ls' = links @ ls \<and> ancestors E trust current ps ls
        \<and> distinct (map cl_name ls) \<and> set seen \<inter> cl_name ` set ls = {} \<and> (ps \<noteq> [] \<longrightarrow> length ps' \<le> 16)"
  proof (cases "src_template_base current")
    case None
    with eq res show ?thesis by (intro exI [of _ "[]"]) simp
  next
    case (Some r)
    with eq res obtain p l where st: "walk_step E trust (length parents) seen r = Inr (p, l)"
      and w: "walk E trust (parents @ [p]) (links @ [l]) (seen @ [cl_name l]) p = Some (Inr (ps', ls'))"
      by (auto split: sum.splits)
    from hyp [OF w] obtain ps ls where ih: "ps' = parents @ p # ps" "ls' = links @ l # ls" "ancestors E trust p ps ls"
        "distinct (map cl_name ls)" "set (seen @ [cl_name l]) \<inter> cl_name ` set ls = {}" "ps \<noteq> [] \<longrightarrow> length ps' \<le> 16"
      by auto
    from st have "r = cl_name l" "validate_ref_name r = Inr ()" "r \<notin> set seen" "length parents < 16"
      "fetch_parent E trust r = Inr (p, l)"
      unfolding walk_step_Inr_iff by blast+
    with Some ih show ?thesis
      by (intro exI [of _ "p # ps"] exI [of _ "l # ls"]) (auto simp: Suc_le_eq)
  qed
qed

lemma walk_complete:
  "ancestors E trust current ps ls \<Longrightarrow> distinct (map cl_name ls) \<Longrightarrow> set seen \<inter> cl_name ` set ls = {} \<Longrightarrow>
   length parents + length ps \<le> 16 \<Longrightarrow>
   walk E trust parents links seen current = Some (Inr (parents @ ps, links @ ls))"
proof (induction E trust current ps ls arbitrary: parents links seen rule: ancestors.induct)
  case (1 E trust current)
  then show ?case by (simp add: walk.simps)
next
  case (2 E trust current p ps l ls)
  then have "walk_step E trust (length parents) seen (cl_name l) = Inr (p, l)"
    by (auto simp: walk_step_Inr_iff)
  moreover have "walk E trust (parents @ [p]) (links @ [l]) (seen @ [cl_name l]) p
      = Some (Inr ((parents @ [p]) @ ps, (links @ [l]) @ ls))"
    using 2 by (intro "2.IH") auto
  ultimately show ?case using "2.prems"(1) by (simp add: walk.simps [of E trust parents])
qed simp_all

lemma ancestors_length: "ancestors E trust current ps ls \<Longrightarrow> length ls = length ps"
  by (induction E trust current ps ls rule: ancestors.induct) simp_all

lemma walk_exact:
  "walk E trust [] [] [] entry = Some (Inr (ps, ls)) \<longleftrightarrow>
     ancestors E trust entry ps ls \<and> distinct (map cl_name ls) \<and> length ps \<le> 16"
  using walk_sound [of E trust "[]" "[]" "[]" entry "Inr (ps, ls)"] walk_complete [of E trust entry ps ls "[]" "[]" "[]"]
  by (cases ps) auto

lemma resolve_verified_Inr_iff:
  "resolve_verified E trust entry = Some (Inr c) \<longleftrightarrow>
     validate_source entry = Inr () \<and>
     (\<exists>ps ls. ancestors E trust entry ps ls \<and> distinct (map cl_name ls) \<and> length ps \<le> 16
       \<and> rc_effective c = (fst (fold_chain ps entry))\<lparr>src_template_base := None, src_template_name := src_template_name entry,
            src_name := src_name entry, src_signature := None\<rparr>
       \<and> rc_chain c = rev ls \<and> rc_provides_origin c = provides_origin trust entry ps ls
       \<and> rc_warnings c = snd (fold_chain ps entry))"
proof -
  have "(\<exists>r. walk E trust [] [] [] entry = Some r \<and> and_then r f = Inr c) \<longleftrightarrow>
      (\<exists>ps ls. (ancestors E trust entry ps ls \<and> distinct (map cl_name ls) \<and> length ps \<le> 16) \<and> f (ps, ls) = Inr c)" for f
    unfolding walk_exact [symmetric] and_then_Inr_iff by auto
  then show ?thesis
    unfolding resolve_verified_def
    by (cases "validate_source entry"; cases c) (auto simp: case_prod_beta Let_def)
qed

section \<open>What is trusted\<close>

text \<open>A signature of the artefact by a key of the store over its canonical text.\<close>

definition source_authentic :: "'kp SourceEnv \<Rightarrow> KeySet \<Rightarrow> SourcePolicy \<Rightarrow> string \<Rightarrow> bool" where
  "source_authentic E keys p key_id \<longleftrightarrow>
     (\<exists>env canonical key sig s. src_signature p = Some env \<and> env_key_id env = key_id
       \<and> se_print E (p\<lparr>src_signature := None\<rparr>) = Inr canonical \<and> KeySet_get keys key_id = Some key
       \<and> parse_armored (env_signature env) = Inr sig \<and> ss_pubkey sig = key \<and> ss_ed25519_sig sig = Some s
       \<and> cr_verify (se_crypto E) key (signed_image (se_crypto E) (ss_reserved sig) canonical) s)"

lemma Trust_check_key:
  assumes "Trust_check E t name p = Inr (Some k)"
  obtains keys where "tr_keys t = Some keys" "source_authentic E keys p k"
proof -
  from assms obtain env keys canonical where e: "src_signature p = Some env" "tr_keys t = Some keys" "env_key_id env = k"
      "se_print E (p\<lparr>src_signature := None\<rparr>) = Inr canonical"
      "verify_signature (se_crypto E) canonical env keys = Inr ()"
    by (auto simp: Trust_check_def canonical_source_def and_then_Inr_iff map_err_Inr_iff
        split: option.splits if_splits)
  from verify_signature_ok [OF e(5)] e(3) obtain key sig s where
      "KeySet_get keys k = Some key" "parse_armored (env_signature env) = Inr sig" "ss_pubkey sig = key"
      "ss_ed25519_sig sig = Some s" "cr_verify (se_crypto E) key (signed_image (se_crypto E) (ss_reserved sig) canonical) s"
    by metis
  with e that show thesis unfolding source_authentic_def by blast
qed

lemma Trust_check_require:
  assumes "Trust_check E t name p = Inr k" "tr_mode t = Require"
  obtains k' keys where "k = Some k'" "tr_keys t = Some keys" "source_authentic E keys p k'"
proof -
  from assms obtain k' where "k = Some k'"
    by (auto simp: Trust_check_def and_then_Inr_iff split: option.splits)
  with assms(1) that show thesis by (auto elim: Trust_check_key)
qed

lemma sign_source_checks:
  assumes "ed25519_correct (se_crypto E)" "tr_keys t = Some keys"
    and "KeySet_get keys (sk_key_id key) = Some (cr_public (se_crypto E) (sk_keypair key))"
    and "sign_source E p key = Inr q"
  shows "Trust_check E t name q = Inr (Some (sk_key_id key))"
proof -
  from assms(4) obtain canonical where c: "se_print E (p\<lparr>src_signature := None\<rparr>) = Inr canonical"
    and q: "q = p\<lparr>src_signature := Some \<lparr>env_algorithm = SSHSIG_ALGORITHM, env_key_id = sk_key_id key,
         env_signature = sign_ed25519 (se_crypto E) key canonical, env_signed_fields = []\<rparr>\<rparr>"
    by (auto simp: sign_source_def canonical_source_def and_then_Inr_iff map_err_Inr_iff)
  then show ?thesis
    by (simp add: Trust_check_def canonical_source_def assms(2) and_then_def map_err_def
        signed_verifies [OF assms(1,3)])
qed

section \<open>Fragments, in turn\<close>

lemma fetch_fragment_Inr_iff:
  "fetch_fragment E trust r = Inr (f, l) \<longleftrightarrow>
     validate_ref_name r = Inr () \<and> cl_name l = r \<and> cl_signature l = map_option env_signature (src_signature f)
     \<and> (\<exists>bs. se_fetch E r = Some bs \<and> se_parse E bs = Inr f) \<and> is_additive_only f
     \<and> src_template_base f \<in> {None, Some ''base-confined''} \<and> Trust_check E trust r f = Inr (cl_signing_key_id l)"
  by (cases l) (auto simp: fetch_fragment_def and_then_Inr_iff map_err_Inr_iff ok_or_Inr_iff parse_reference_Inr_iff)

lemma include_loop_Inr:
  "include_loop E trust refs eff seen links = Inr (eff', links') \<Longrightarrow>
   \<exists>frags ls. list_all2 (\<lambda>r fl. fetch_fragment E trust r = Inr fl) refs (zip frags ls)
     \<and> length ls = length frags \<and> links' = links @ ls \<and> eff' = fold (\<lambda>f e. apply_fragment e f) frags eff"
proof (induction refs arbitrary: eff seen links)
  case Nil
  then show ?case by (intro exI [of _ "[]"]) simp
next
  case (Cons r refs)
  from Cons.prems obtain f l seen' where f: "fetch_fragment E trust r = Inr (f, l)"
    and i: "include_loop E trust refs (apply_fragment eff f) seen' (links @ [l]) = Inr (eff', links')"
    by (auto simp: and_then_Inr_iff)
  from Cons.IH [OF i] obtain frags ls where
      "list_all2 (\<lambda>r fl. fetch_fragment E trust r = Inr fl) refs (zip frags ls)" "length ls = length frags"
      "links' = (links @ [l]) @ ls" "eff' = fold (\<lambda>f e. apply_fragment e f) frags (apply_fragment eff f)"
    by blast
  with f show ?case by (intro exI [of _ "f # frags"] exI [of _ "l # ls"]) simp
qed

text \<open>What \<open>effective_source\<close> composes: the entry, its ancestors and the fragments the chain includes.\<close>

definition compose_sources :: "SourcePolicy \<Rightarrow> SourcePolicy list \<Rightarrow> SourcePolicy list \<Rightarrow> SourcePolicy" where
  "compose_sources entry parents frags = fold (\<lambda>f e. apply_fragment e f) frags
     ((fst (fold_chain parents entry))\<lparr>src_template_base := None, src_template_name := src_template_name entry,
        src_name := src_name entry, src_signature := None\<rparr>)"

definition composed ::
    "'kp SourceEnv \<Rightarrow> Trust \<Rightarrow> bytes \<Rightarrow> SourcePolicy \<Rightarrow> SourcePolicy list \<Rightarrow> SourcePolicy list \<Rightarrow> bool" where
  "composed E trust bs entry parents frags \<longleftrightarrow>
     se_parse E bs = Inr entry \<and> validate_source entry = Inr () \<and> (\<exists>links. ancestors E trust entry parents links)
     \<and> (\<exists>ls. length ls = length frags \<and>
          list_all2 (\<lambda>r fl. fetch_fragment E trust r = Inr fl) (src_include (fst (fold_chain parents entry))) (zip frags ls))"

lemma effective_source_composed:
  assumes "effective_source E trust bs = Some (Inr eff)"
  obtains entry parents frags where "composed E trust bs entry parents frags" "eff = compose_sources entry parents frags"
proof -
  from assms obtain entry c links' where p: "se_parse E bs = Inr entry"
    and r: "resolve_verified E trust entry = Some (Inr c)"
    and i: "include_loop E trust (src_include (rc_effective c)) (rc_effective c) [] [] = Inr (eff, links')"
    by (auto simp: effective_source_def apply_includes_def and_then_Inr_iff split: sum.splits)
  from r obtain ps ls where c: "validate_source entry = Inr ()" "ancestors E trust entry ps ls"
      "rc_effective c = (fst (fold_chain ps entry))\<lparr>src_template_base := None, src_template_name := src_template_name entry,
          src_name := src_name entry, src_signature := None\<rparr>"
    by (auto simp: resolve_verified_Inr_iff)
  from include_loop_Inr [OF i] obtain frags ls' where
      f: "list_all2 (\<lambda>r fl. fetch_fragment E trust r = Inr fl) (src_include (rc_effective c)) (zip frags ls')"
      "length ls' = length frags" "eff = fold (\<lambda>f e. apply_fragment e f) frags (rc_effective c)"
    by blast
  have "composed E trust bs entry ps frags"
    using p c(1,2) f(1,2) unfolding composed_def c(3) by auto
  moreover have "eff = compose_sources entry ps frags"
    unfolding f(3) c(3) compose_sources_def ..
  ultimately show thesis by (rule that)
qed

lemma ancestors_Nil: "ancestors E trust e [] ls \<longleftrightarrow> ls = [] \<and> src_template_base e = None"
  by (cases ls) simp_all

lemma ancestors_Cons:
  "ancestors E trust e (p # ps) ls \<longleftrightarrow> (\<exists>l ls'. ls = l # ls' \<and> src_template_base e = Some (cl_name l)
     \<and> validate_ref_name (cl_name l) = Inr () \<and> fetch_parent E trust (cl_name l) = Inr (p, l) \<and> ancestors E trust p ps ls')"
  by (cases ls) simp_all

lemma ancestors_unique:
  "ancestors E trust e ps ls \<Longrightarrow> ancestors E trust e ps' ls' \<Longrightarrow> ps' = ps \<and> ls' = ls"
proof (induction ps arbitrary: e ls ps' ls')
  case Nil
  then show ?case by (cases ps') (simp_all add: ancestors_Nil ancestors_Cons)
next
  case (Cons p ps)
  from Cons.prems(1) obtain l ls0 where l: "ls = l # ls0" "src_template_base e = Some (cl_name l)"
      "fetch_parent E trust (cl_name l) = Inr (p, l)" "ancestors E trust p ps ls0"
    unfolding ancestors_Cons by blast
  from Cons.prems(2) l(2) obtain p' ps0 where p': "ps' = p' # ps0" by (cases ps') (simp_all add: ancestors_Nil)
  with Cons.prems(2) obtain l' ls0' where l': "ls' = l' # ls0'" "src_template_base e = Some (cl_name l')"
      "fetch_parent E trust (cl_name l') = Inr (p', l')" "ancestors E trust p' ps0 ls0'"
    unfolding p' ancestors_Cons by blast
  have "cl_name l' = cl_name l" using l(2) l'(2) by simp
  with l(3) l'(3) have "Inr (p', l') = (Inr (p, l) :: PolicyError + _)" by (simp only:)
  then have "p' = p" "l' = l" by blast+
  moreover have "ps0 = ps \<and> ls0' = ls0" using l(4) l'(4) unfolding \<open>p' = p\<close> by (rule Cons.IH)
  ultimately show ?case using l(1) l'(1) p' by blast
qed

lemma list_all2_functional:
  "list_all2 (\<lambda>r x. f r = Inr x) rs xs \<Longrightarrow> list_all2 (\<lambda>r x. f r = Inr x) rs ys \<Longrightarrow> xs = ys"
proof (induction rs arbitrary: xs ys)
  case (Cons r rs)
  then show ?case by (auto simp: list_all2_Cons1)
qed simp

lemma composed_unique:
  assumes "composed E trust bs entry parents frags" "composed E trust bs entry' parents' frags'"
  shows "entry' = entry \<and> parents' = parents \<and> frags' = frags"
proof -
  from assms have e: "entry' = entry" "parents' = parents"
    unfolding composed_def by (auto dest: ancestors_unique)
  define refs where "refs = src_include (fst (fold_chain parents entry))"
  from assms obtain ls ls' where z: "length ls = length frags" "length ls' = length frags'"
      "list_all2 (\<lambda>r fl. fetch_fragment E trust r = Inr fl) refs (zip frags ls)"
      "list_all2 (\<lambda>r fl. fetch_fragment E trust r = Inr fl) refs (zip frags' ls')"
    unfolding composed_def e refs_def by auto
  have "frags' = map fst (zip frags' ls')" using z(2) by simp
  also have "\<dots> = map fst (zip frags ls)" using list_all2_functional [OF z(3,4)] by simp
  also have "\<dots> = frags" using z(1) by simp
  finally show ?thesis using e by simp
qed

lemma effective_source_is_composed:
  assumes "effective_source E trust bs = Some (Inr eff)" "composed E trust bs entry parents frags"
  shows "eff = compose_sources entry parents frags"
  using assms effective_source_composed composed_unique by metis

lemma ancestors_fetched: "ancestors E trust e ps ls \<Longrightarrow> q \<in> set ps \<Longrightarrow> \<exists>n l. fetch_parent E trust n = Inr (q, l)"
  by (induction E trust e ps ls rule: ancestors.induct) auto

lemma composed_parent:
  assumes "composed E trust bs entry parents frags" "q \<in> set parents"
  shows "validate_source q = Inr ()" "\<exists>n k. Trust_check E trust n q = Inr k"
proof -
  from assms obtain n l where "fetch_parent E trust n = Inr (q, l)"
    unfolding composed_def by (blast dest: ancestors_fetched)
  then show "validate_source q = Inr ()" "\<exists>n k. Trust_check E trust n q = Inr k"
    by (auto simp: fetch_parent_def and_then_Inr_iff)
qed

lemma composed_fragment:
  assumes "composed E trust bs entry parents frags" "f \<in> set frags"
  shows "is_additive_only f" "\<exists>n k. Trust_check E trust n f = Inr k"
proof -
  from assms obtain r l where "fetch_fragment E trust r = Inr (f, l)"
    unfolding composed_def list_all2_conv_all_nth in_set_conv_nth by fastforce
  then show "is_additive_only f" "\<exists>n k. Trust_check E trust n f = Inr k"
    by (auto simp: fetch_fragment_Inr_iff)
qed

section \<open>Floors\<close>

text \<open>
  A floor: what a fold keeps of both sides, whatever the identity fields say.  Every floor of an entry, of
  its ancestors and of its fragments is in the effective policy.
\<close>

locale policy_floor =
  fixes fl :: "SourcePolicy \<Rightarrow> 'a set"
  assumes fold_keeps: "fl p \<union> fl c \<subseteq> fl (fst (fold_policy p c))"
    and identity_free:
      "fl (p\<lparr>src_template_base := tb\<rparr>) = fl p" "fl (p\<lparr>src_template_name := tn\<rparr>) = fl p" "fl (p\<lparr>src_name := n\<rparr>) = fl p"
      "fl (p\<lparr>src_include := i\<rparr>) = fl p" "fl (p\<lparr>src_signature := s\<rparr>) = fl p"
begin

lemma fold_step_keeps: "fl (fst a) \<union> fl c \<subseteq> fl (fst (fold_step c a))"
  using fold_keeps [of "fst a" c] by (simp add: fold_step_def case_prod_beta Let_def)

lemma fold_steps_keep: "fl (fst a) \<union> \<Union> (fl ` set cs) \<subseteq> fl (fst (fold fold_step cs a))"
proof (induction cs arbitrary: a)
  case (Cons c cs)
  show ?case using Cons.IH [of "fold_step c a"] fold_step_keeps [of a c] by auto
qed simp

lemma fold_chain_keeps: "q \<in> set parents \<union> {entry} \<Longrightarrow> fl q \<subseteq> fl (fst (fold_chain parents entry))"
proof -
  assume q: "q \<in> set parents \<union> {entry}"
  show ?thesis
  proof (cases "rev parents")
    case Nil
    then show ?thesis using q fold_step_keeps [of "(entry, [])" entry] by (simp add: fold_chain_def)
  next
    case (Cons root rest)
    then have "parents = rev rest @ [root]" by (simp add: rev_eq_Cons_iff)
    then show ?thesis
      using q Cons fold_steps_keep [of "(root, [])" rest] fold_step_keeps [of "fold fold_step rest (root, [])" entry]
      by (auto simp: fold_chain_def)
  qed
qed

lemma fragment_keeps: "fl base \<union> fl f \<subseteq> fl (apply_fragment base f)"
  using fold_keeps [of base f] by (simp add: apply_fragment_def identity_free)

lemma fragments_keep: "fl base \<union> \<Union> (fl ` set frags) \<subseteq> fl (fold (\<lambda>f e. apply_fragment e f) frags base)"
proof (induction frags arbitrary: base)
  case (Cons f frags)
  show ?case using Cons.IH [of "apply_fragment base f"] fragment_keeps [of base f] by auto
qed simp

lemma effective_keeps:
  assumes "q \<in> set parents \<union> {entry} \<union> set frags"
  shows "fl q \<subseteq> fl (compose_sources entry parents frags)"
  using assms fold_chain_keeps [of q parents entry]
    fragments_keep [of "(fst (fold_chain parents entry))\<lparr>src_template_base := None, src_template_name := src_template_name entry,
      src_name := src_name entry, src_signature := None\<rparr>" frags]
  by (auto simp: compose_sources_def identity_free)

end

definition exec_denies :: "SourcePolicy \<Rightarrow> string set" where
  "exec_denies p = set (opt_list (Option.bind (src_exec p) xs_deny) id)"

definition env_denies :: "SourcePolicy \<Rightarrow> string set" where
  "env_denies p = set (opt_list (Option.bind (src_env p) es_deny) id)"

definition seccomp_denies :: "SourcePolicy \<Rightarrow> string set" where
  "seccomp_denies p = set (opt_list (Option.bind (src_seccomp p) scs_deny) id)"

definition family_denies :: "SourcePolicy \<Rightarrow> string set" where
  "family_denies p = set (opt_list (Option.bind (Option.bind (src_net p) ns_bpf) nb_deny_families) id)"

definition invariant_cidrs :: "SourcePolicy \<Rightarrow> string set" where
  "invariant_cidrs p = nd_cidr ` set (invariant_denies p)"

lemma set_push_new [simp]: "set (push_new base xs) = set base \<union> set xs"
proof -
  have "set (fold (\<lambda>x acc. if x \<in> set acc then acc else acc @ [x]) xs base) = set base \<union> set xs"
    by (induction xs arbitrary: base) auto
  then show ?thesis by (simp add: push_new_def)
qed

lemma keys_push_new_by [simp]: "key ` set (push_new_by key base xs) = key ` set base \<union> key ` set xs"
proof -
  have "key ` set (fold (\<lambda>x acc. if key x \<in> key ` set acc then acc else acc @ [x]) xs base) = key ` set base \<union> key ` set xs"
    by (induction xs arbitrary: base) auto
  then show ?thesis by (simp add: push_new_by_def)
qed

lemma union_names_floor: "set (opt_list (union_names p c) id) = set (opt_list p id) \<union> set (opt_list c id)"
  by (cases p; cases c) (simp_all add: union_names_def opt_list_def unwrap_or_def)

lemma fold_policy_sections:
  "src_exec (fst (fold_policy p c)) = fst (merge_warned (src_exec p) (src_exec c) fold_exec)"
  "src_fs (fst (fold_policy p c)) = fst (merge_warned (src_fs p) (src_fs c) fold_fs)"
  "src_net (fst (fold_policy p c)) = fst (merge_warned (src_net p) (src_net c) fold_net)"
  "src_unix (fst (fold_policy p c)) = fst (merge_warned (src_unix p) (src_unix c) fold_unix)"
  "src_ssh (fst (fold_policy p c)) = fst (merge_warned (src_ssh p) (src_ssh c) fold_ssh)"
  "src_identity (fst (fold_policy p c)) = fst (merge_warned (src_identity p) (src_identity c) fold_identity)"
  "src_provides (fst (fold_policy p c)) = (if src_provides c = [] then src_provides p else src_provides c)"
  "src_consumes (fst (fold_policy p c)) = fst (fold_listfield (src_consumes c) (src_consumes p) consumes_key ''consumes'')"
  "src_audit (fst (fold_policy p c)) = fst (merge_warned (src_audit p) (src_audit c) fold_audit)"
  "src_spawn (fst (fold_policy p c)) = fst (merge_warned (src_spawn p) (src_spawn c) fold_spawn)"
  "src_mutable (fst (fold_policy p c)) = (if src_mutable c = [] then src_mutable p else src_mutable c)"
  "src_env (fst (fold_policy p c)) = merge (src_env p) (src_env c) fold_env"
  "src_seccomp (fst (fold_policy p c)) = merge (src_seccomp p) (src_seccomp c) fold_seccomp"
  "src_cap (fst (fold_policy p c)) = merge (src_cap p) (src_cap c) fold_cap"
  "src_service (fst (fold_policy p c)) = merge (src_service p) (src_service c) fold_service"
  "src_unsafe (fst (fold_policy p c)) = merge (src_unsafe p) (src_unsafe c) fold_unsafe"
  "src_lifecycle (fst (fold_policy p c)) = merge (src_lifecycle p) (src_lifecycle c) fold_lifecycle"
  "src_ulimits (fst (fold_policy p c)) = merge (src_ulimits p) (src_ulimits c) fold_ulimits"
  "src_workload (fst (fold_policy p c)) = merge (src_workload p) (src_workload c) fold_workload"
  "src_tty (fst (fold_policy p c)) = merge (src_tty p) (src_tty c) fold_tty"
  "src_trust (fst (fold_policy p c)) = merge (src_trust p) (src_trust c) fold_trust"
  "src_dbus (fst (fold_policy p c)) = merge (src_dbus p) (src_dbus c) fold_dbus"
  "src_rootfs (fst (fold_policy p c)) = merge (src_rootfs p) (src_rootfs c) fold_rootfs"
  by (simp_all add: fold_policy_def case_prod_beta Let_def replace_list_def)

lemma merge_cases:
  "merge None y f = y" "merge x None f = x" "merge (Some a) (Some b) f = Some (f a b)"
  "fst (merge_warned None y g) = y" "fst (merge_warned x None g) = x"
  "fst (merge_warned (Some a) (Some b) g) = Some (fst (g a b))"
  by (cases y; cases x; simp add: merge_def merge_warned_def case_prod_beta)+

lemma fold_net_bpf_sel: "ns_bpf (fst (fold_net p c)) = fst (merge_warned (ns_bpf p) (ns_bpf c) fold_net_bpf)"
  and fold_net_proxy_sel: "ns_proxy (fst (fold_net p c)) = fst (merge_warned (ns_proxy p) (ns_proxy c) fold_net_proxy)"
  and fold_net_udp_sel: "ns_udp (fst (fold_net p c)) = fst (merge_warned (ns_udp p) (ns_udp c) fold_net_udp)"
  by (simp_all add: fold_net_def case_prod_beta Let_def)

interpretation exec_floor: policy_floor exec_denies
proof
  fix p c
  show "exec_denies p \<union> exec_denies c \<subseteq> exec_denies (fst (fold_policy p c))"
    unfolding exec_denies_def fold_policy_sections
    by (cases "src_exec p"; cases "src_exec c")
      (simp_all add: merge_cases fold_exec_def case_prod_beta union_names_floor opt_list_def [of None])
qed (simp_all add: exec_denies_def)

interpretation env_floor: policy_floor env_denies
proof
  fix p c
  show "env_denies p \<union> env_denies c \<subseteq> env_denies (fst (fold_policy p c))"
    unfolding env_denies_def fold_policy_sections
    by (cases "src_env p"; cases "src_env c")
      (simp_all add: merge_cases fold_env_def union_names_floor opt_list_def [of None])
qed (simp_all add: env_denies_def)

interpretation seccomp_floor: policy_floor seccomp_denies
proof
  fix p c
  show "seccomp_denies p \<union> seccomp_denies c \<subseteq> seccomp_denies (fst (fold_policy p c))"
    unfolding seccomp_denies_def fold_policy_sections
    by (cases "src_seccomp p"; cases "src_seccomp c")
      (simp_all add: merge_cases fold_seccomp_def union_names_floor opt_list_def [of None])
qed (simp_all add: seccomp_denies_def)

lemma net_bpf_fold:
  "Option.bind (src_net (fst (fold_policy p c))) ns_bpf
     = fst (merge_warned (Option.bind (src_net p) ns_bpf) (Option.bind (src_net c) ns_bpf) fold_net_bpf)"
  unfolding fold_policy_sections
  by (cases "src_net p"; cases "src_net c") (simp_all add: merge_cases fold_net_bpf_sel)

lemma net_proxy_fold:
  "Option.bind (src_net (fst (fold_policy p c))) ns_proxy
     = fst (merge_warned (Option.bind (src_net p) ns_proxy) (Option.bind (src_net c) ns_proxy) fold_net_proxy)"
  unfolding fold_policy_sections
  by (cases "src_net p"; cases "src_net c") (simp_all add: merge_cases fold_net_proxy_sel)

interpretation family_floor: policy_floor family_denies
proof
  fix p c
  show "family_denies p \<union> family_denies c \<subseteq> family_denies (fst (fold_policy p c))"
    unfolding family_denies_def net_bpf_fold
    by (cases "Option.bind (src_net p) ns_bpf"; cases "Option.bind (src_net c) ns_bpf")
      (simp_all add: merge_cases fold_net_bpf_def case_prod_beta Let_def union_names_floor opt_list_def [of None])
qed (simp_all add: family_denies_def)

lemma proxy_deny_fold:
  "Option.bind (Option.bind (src_net (fst (fold_policy p c))) ns_proxy) npx_deny
     = fst (merge_warned (Option.bind (Option.bind (src_net p) ns_proxy) npx_deny)
         (Option.bind (Option.bind (src_net c) ns_proxy) npx_deny) fold_net_proxy_deny)"
  unfolding net_proxy_fold
  by (cases "Option.bind (src_net p) ns_proxy"; cases "Option.bind (src_net c) ns_proxy")
    (simp_all add: merge_cases fold_net_proxy_def case_prod_beta Let_def)

lemma invariant_denies_fold:
  "nd_cidr ` set (invariant_denies p) \<union> nd_cidr ` set (invariant_denies c)
     \<subseteq> nd_cidr ` set (invariant_denies (fst (fold_policy p c)))"
  unfolding invariant_denies_def proxy_deny_fold
  by (cases "Option.bind (Option.bind (src_net p) ns_proxy) npx_deny";
      cases "Option.bind (Option.bind (src_net c) ns_proxy) npx_deny")
    (simp_all add: merge_cases fold_net_proxy_deny_def case_prod_beta Let_def)

interpretation invariant_floor: policy_floor invariant_cidrs
proof
  fix p c
  show "invariant_cidrs p \<union> invariant_cidrs c \<subseteq> invariant_cidrs (fst (fold_policy p c))"
    using invariant_denies_fold [of p c] by (simp add: invariant_cidrs_def)
qed (simp_all add: invariant_cidrs_def invariant_denies_def)

end
