(* ===== verification/Source_Effective.thy ===== *)
theory Source_Effective
  imports Source_Resolve
begin

text \<open>
  What the effective policy of a compile is: the type of its list fields, what an included fragment can and
  cannot change, and the properties of the whole composition from the entry's bytes to the effective policy.
\<close>

section \<open>Concrete list fields\<close>

text \<open>
  A fold with a notion of concrete value and of increments that apply: folding an increment that applies onto
  a concrete value gives a concrete value.  The law lifts to optional sections.
\<close>

locale section_fold =
  fixes f :: "'a \<Rightarrow> 'a \<Rightarrow> 'a" and conc :: "'a \<Rightarrow> bool" and cov :: "'a \<Rightarrow> 'a \<Rightarrow> bool"
  assumes conc_fold: "conc p \<Longrightarrow> cov p c \<Longrightarrow> conc (f p c)"
    and cov_fold: "cov p q \<Longrightarrow> cov p c \<Longrightarrow> cov (f p c) q"
    and conc_cov: "conc q \<Longrightarrow> cov p q"
begin

lemma conc_folds:
  "conc a \<Longrightarrow> \<forall>c \<in> set cs. cov a c \<Longrightarrow>
   conc (fold (\<lambda>c a. f a c) cs a) \<and> (\<forall>q. cov a q \<longrightarrow> cov (fold (\<lambda>c a. f a c) cs a) q)"
  by (induction cs arbitrary: a) (auto intro: conc_fold cov_fold)

end

fun opt_covers :: "('a \<Rightarrow> bool) \<Rightarrow> ('a \<Rightarrow> 'a \<Rightarrow> bool) \<Rightarrow> 'a option \<Rightarrow> 'a option \<Rightarrow> bool" where
  "opt_covers conc cov p None \<longleftrightarrow> True"
| "opt_covers conc cov None (Some c) \<longleftrightarrow> conc c"
| "opt_covers conc cov (Some p) (Some c) \<longleftrightarrow> cov p c"

context section_fold
begin

lemma lift: "section_fold (\<lambda>p c. merge p c f) (\<lambda>x. none_or x conc) (opt_covers conc cov)"
proof
  fix p c q :: "'a option"
  show "none_or p conc \<Longrightarrow> opt_covers conc cov p c \<Longrightarrow> none_or (merge p c f) conc"
    by (cases p; cases c) (auto simp: none_or_def merge_cases intro: conc_fold)
  show "opt_covers conc cov p q \<Longrightarrow> opt_covers conc cov p c \<Longrightarrow> opt_covers conc cov (merge p c f) q"
    by (cases p; cases c; cases q) (auto simp: merge_cases intro: cov_fold conc_cov)
  show "none_or q conc \<Longrightarrow> opt_covers conc cov p q"
    by (cases p; cases q) (auto simp: none_or_def intro: conc_cov)
qed

end

lemma fst_merge_warned: "fst (merge_warned p c g) = merge p c (\<lambda>a b. fst (g a b))"
  by (cases p; cases c) (simp_all add: merge_cases)

fun list_is_set :: "'a ListField \<Rightarrow> bool" where
  "list_is_set (ListSet v) \<longleftrightarrow> True"
| "list_is_set (ListDelta d) \<longleftrightarrow> False"

fun path_is_set :: "PathField \<Rightarrow> bool" where
  "path_is_set (PathSet v) \<longleftrightarrow> True"
| "path_is_set (PathDelta d) \<longleftrightarrow> False"

fun group_is_set :: "GroupField \<Rightarrow> bool" where
  "group_is_set (GroupSet v) \<longleftrightarrow> True"
| "group_is_set (GroupDelta d) \<longleftrightarrow> False"

lemma fold_listfield_is_set: "list_is_set p \<Longrightarrow> list_is_set (fst (fold_listfield c p key fld))"
  by (cases c; cases p) (simp_all add: fold_listfield_def)

lemma fold_pathfield_is_set: "none_or p path_is_set \<Longrightarrow> none_or (fst (fold_pathfield c p fld)) path_is_set"
  by (cases c) (auto simp: fold_pathfield_def none_or_def Let_def split: option.splits PathField.splits)

lemma fold_groupfield_is_set: "group_is_set p \<Longrightarrow> group_is_set (fst (fold_groupfield c p))"
  by (cases c; cases p) (simp_all add: fold_groupfield_def)

lemmas fold_field_is_set = fold_listfield_is_set fold_pathfield_is_set fold_groupfield_is_set

definition exec_concrete :: "ExecSection \<Rightarrow> bool" where "exec_concrete x \<longleftrightarrow> none_or (xs_allow x) path_is_set"
definition dev_concrete :: "FsDev \<Rightarrow> bool" where "dev_concrete d \<longleftrightarrow> list_is_set (fd_passthrough d)"
definition proxy_deny_concrete :: "NetProxyDeny \<Rightarrow> bool" where "proxy_deny_concrete d \<longleftrightarrow> list_is_set (npd_policy d)"
definition acl_concrete :: "NetBpfAcl \<Rightarrow> bool" where "acl_concrete a \<longleftrightarrow> list_is_set (nba_allow a) \<and> list_is_set (nba_deny a)"
definition udp_concrete :: "NetUdp \<Rightarrow> bool" where "udp_concrete u \<longleftrightarrow> list_is_set (nu_allow u)"
definition unix_concrete :: "UnixSection \<Rightarrow> bool" where "unix_concrete u \<longleftrightarrow> list_is_set (us_allow u)"
definition ssh_concrete :: "SshSection \<Rightarrow> bool" where "ssh_concrete s \<longleftrightarrow> list_is_set (shs_destinations s)"
definition identity_concrete :: "IdentitySection \<Rightarrow> bool" where "identity_concrete i \<longleftrightarrow> group_is_set (ids_groups i)"
definition spawn_concrete :: "SpawnSection \<Rightarrow> bool" where "spawn_concrete s \<longleftrightarrow> list_is_set (ss_allow s)"

text \<open>A section whose only parts are list fields: every increment applies.\<close>

definition always :: "'a \<Rightarrow> 'a \<Rightarrow> bool" where "always p c \<longleftrightarrow> True"

interpretation exec_sec: section_fold "\<lambda>p c. fst (fold_exec p c)" exec_concrete always
  by unfold_locales (simp_all add: always_def exec_concrete_def fold_exec_def case_prod_beta fold_field_is_set)

interpretation dev_sec: section_fold "\<lambda>p c. fst (fold_fs_dev p c)" dev_concrete always
  by unfold_locales (simp_all add: always_def dev_concrete_def fold_fs_dev_def case_prod_beta fold_field_is_set)

interpretation proxy_deny_sec: section_fold "\<lambda>p c. fst (fold_net_proxy_deny p c)" proxy_deny_concrete always
  by unfold_locales (simp_all add: always_def proxy_deny_concrete_def fold_net_proxy_deny_def case_prod_beta Let_def fold_field_is_set)

interpretation acl_sec: section_fold "\<lambda>p c. fst (fold_net_bpf_acl dir p c)" acl_concrete always for dir
  by unfold_locales (simp_all add: always_def acl_concrete_def fold_net_bpf_acl_def case_prod_beta Let_def fold_field_is_set)

interpretation udp_sec: section_fold "\<lambda>p c. fst (fold_net_udp p c)" udp_concrete always
  by unfold_locales (simp_all add: always_def udp_concrete_def fold_net_udp_def case_prod_beta fold_field_is_set)

interpretation unix_sec: section_fold "\<lambda>p c. fst (fold_unix p c)" unix_concrete always
  by unfold_locales (simp_all add: always_def unix_concrete_def fold_unix_def case_prod_beta fold_field_is_set)

interpretation ssh_sec: section_fold "\<lambda>p c. fst (fold_ssh p c)" ssh_concrete always
  by unfold_locales (simp_all add: always_def ssh_concrete_def fold_ssh_def case_prod_beta fold_field_is_set)

interpretation identity_sec: section_fold "\<lambda>p c. fst (fold_identity p c)" identity_concrete always
  by unfold_locales (simp_all add: always_def identity_concrete_def fold_identity_def case_prod_beta fold_field_is_set)

interpretation spawn_sec: section_fold "\<lambda>p c. fst (fold_spawn p c)" spawn_concrete always
  by unfold_locales (simp_all add: always_def spawn_concrete_def fold_spawn_def case_prod_beta fold_field_is_set)

definition fs_concrete :: "FsSection \<Rightarrow> bool" where
  "fs_concrete s \<longleftrightarrow> none_or (fss_read s) path_is_set \<and> none_or (fss_write s) path_is_set \<and> none_or (fss_deny s) path_is_set
     \<and> none_or (fss_dev s) dev_concrete"

definition fs_covers :: "FsSection \<Rightarrow> FsSection \<Rightarrow> bool" where
  "fs_covers p c \<longleftrightarrow> opt_covers dev_concrete always (fss_dev p) (fss_dev c)"

definition proxy_concrete :: "NetProxy \<Rightarrow> bool" where
  "proxy_concrete x \<longleftrightarrow> list_is_set (npx_allow x) \<and> none_or (npx_deny x) proxy_deny_concrete"

definition proxy_covers :: "NetProxy \<Rightarrow> NetProxy \<Rightarrow> bool" where
  "proxy_covers p c \<longleftrightarrow> opt_covers proxy_deny_concrete always (npx_deny p) (npx_deny c)"

definition bpf_concrete :: "NetBpf \<Rightarrow> bool" where
  "bpf_concrete b \<longleftrightarrow> none_or (nb_connect b) acl_concrete \<and> none_or (nb_bind b) acl_concrete"

definition bpf_covers :: "NetBpf \<Rightarrow> NetBpf \<Rightarrow> bool" where
  "bpf_covers p c \<longleftrightarrow> opt_covers acl_concrete always (nb_connect p) (nb_connect c) \<and> opt_covers acl_concrete always (nb_bind p) (nb_bind c)"

interpretation dev_opt: section_fold "\<lambda>p c. merge p c (\<lambda>a b. fst (fold_fs_dev a b))" "\<lambda>x. none_or x dev_concrete"
    "opt_covers dev_concrete always"
  by (rule dev_sec.lift)

interpretation proxy_deny_opt: section_fold "\<lambda>p c. merge p c (\<lambda>a b. fst (fold_net_proxy_deny a b))"
    "\<lambda>x. none_or x proxy_deny_concrete" "opt_covers proxy_deny_concrete always"
  by (rule proxy_deny_sec.lift)

interpretation acl_opt: section_fold "\<lambda>p c. merge p c (\<lambda>a b. fst (fold_net_bpf_acl dir a b))" "\<lambda>x. none_or x acl_concrete"
    "opt_covers acl_concrete always" for dir
  by (rule acl_sec.lift)

interpretation fs_sec: section_fold "\<lambda>p c. fst (fold_fs p c)" fs_concrete fs_covers
  by unfold_locales (simp_all add: fs_concrete_def fs_covers_def fold_fs_def case_prod_beta Let_def fst_merge_warned
      fold_field_is_set dev_opt.conc_fold dev_opt.cov_fold dev_opt.conc_cov)

interpretation proxy_sec: section_fold "\<lambda>p c. fst (fold_net_proxy p c)" proxy_concrete proxy_covers
  by unfold_locales (simp_all add: proxy_concrete_def proxy_covers_def fold_net_proxy_def case_prod_beta Let_def fst_merge_warned
      fold_field_is_set proxy_deny_opt.conc_fold proxy_deny_opt.cov_fold proxy_deny_opt.conc_cov)

interpretation bpf_sec: section_fold "\<lambda>p c. fst (fold_net_bpf p c)" bpf_concrete bpf_covers
  by unfold_locales (simp_all add: bpf_concrete_def bpf_covers_def fold_net_bpf_def case_prod_beta Let_def fst_merge_warned
      acl_opt.conc_fold acl_opt.cov_fold acl_opt.conc_cov)

definition net_concrete :: "NetSection \<Rightarrow> bool" where
  "net_concrete n \<longleftrightarrow> none_or (ns_proxy n) proxy_concrete \<and> none_or (ns_bpf n) bpf_concrete \<and> none_or (ns_udp n) udp_concrete"

definition net_covers :: "NetSection \<Rightarrow> NetSection \<Rightarrow> bool" where
  "net_covers p c \<longleftrightarrow> opt_covers proxy_concrete proxy_covers (ns_proxy p) (ns_proxy c)
     \<and> opt_covers bpf_concrete bpf_covers (ns_bpf p) (ns_bpf c) \<and> opt_covers udp_concrete always (ns_udp p) (ns_udp c)"

interpretation proxy_opt: section_fold "\<lambda>p c. merge p c (\<lambda>a b. fst (fold_net_proxy a b))" "\<lambda>x. none_or x proxy_concrete"
    "opt_covers proxy_concrete proxy_covers"
  by (rule proxy_sec.lift)

interpretation bpf_opt: section_fold "\<lambda>p c. merge p c (\<lambda>a b. fst (fold_net_bpf a b))" "\<lambda>x. none_or x bpf_concrete"
    "opt_covers bpf_concrete bpf_covers"
  by (rule bpf_sec.lift)

interpretation udp_opt: section_fold "\<lambda>p c. merge p c (\<lambda>a b. fst (fold_net_udp a b))" "\<lambda>x. none_or x udp_concrete"
    "opt_covers udp_concrete always"
  by (rule udp_sec.lift)

interpretation net_sec: section_fold "\<lambda>p c. fst (fold_net p c)" net_concrete net_covers
  by unfold_locales (simp_all add: net_concrete_def net_covers_def fold_net_proxy_sel fold_net_bpf_sel fold_net_udp_sel fst_merge_warned
      proxy_opt.conc_fold proxy_opt.cov_fold proxy_opt.conc_cov bpf_opt.conc_fold bpf_opt.cov_fold bpf_opt.conc_cov
      udp_opt.conc_fold udp_opt.cov_fold udp_opt.conc_cov)

interpretation exec_opt: section_fold "\<lambda>p c. merge p c (\<lambda>a b. fst (fold_exec a b))" "\<lambda>x. none_or x exec_concrete"
    "opt_covers exec_concrete always"
  by (rule exec_sec.lift)

interpretation fs_opt: section_fold "\<lambda>p c. merge p c (\<lambda>a b. fst (fold_fs a b))" "\<lambda>x. none_or x fs_concrete"
    "opt_covers fs_concrete fs_covers"
  by (rule fs_sec.lift)

interpretation net_opt: section_fold "\<lambda>p c. merge p c (\<lambda>a b. fst (fold_net a b))" "\<lambda>x. none_or x net_concrete"
    "opt_covers net_concrete net_covers"
  by (rule net_sec.lift)

interpretation unix_opt: section_fold "\<lambda>p c. merge p c (\<lambda>a b. fst (fold_unix a b))" "\<lambda>x. none_or x unix_concrete"
    "opt_covers unix_concrete always"
  by (rule unix_sec.lift)

interpretation ssh_opt: section_fold "\<lambda>p c. merge p c (\<lambda>a b. fst (fold_ssh a b))" "\<lambda>x. none_or x ssh_concrete"
    "opt_covers ssh_concrete always"
  by (rule ssh_sec.lift)

interpretation identity_opt: section_fold "\<lambda>p c. merge p c (\<lambda>a b. fst (fold_identity a b))" "\<lambda>x. none_or x identity_concrete"
    "opt_covers identity_concrete always"
  by (rule identity_sec.lift)

interpretation spawn_opt: section_fold "\<lambda>p c. merge p c (\<lambda>a b. fst (fold_spawn a b))" "\<lambda>x. none_or x spawn_concrete"
    "opt_covers spawn_concrete always"
  by (rule spawn_sec.lift)

text \<open>A policy all of whose list fields are lists.\<close>

definition policy_concrete :: "SourcePolicy \<Rightarrow> bool" where
  "policy_concrete p \<longleftrightarrow> none_or (src_exec p) exec_concrete \<and> none_or (src_fs p) fs_concrete \<and> none_or (src_net p) net_concrete
     \<and> none_or (src_unix p) unix_concrete \<and> none_or (src_ssh p) ssh_concrete \<and> none_or (src_identity p) identity_concrete
     \<and> none_or (src_spawn p) spawn_concrete \<and> list_is_set (src_consumes p)"

text \<open>Each section the child increments is one the parent declares, or one the child states in full.\<close>

definition policy_covers :: "SourcePolicy \<Rightarrow> SourcePolicy \<Rightarrow> bool" where
  "policy_covers p c \<longleftrightarrow>
     opt_covers exec_concrete always (src_exec p) (src_exec c) \<and> opt_covers fs_concrete fs_covers (src_fs p) (src_fs c)
     \<and> opt_covers net_concrete net_covers (src_net p) (src_net c) \<and> opt_covers unix_concrete always (src_unix p) (src_unix c)
     \<and> opt_covers ssh_concrete always (src_ssh p) (src_ssh c)
     \<and> opt_covers identity_concrete always (src_identity p) (src_identity c)
     \<and> opt_covers spawn_concrete always (src_spawn p) (src_spawn c)"

lemmas section_laws =
  exec_opt.conc_fold fs_opt.conc_fold net_opt.conc_fold unix_opt.conc_fold ssh_opt.conc_fold identity_opt.conc_fold
  spawn_opt.conc_fold exec_opt.cov_fold fs_opt.cov_fold net_opt.cov_fold unix_opt.cov_fold ssh_opt.cov_fold
  identity_opt.cov_fold spawn_opt.cov_fold exec_opt.conc_cov fs_opt.conc_cov net_opt.conc_cov unix_opt.conc_cov
  ssh_opt.conc_cov identity_opt.conc_cov spawn_opt.conc_cov

interpretation policy_sec: section_fold "\<lambda>p c. fst (fold_policy p c)" policy_concrete policy_covers
  by unfold_locales (simp_all add: policy_concrete_def policy_covers_def fold_policy_sections fst_merge_warned section_laws
      fold_field_is_set)

lemma policy_concrete_identity_free [simp]:
  "policy_concrete (p\<lparr>src_template_base := tb\<rparr>) = policy_concrete p" "policy_concrete (p\<lparr>src_template_name := tn\<rparr>) = policy_concrete p"
  "policy_concrete (p\<lparr>src_name := n\<rparr>) = policy_concrete p" "policy_concrete (p\<lparr>src_include := i\<rparr>) = policy_concrete p"
  "policy_concrete (p\<lparr>src_signature := s\<rparr>) = policy_concrete p"
  by (simp_all add: policy_concrete_def)

lemma policy_covers_identity_free [simp]:
  "policy_covers (p\<lparr>src_template_base := tb\<rparr>) = policy_covers p" "policy_covers (p\<lparr>src_template_name := tn\<rparr>) = policy_covers p"
  "policy_covers (p\<lparr>src_name := n\<rparr>) = policy_covers p" "policy_covers (p\<lparr>src_include := i\<rparr>) = policy_covers p"
  "policy_covers (p\<lparr>src_signature := s\<rparr>) = policy_covers p"
  by (simp_all add: policy_covers_def fun_eq_iff)

text \<open>The artefact the fold starts from.\<close>

definition chain_root :: "SourcePolicy \<Rightarrow> SourcePolicy list \<Rightarrow> SourcePolicy" where
  "chain_root entry parents = (case rev parents of [] \<Rightarrow> entry | root # _ \<Rightarrow> root)"

lemma fst_fold_step: "fst (fold_step c a) = fst (fold_policy (fst a) c)"
  by (simp add: fold_step_def case_prod_beta Let_def)

lemma fst_fold_steps: "fst (fold fold_step cs a) = fold (\<lambda>c p. fst (fold_policy p c)) cs (fst a)"
  by (induction cs arbitrary: a) (simp_all add: fst_fold_step)

lemma fst_fold_chain:
  "fst (fold_chain parents entry) = fold (\<lambda>c p. fst (fold_policy p c)) (tl (rev parents) @ [entry]) (chain_root entry parents)"
  by (cases "rev parents") (simp_all add: fold_chain_def chain_root_def fst_fold_steps fst_fold_step)

lemma fragment_concrete:
  assumes "policy_concrete e" "policy_covers e f"
  shows "policy_concrete (apply_fragment e f)" "policy_covers e q \<Longrightarrow> policy_covers (apply_fragment e f) q"
  using policy_sec.conc_fold [OF assms] policy_sec.cov_fold [OF _ assms(2), of q] by (simp_all add: apply_fragment_def)

lemma fragments_concrete:
  "policy_concrete e \<Longrightarrow> \<forall>f \<in> set frags. policy_covers e f \<Longrightarrow> policy_concrete (fold (\<lambda>f e. apply_fragment e f) frags e)"
  by (induction frags arbitrary: e) (simp_all add: fragment_concrete)

lemma compose_concrete:
  assumes root: "policy_concrete (chain_root entry parents)"
    and cov: "\<forall>q \<in> set parents \<union> {entry} \<union> set frags. policy_covers (chain_root entry parents) q"
  shows "policy_concrete (compose_sources entry parents frags)"
proof -
  have "\<forall>c \<in> set (tl (rev parents) @ [entry]). policy_covers (chain_root entry parents) c"
    using cov list.set_sel(2) [of "rev parents"] by (cases "rev parents") auto
  from policy_sec.conc_folds [OF root this] cov show ?thesis
    unfolding compose_sources_def fst_fold_chain by (intro fragments_concrete) simp_all
qed

section \<open>The bus\<close>

text \<open>A ceiling: what a fold gives of it comes from one of the two sides.\<close>

locale policy_ceiling =
  fixes up :: "SourcePolicy \<Rightarrow> 'a set"
  assumes fold_bounded: "up (fst (fold_policy p c)) \<subseteq> up p \<union> up c"
    and identity_free:
      "up (p\<lparr>src_template_base := tb\<rparr>) = up p" "up (p\<lparr>src_template_name := tn\<rparr>) = up p" "up (p\<lparr>src_name := n\<rparr>) = up p"
      "up (p\<lparr>src_include := i\<rparr>) = up p" "up (p\<lparr>src_signature := s\<rparr>) = up p"
begin

lemma folds_bounded: "up (fold (\<lambda>c p. fst (fold_policy p c)) cs a) \<subseteq> up a \<union> \<Union> (up ` set cs)"
proof (induction cs arbitrary: a)
  case (Cons c cs)
  show ?case using Cons.IH [of "fst (fold_policy a c)"] fold_bounded [of a c] by auto
qed simp

lemma fragments_bounded: "up (fold (\<lambda>f e. apply_fragment e f) frags e) \<subseteq> up e \<union> \<Union> (up ` set frags)"
proof (induction frags arbitrary: e)
  case (Cons f frags)
  have "up (apply_fragment e f) \<subseteq> up e \<union> up f"
    using fold_bounded [of e f] by (simp add: apply_fragment_def identity_free)
  with Cons.IH [of "apply_fragment e f"] show ?case by auto
qed simp

lemma compose_bounded: "up (compose_sources entry parents frags) \<subseteq> up entry \<union> \<Union> (up ` set parents) \<union> \<Union> (up ` set frags)"
proof -
  have "up (chain_root entry parents) \<union> \<Union> (up ` set (tl (rev parents) @ [entry])) \<subseteq> up entry \<union> \<Union> (up ` set parents)"
  proof (cases "rev parents")
    case Nil
    then show ?thesis by (simp add: chain_root_def)
  next
    case (Cons root rest)
    then have "set parents = insert root (set rest)" by (metis list.set(2) set_rev)
    with Cons show ?thesis by (auto simp: chain_root_def)
  qed
  with folds_bounded [of "tl (rev parents) @ [entry]" "chain_root entry parents"]
  have "up (fst (fold_chain parents entry)) \<subseteq> up entry \<union> \<Union> (up ` set parents)"
    unfolding fst_fold_chain by (rule order_trans)
  then show ?thesis
    using fragments_bounded [of frags "(fst (fold_chain parents entry))\<lparr>src_template_base := None,
        src_template_name := src_template_name entry, src_name := src_name entry, src_signature := None\<rparr>"]
    unfolding compose_sources_def identity_free by blast
qed

end

definition bus_rules :: "DbusBus option \<Rightarrow> string set" where
  "bus_rules bus = set (opt_list (Option.bind bus dbb_allow) (\<lambda>a. dbr_talk a @ dbr_call a @ dbr_broadcast a @ dbr_own a))"

definition dbus_allows :: "SourcePolicy \<Rightarrow> string set" where
  "dbus_allows p = (case src_dbus p of None \<Rightarrow> {} | Some d \<Rightarrow> bus_rules (dbs_session d) \<union> bus_rules (dbs_system d))"

lemma bus_rules_fold: "bus_rules (fold_dbus_bus p c) \<subseteq> bus_rules p \<union> bus_rules c"
proof (cases "p = None \<or> c = None")
  case True
  then show ?thesis by (cases p; cases c) (auto simp: fold_dbus_bus_def)
next
  case False
  then obtain a b where ab: "p = Some a" "c = Some b" by auto
  show ?thesis unfolding ab
    by (cases "dbb_allow a"; cases "dbb_allow b")
      (auto simp: bus_rules_def fold_dbus_bus_def union_dbus_rules_def opt_list_def)
qed

interpretation dbus_ceiling: policy_ceiling dbus_allows
proof
  fix p c
  show "dbus_allows (fst (fold_policy p c)) \<subseteq> dbus_allows p \<union> dbus_allows c"
  proof (cases "src_dbus p"; cases "src_dbus c")
    fix a b assume "src_dbus p = Some a" "src_dbus c = Some b"
    then show ?thesis
      using bus_rules_fold [of "dbs_session a" "dbs_session b"] bus_rules_fold [of "dbs_system a" "dbs_system b"]
      by (auto simp: dbus_allows_def fold_policy_sections merge_cases fold_dbus_def)
  qed (simp_all add: dbus_allows_def fold_policy_sections merge_cases)
qed (simp_all add: dbus_allows_def)

lemma check_dbus_allows:
  "check_dbus p = [] \<longleftrightarrow> (\<forall>e \<in> dbus_allows p. \<forall>r \<in> set DBUS_REFUSE_TO_BROKER. \<not> dbus_pattern_admits (dbus_destination e) r)"
proof -
  have "check_bus n bus = [] \<longleftrightarrow> (\<forall>e \<in> bus_rules bus. \<forall>r \<in> set DBUS_REFUSE_TO_BROKER. \<not> dbus_pattern_admits (dbus_destination e) r)"
    for n bus
    unfolding check_bus_Nil_iff bus_rules_def by (cases "Option.bind bus dbb_allow") (simp_all add: none_or_def opt_list_def)
  then show ?thesis
    by (cases "src_dbus p") (auto simp: check_dbus_def opt_list_def dbus_allows_def)
qed

section \<open>What a fragment can change\<close>

definition fs_paths :: "(FsSection \<Rightarrow> PathField option) \<Rightarrow> SourcePolicy \<Rightarrow> string set" where
  "fs_paths sel p = set (opt_list (Option.bind (src_fs p) sel) path_resolved)"

definition proxy_denies :: "SourcePolicy \<Rightarrow> NetDenyRule set" where
  "proxy_denies p = set (opt_list (Option.bind (Option.bind (src_net p) ns_proxy) npx_deny) (\<lambda>d. list_resolved (npd_policy d)))"

definition bpf_denies :: "(NetBpf \<Rightarrow> NetBpfAcl option) \<Rightarrow> SourcePolicy \<Rightarrow> BpfRule set" where
  "bpf_denies dir p = set (opt_list (Option.bind (Option.bind (src_net p) ns_bpf) dir) (\<lambda>a. list_resolved (nba_deny a)))"

definition udp_allows :: "SourcePolicy \<Rightarrow> NetAllow list" where
  "udp_allows p = opt_list (Option.bind (src_net p) ns_udp) (\<lambda>u. list_resolved (nu_allow u))"

text \<open>The sections a fragment must leave alone, and the settings inside those it may extend.\<close>

definition fixed_sections where
  "fixed_sections p = (src_cap p, src_identity p, src_provides p, src_service p, src_unsafe p, src_env p, src_seccomp p,
     src_lifecycle p, src_audit p, src_ulimits p, src_workload p, src_tty p, src_trust p, src_dbus p, src_rootfs p,
     src_spawn p, src_mutable p)"

definition exec_settings where
  "exec_settings p = (let s = (\<lambda>f. Option.bind (src_exec p) f) in
     (s xs_deny_setuid, s xs_deny_setgid, s xs_deny_setcap, s xs_deny_writable, Option.bind (src_exec p) xs_path,
      Option.bind (src_exec p) xs_shell, exec_denies p))"

definition net_settings where
  "net_settings p = (Option.bind (src_net p) ns_mode, Option.bind (src_net p) ns_proxy_listen_address,
     Option.bind (src_net p) ns_bind, Option.bind (src_net p) ns_ipv6, Option.bind (src_net p) ns_audit,
     Option.bind (Option.bind (src_net p) ns_bpf) nb_families, family_denies p)"

definition fs_settings where
  "fs_settings p = (Option.bind (src_fs p) fss_exclusive, Option.bind (src_fs p) fss_home, Option.bind (src_fs p) fss_tmp,
     Option.bind (src_fs p) fss_proc)"

lemma push_new_by_keeps: "set base \<subseteq> set (push_new_by key base xs)"
proof -
  have "set base \<subseteq> set (fold (\<lambda>x acc. if key x \<in> key ` set acc then acc else acc @ [x]) xs base)"
  proof (induction xs arbitrary: base)
    case (Cons x xs)
    show ?case using Cons.IH [of "if key x \<in> key ` set base then base else base @ [x]"] by auto
  qed simp
  then show ?thesis by (simp add: push_new_by_def)
qed

lemma list_field_keeps:
  "list_additive c \<Longrightarrow> list_is_set p \<Longrightarrow> set (list_resolved p) \<subseteq> set (list_resolved (fst (fold_listfield c p key fld)))"
  by (cases c; cases p) (auto simp: fold_listfield_def Let_def list_ex_iff intro: subsetD [OF push_new_by_keeps])

lemma path_field_keeps:
  "none_or c path_additive \<Longrightarrow> none_or p path_is_set \<Longrightarrow>
   set (opt_list p path_resolved) \<subseteq> set (opt_list (fst (fold_pathfield c p fld)) path_resolved)"
  by (cases c; cases p; cases "the c"; cases "the p")
    (auto simp: none_or_def fold_pathfield_def Let_def opt_list_def list_ex_iff)

lemma none_or_bind: "none_or x P \<Longrightarrow> (\<And>a. P a \<Longrightarrow> none_or (g a) Q) \<Longrightarrow> none_or (Option.bind x g) Q"
  by (cases x) (simp_all add: none_or_def)

lemma additive_net:
  assumes "is_additive_only f"
  shows "none_or (Option.bind (Option.bind (src_net f) ns_proxy) npx_deny) (\<lambda>d. list_additive (npd_policy d))"
    "none_or (Option.bind (src_net f) ns_bpf) (\<lambda>b. nb_families b = None \<and> nb_deny_families b = None
         \<and> none_or (nb_connect b) acl_additive \<and> none_or (nb_bind b) acl_additive)"
proof -
  have "none_or (src_net f) net_additive" using assms unfolding is_additive_only_def by (elim conjE)
  note n = this
  from n show "none_or (Option.bind (src_net f) ns_bpf) (\<lambda>b. nb_families b = None \<and> nb_deny_families b = None
         \<and> none_or (nb_connect b) acl_additive \<and> none_or (nb_bind b) acl_additive)"
    by (rule none_or_bind) (simp add: net_additive_def)
  from n have "none_or (Option.bind (src_net f) ns_proxy) (\<lambda>p. none_or (npx_deny p) (\<lambda>d. list_additive (npd_policy d)))"
    by (rule none_or_bind) (auto simp: net_additive_def none_or_def split: option.splits)
  then show "none_or (Option.bind (Option.bind (src_net f) ns_proxy) npx_deny) (\<lambda>d. list_additive (npd_policy d))"
    by (rule none_or_bind)
qed

lemma concrete_net:
  assumes "policy_concrete p"
  shows "none_or (Option.bind (Option.bind (src_net p) ns_proxy) npx_deny) proxy_deny_concrete"
    "none_or (Option.bind (src_net p) ns_bpf) bpf_concrete"
proof -
  have n: "none_or (src_net p) net_concrete" using assms unfolding policy_concrete_def by (elim conjE)
  from n show "none_or (Option.bind (src_net p) ns_bpf) bpf_concrete"
    by (rule none_or_bind) (simp add: net_concrete_def)
  from n have "none_or (Option.bind (src_net p) ns_proxy) proxy_concrete"
    by (rule none_or_bind) (simp add: net_concrete_def)
  then show "none_or (Option.bind (Option.bind (src_net p) ns_proxy) npx_deny) proxy_deny_concrete"
    by (rule none_or_bind) (simp add: proxy_concrete_def)
qed

lemma apply_fragment_sections:
  "src_exec (apply_fragment p f) = src_exec (fst (fold_policy p f))" "src_fs (apply_fragment p f) = src_fs (fst (fold_policy p f))"
  "src_net (apply_fragment p f) = src_net (fst (fold_policy p f))"
  by (simp_all add: apply_fragment_def)

lemma fragment_fixed_sections: "is_additive_only f \<Longrightarrow> fixed_sections (apply_fragment p f) = fixed_sections p"
  by (simp add: fixed_sections_def apply_fragment_def fold_policy_sections is_additive_only_def fst_merge_warned merge_cases)

lemma fragment_exec_settings: "is_additive_only f \<Longrightarrow> exec_settings (apply_fragment p f) = exec_settings p"
  by (cases "src_exec p"; cases "src_exec f")
    (simp_all add: exec_settings_def exec_denies_def apply_fragment_sections fold_policy_sections is_additive_only_def
      exec_additive_def none_or_def merge_cases fold_exec_def case_prod_beta Let_def union_names_floor opt_list_def [of None])

lemma fragment_fs_settings: "is_additive_only f \<Longrightarrow> fs_settings (apply_fragment p f) = fs_settings p"
  by (cases "src_fs p"; cases "src_fs f")
    (simp_all add: fs_settings_def apply_fragment_sections fold_policy_sections is_additive_only_def
      fs_additive_def none_or_def merge_cases fold_fs_def case_prod_beta Let_def)

lemma fragment_bpf_settings:
  assumes "is_additive_only f"
  shows "Option.bind (Option.bind (src_net (apply_fragment p f)) ns_bpf) nb_families = Option.bind (Option.bind (src_net p) ns_bpf) nb_families"
    "family_denies (apply_fragment p f) = family_denies p"
proof -
  have f: "Option.bind (Option.bind (src_net f) ns_bpf) nb_families = None" "Option.bind (Option.bind (src_net f) ns_bpf) nb_deny_families = None"
    using additive_net(2) [OF assms] by (cases "Option.bind (src_net f) ns_bpf"; simp add: none_or_def)+
  show "Option.bind (Option.bind (src_net (apply_fragment p f)) ns_bpf) nb_families = Option.bind (Option.bind (src_net p) ns_bpf) nb_families"
    "family_denies (apply_fragment p f) = family_denies p"
    unfolding family_denies_def apply_fragment_sections net_bpf_fold using f
    by (cases "Option.bind (src_net p) ns_bpf"; cases "Option.bind (src_net f) ns_bpf";
      simp add: merge_cases fold_net_bpf_def case_prod_beta Let_def union_names_floor opt_list_def [of None])+
qed

lemma fragment_net_settings: "is_additive_only f \<Longrightarrow> net_settings (apply_fragment p f) = net_settings p"
  unfolding net_settings_def fragment_bpf_settings
  by (cases "src_net p"; cases "src_net f")
    (simp_all add: apply_fragment_sections fold_policy_sections is_additive_only_def
      net_additive_def none_or_def merge_cases fold_net_def case_prod_beta Let_def)

lemma fragment_keeps_paths:
  assumes "is_additive_only f" "policy_concrete p"
  shows "fs_paths fss_read p \<subseteq> fs_paths fss_read (apply_fragment p f)"
    "fs_paths fss_write p \<subseteq> fs_paths fss_write (apply_fragment p f)"
    "fs_paths fss_deny p \<subseteq> fs_paths fss_deny (apply_fragment p f)"
proof -
  have sel: "fss_read (fst (fold_fs a b)) = fst (fold_pathfield (fss_read b) (fss_read a) ''fs.read'')"
      "fss_write (fst (fold_fs a b)) = fst (fold_pathfield (fss_write b) (fss_write a) ''fs.write'')"
      "fss_deny (fst (fold_fs a b)) = fst (fold_pathfield (fss_deny b) (fss_deny a) ''fs.deny'')" for a b
    by (simp_all add: fold_fs_def case_prod_beta Let_def)
  show "fs_paths fss_read p \<subseteq> fs_paths fss_read (apply_fragment p f)"
    "fs_paths fss_write p \<subseteq> fs_paths fss_write (apply_fragment p f)"
    "fs_paths fss_deny p \<subseteq> fs_paths fss_deny (apply_fragment p f)"
    using assms by (cases "src_fs p"; cases "src_fs f";
      simp add: fs_paths_def apply_fragment_sections fold_policy_sections merge_cases sel is_additive_only_def fs_additive_def
        policy_concrete_def fs_concrete_def path_field_keeps none_or_def [of "Some _"] opt_list_def [of None])+
qed

lemma fragment_keeps_proxy_denies:
  assumes "is_additive_only f" "policy_concrete p"
  shows "proxy_denies p \<subseteq> proxy_denies (apply_fragment p f)"
proof -
  define dp where "dp = Option.bind (Option.bind (src_net p) ns_proxy) npx_deny"
  define df where "df = Option.bind (Option.bind (src_net f) ns_proxy) npx_deny"
  have "none_or dp proxy_deny_concrete"
    unfolding dp_def by (rule concrete_net(1) [OF assms(2)])
  moreover have "none_or df (\<lambda>d. list_additive (npd_policy d))"
    unfolding df_def by (rule additive_net(1) [OF assms(1)])
  ultimately show ?thesis
    unfolding proxy_denies_def apply_fragment_sections proxy_deny_fold dp_def [symmetric] df_def [symmetric]
    by (cases dp; cases df) (simp_all add: merge_cases fold_net_proxy_deny_def case_prod_beta Let_def none_or_def
        proxy_deny_concrete_def list_field_keeps opt_list_def)
qed

lemma fragment_keeps_bpf_denies:
  assumes "is_additive_only f" "policy_concrete p" "dir \<in> {nb_connect, nb_bind}"
  shows "bpf_denies dir p \<subseteq> bpf_denies dir (apply_fragment p f)"
proof -
  define bp where "bp = Option.bind (src_net p) ns_bpf"
  define bf where "bf = Option.bind (src_net f) ns_bpf"
  have conc: "none_or (Option.bind bp dir) acl_concrete"
    using assms(3) unfolding bp_def by (intro none_or_bind [OF concrete_net(2) [OF assms(2)]]) (auto simp: bpf_concrete_def)
  have add: "none_or (Option.bind bf dir) acl_additive"
    using assms(3) unfolding bf_def by (intro none_or_bind [OF additive_net(2) [OF assms(1)]]) auto
  have "\<exists>d. Option.bind (fst (merge_warned bp bf fold_net_bpf)) dir = fst (merge_warned (Option.bind bp dir) (Option.bind bf dir) (fold_net_bpf_acl d))"
    using assms(3) by (cases bp; cases bf) (auto simp: merge_cases fold_net_bpf_def case_prod_beta Let_def)
  then obtain d where d: "Option.bind (fst (merge_warned bp bf fold_net_bpf)) dir
      = fst (merge_warned (Option.bind bp dir) (Option.bind bf dir) (fold_net_bpf_acl d))" by blast
  show ?thesis
    unfolding bpf_denies_def apply_fragment_sections net_bpf_fold bp_def [symmetric] bf_def [symmetric] d
    using conc add by (cases "Option.bind bp dir"; cases "Option.bind bf dir")
      (simp_all add: merge_cases fold_net_bpf_acl_def case_prod_beta Let_def none_or_def acl_concrete_def acl_additive_def
        list_field_keeps opt_list_def)
qed

section \<open>A concrete search path\<close>

text \<open>\<open>SourcePolicy::default()\<close>.\<close>

definition empty_source :: SourcePolicy where
  "empty_source = \<lparr>src_template_base = None, src_template_name = None, src_name = None, src_include = [],
     src_threat_catalogue_version = None, src_signature = None, src_cap = None, src_exec = None, src_fs = None, src_net = None,
     src_unix = None, src_ssh = None, src_identity = None, src_provides = [], src_consumes = ListSet [], src_service = None,
     src_unsafe = None, src_env = None, src_seccomp = None, src_lifecycle = None, src_audit = None, src_ulimits = None,
     src_workload = None, src_tty = None, src_trust = None, src_dbus = None, src_rootfs = None, src_spawn = None, src_mutable = []\<rparr>"

text \<open>A fragment that is a list of UDP destinations.\<close>

definition udp_fragment :: "NetAllow list \<Rightarrow> SourcePolicy" where
  "udp_fragment v = empty_source\<lparr>src_name := Some ''udp'', src_net := Some \<lparr>ns_mode = None, ns_reason = None,
     ns_proxy_listen_address = None, ns_proxy = None, ns_bpf = None, ns_bind = None, ns_ipv6 = None, ns_audit = None,
     ns_udp = Some \<lparr>nu_allow = ListSet v\<rparr>\<rparr>\<rparr>"

text \<open>A child that adds one denied network to the connect rules.\<close>

definition lan_delta :: "BpfRule Delta" where
  "lan_delta = \<lparr>dl_add = [\<lparr>bpr_cidr = Some ''10.0.0.0/8'', bpr_ports = [], bpr_protocol = None, bpr_reason = Some ''lan'',
     bpr_threats = None\<rparr>], dl_remove = []\<rparr>"

definition lan_child :: SourcePolicy where
  "lan_child = empty_source\<lparr>src_name := Some ''lan'', src_net := Some \<lparr>ns_mode = None, ns_reason = None,
     ns_proxy_listen_address = None, ns_proxy = None,
     ns_bpf = Some \<lparr>nb_families = None, nb_deny_families = None,
       nb_connect = Some \<lparr>nba_allow = ListSet [], nba_deny = ListDelta lan_delta\<rparr>, nb_bind = None\<rparr>,
     ns_bind = None, ns_ipv6 = None, ns_audit = None, ns_udp = None\<rparr>\<rparr>"

definition site_signature :: SignatureEnvelope where
  "site_signature = \<lparr>env_algorithm = SSHSIG_ALGORITHM, env_key_id = ''site'',
     env_signature = sign_ed25519 demo_crypto demo_key (as_bytes ''source''), env_signed_fields = []\<rparr>"

definition path_add :: "string \<Rightarrow> PathField" where
  "path_add x = PathDelta \<lparr>dl_add = [\<lparr>pte_path = [x], pte_source = None, pte_reason = Some ''needed'', pte_threats = None\<rparr>],
     dl_remove = []\<rparr>"

definition exec_section :: "PathField option \<Rightarrow> string list option \<Rightarrow> ExecSection" where
  "exec_section al dn = \<lparr>xs_allow = al, xs_deny = dn, xs_deny_setuid = None, xs_deny_setgid = None, xs_deny_setcap = None,
     xs_deny_writable = None, xs_path = None, xs_shell = None\<rparr>"

definition base_template :: SourcePolicy where
  "base_template = empty_source\<lparr>src_template_name := Some ''base-confined'', src_signature := Some site_signature,
     src_exec := Some (exec_section (Some (PathSet [''/usr/bin/env''])) (Some [''/usr/bin/sudo''])),
     src_seccomp := Some \<lparr>scs_profile = None, scs_deny = Some [''ptrace''], scs_allow = None\<rparr>\<rparr>"

definition extra_fragment :: SourcePolicy where
  "extra_fragment = empty_source\<lparr>src_name := Some ''extra'', src_signature := Some site_signature,
     src_exec := Some (exec_section (Some (path_add ''/usr/bin/git'')) None)\<rparr>"

definition work_leaf :: SourcePolicy where
  "work_leaf = empty_source\<lparr>src_name := Some ''work'', src_template_base := Some ''base-confined'', src_include := [''extra''],
     src_exec := Some (exec_section (Some (path_add ''/usr/bin/make'')) (Some [''/usr/bin/su''])),
     src_dbus := Some \<lparr>dbs_session = Some \<lparr>dbb_enabled = Some True,
       dbb_allow = Some \<lparr>dbr_talk = [''org.gtk.vfs''], dbr_call = [], dbr_broadcast = [], dbr_own = []\<rparr>, dbb_deny = None\<rparr>,
       dbs_system = None, dbs_audit = None\<rparr>\<rparr>"

definition site_env :: "unit SourceEnv" where
  "site_env = \<lparr>se_crypto = demo_crypto,
     se_parse = (\<lambda>bs. if bs = [1] then Inr base_template else if bs = [2] then Inr extra_fragment else Inr work_leaf),
     se_print = (\<lambda>p. Inr (as_bytes ''source'')),
     se_fetch = (\<lambda>n. if n = ''base-confined'' then Some [1] else if n = ''extra'' then Some [2] else None)\<rparr>"

definition site_link :: "string \<Rightarrow> ChainLink" where
  "site_link n = \<lparr>cl_name = n, cl_signing_key_id = Some ''site'', cl_signature = Some (env_signature site_signature)\<rparr>"

lemma site_check: "src_signature p = Some site_signature \<Longrightarrow> Trust_check site_env (Trust_require demo_keys) n p = Inr (Some ''site'')"
proof -
  have "verify_signature demo_crypto (as_bytes ''source'') site_signature demo_keys = Inr ()"
    using signed_verifies [OF demo_laws(1,2), of "as_bytes ''source''" "[]"] by (simp add: site_signature_def demo_key_def)
  then show "src_signature p = Some site_signature \<Longrightarrow> Trust_check site_env (Trust_require demo_keys) n p = Inr (Some ''site'')"
    by (simp add: Trust_check_def Trust_require_def canonical_source_def site_env_def and_then_def map_err_def site_signature_def)
qed

lemmas source_checks = check_identity_def check_references_def check_reasons_def check_redirect_sources_def
  check_leaf_invariants_def check_dbus_allows opt_list_def is_leaf_def

lemma base_template_valid: "validate_source base_template = Inr ()"
  by (simp add: validate_source_ok_iff source_checks base_template_def empty_source_def exec_section_def
      dbus_allows_def path_reasons_def missing_reason_def no_source_def)

text \<open>Text that starts and ends with a printable ASCII character is already trimmed.\<close>

definition plain_char :: "char \<Rightarrow> bool" where
  "plain_char c \<longleftrightarrow> 33 \<le> byte_of_char c \<and> byte_of_char c \<le> 126"

lemma white_ends: "\<forall>w \<in> set white_space. w \<noteq> [] \<and> \<not> (33 \<le> hd w \<and> hd w \<le> 126) \<and> \<not> (33 \<le> last w \<and> last w \<le> 126)"
  by (simp add: white_space_def)

lemma trim_plain:
  assumes "s \<noteq> []" "plain_char (hd s)" "plain_char (last s)"
  shows "trim s = s"
proof -
  have "strip_white s = None"
  proof (rule ccontr)
    assume "strip_white s \<noteq> None"
    then obtain r w where "w \<in> set white_space" "s = string_of_bytes w @ r" using strip_white_Some by blast
    with white_ends assms(2) show False by (cases w) (auto simp: string_of_bytes_def plain_char_def)
  qed
  moreover have "strip_white_end s = None"
  proof (rule ccontr)
    assume "strip_white_end s \<noteq> None"
    then obtain r w where "w \<in> set white_space" "s = r @ string_of_bytes w"
      by (auto simp: strip_white_end_def split: list.splits dest!: map_filter_head)
    with white_ends assms(3) show False
      by (cases w rule: rev_cases) (auto simp: string_of_bytes_def plain_char_def)
  qed
  ultimately show ?thesis by (simp add: trim_def trim_start.simps [of s] trim_end.simps [of s])
qed

lemma trim_words: "trim ''needed'' = ''needed''" "trim ''org.gtk.vfs'' = ''org.gtk.vfs''"
  by (rule trim_plain; simp add: plain_char_def byte_of_char_def)+

lemma org_gtk_brokered: "\<forall>r \<in> set DBUS_REFUSE_TO_BROKER. \<not> dbus_pattern_admits ''org.gtk.vfs'' r"
  by code_simp

lemma work_leaf_valid: "validate_source work_leaf = Inr ()"
  by (simp add: validate_source_ok_iff source_checks work_leaf_def empty_source_def exec_section_def path_add_def
      dbus_allows_def bus_rules_def path_reasons_def missing_reason_def no_source_def is_blank_def trim_words
      validate_ref_name_def ref_start_def dbus_destination_def org_gtk_brokered invariant_denies_def)

lemma site_fetch:
  "fetch_parent site_env (Trust_require demo_keys) ''base-confined'' = Inr (base_template, site_link ''base-confined'')"
  "fetch_fragment site_env (Trust_require demo_keys) ''extra'' = Inr (extra_fragment, site_link ''extra'')"
proof -
  have s: "src_signature base_template = Some site_signature" "src_signature extra_fragment = Some site_signature"
    by (simp_all add: base_template_def extra_fragment_def)
  have p: "se_fetch site_env ''base-confined'' = Some [1]" "se_parse site_env [1] = Inr base_template"
      "se_fetch site_env ''extra'' = Some [2]" "se_parse site_env [2] = Inr extra_fragment"
    by (simp_all add: site_env_def)
  show "fetch_parent site_env (Trust_require demo_keys) ''base-confined'' = Inr (base_template, site_link ''base-confined'')"
    by (simp add: fetch_parent_def p s and_then_def map_err_def ok_or_def base_template_valid site_check [OF s(1)] site_link_def)
  have "is_additive_only extra_fragment" "src_template_base extra_fragment = None" "validate_ref_name ''extra'' = Inr ()"
    by (simp_all add: is_additive_only_def extra_fragment_def empty_source_def none_or_def exec_additive_def exec_section_def
        path_add_def validate_ref_name_def ref_start_def)
  then show "fetch_fragment site_env (Trust_require demo_keys) ''extra'' = Inr (extra_fragment, site_link ''extra'')"
    unfolding fetch_fragment_Inr_iff by (simp add: site_check [OF s(2)] site_link_def p s)
qed

lemma site_leaf:
  "src_template_base work_leaf = Some ''base-confined''" "src_template_base base_template = None"
  "src_include (fst (fold_chain [base_template] work_leaf)) = [''extra'']" "se_parse site_env [] = Inr work_leaf"
  by (simp_all add: work_leaf_def base_template_def empty_source_def fold_chain_def fold_step_def fold_policy_def case_prod_beta
      Let_def union_strings_def push_new_def site_env_def)

lemma site_ancestors:
  "ancestors site_env (Trust_require demo_keys) work_leaf [base_template] [site_link ''base-confined'']"
proof -
  have "validate_ref_name ''base-confined'' = Inr ()" by (simp add: validate_ref_name_def ref_start_def)
  then show ?thesis by (simp add: site_leaf site_fetch site_link_def [of "''base-confined''"])
qed

lemma site_composed: "composed site_env (Trust_require demo_keys) [] work_leaf [base_template] [extra_fragment]"
  unfolding composed_def site_leaf(3,4) using work_leaf_valid site_ancestors site_fetch(2)
  by (intro conjI exI [of _ "[site_link ''extra'']"] exI [of _ "[site_link ''base-confined'']"]) simp_all

lemma site_effective:
  "effective_source site_env (Trust_require demo_keys) [] = Some (Inr (compose_sources work_leaf [base_template] [extra_fragment]))"
proof -
  define c where "c = (fst (fold_chain [base_template] work_leaf))\<lparr>src_template_base := None,
    src_template_name := src_template_name work_leaf, src_name := src_name work_leaf, src_signature := None\<rparr>"
  have w: "walk site_env (Trust_require demo_keys) [] [] [] work_leaf = Some (Inr ([base_template], [site_link ''base-confined'']))"
    unfolding walk_exact using site_ancestors by simp
  have i: "src_include c = [''extra'']" by (simp add: c_def site_leaf)
  have n: "net_allow_adds extra_fragment = []" by (simp add: net_allow_adds_def extra_fragment_def empty_source_def)
  have "resolve_verified site_env (Trust_require demo_keys) work_leaf = Some (Inr \<lparr>rc_effective = c, rc_chain = [site_link ''base-confined''],
      rc_provides_origin = provides_origin (Trust_require demo_keys) work_leaf [base_template] [site_link ''base-confined''],
      rc_warnings = snd (fold_chain [base_template] work_leaf)\<rparr>)"
    by (simp add: resolve_verified_def work_leaf_valid w and_then_def c_def case_prod_beta Let_def)
  then show ?thesis
    by (simp add: effective_source_def site_leaf and_then_def apply_includes_def i site_fetch n compose_sources_def c_def [symmetric])
qed

section \<open>Properties\<close>

text \<open>C7. Resolution returns for every entry, search path and trust store, also when the search path holds
  templates that name each other in a cycle; a chain it returns has at most sixteen ancestors, all of
  different names.\<close>

theorem resolve_returns:
  "\<exists>r. resolve_verified E trust entry = Some r
     \<and> (case r of Inl _ \<Rightarrow> True | Inr c \<Rightarrow> length (rc_chain c) \<le> 16 \<and> distinct (map cl_name (rc_chain c)))"
proof -
  obtain w where w: "walk E trust [] [] [] entry = Some w" using walk_returns [of "[]" E trust "[]" "[]" entry] by auto
  then obtain r where r: "resolve_verified E trust entry = Some r"
    by (cases "validate_source entry") (simp_all add: resolve_verified_def)
  have "length (rc_chain c) \<le> 16 \<and> distinct (map cl_name (rc_chain c))" if "r = Inr c" for c
    using r unfolding that resolve_verified_Inr_iff by (auto simp: rev_map [symmetric] dest: ancestors_length)
  then show ?thesis using r by (auto split: sum.split)
qed

text \<open>C5. Floors only grow: every denied executable, environment variable, system call and socket family and
  every invariant network denial that the entry, an ancestor template or an included fragment states is in
  the effective policy.\<close>

theorem effective_floors:
  assumes "effective_source E trust bs = Some (Inr eff)"
  shows "\<exists>entry parents frags. composed E trust bs entry parents frags \<and>
    (\<forall>q \<in> {entry} \<union> set parents \<union> set frags.
       exec_denies q \<subseteq> exec_denies eff \<and> env_denies q \<subseteq> env_denies eff \<and> seccomp_denies q \<subseteq> seccomp_denies eff
       \<and> family_denies q \<subseteq> family_denies eff \<and> invariant_cidrs q \<subseteq> invariant_cidrs eff)"
proof -
  from assms obtain entry parents frags where c: "composed E trust bs entry parents frags"
    and e: "eff = compose_sources entry parents frags" by (rule effective_source_composed)
  show ?thesis
    unfolding e using c exec_floor.effective_keeps [of _ parents entry frags] env_floor.effective_keeps [of _ parents entry frags]
      seccomp_floor.effective_keeps [of _ parents entry frags] family_floor.effective_keeps [of _ parents entry frags]
      invariant_floor.effective_keeps [of _ parents entry frags]
    by (intro exI [of _ entry] exI [of _ parents] exI [of _ frags] conjI ballI) simp_all
qed

theorem effective_floors_witness:
  "\<exists>eff. effective_source site_env (Trust_require demo_keys) [] = Some (Inr eff)
     \<and> {''/usr/bin/sudo'', ''/usr/bin/su''} \<subseteq> exec_denies eff \<and> ''ptrace'' \<in> seccomp_denies eff"
proof -
  from effective_floors [OF site_effective] obtain entry parents frags where
    c: "composed site_env (Trust_require demo_keys) [] entry parents frags"
    and f: "\<forall>q \<in> {entry} \<union> set parents \<union> set frags.
      exec_denies q \<subseteq> exec_denies (compose_sources work_leaf [base_template] [extra_fragment])
      \<and> seccomp_denies q \<subseteq> seccomp_denies (compose_sources work_leaf [base_template] [extra_fragment])" by blast
  have "entry = work_leaf" "parents = [base_template]" using composed_unique [OF site_composed c] by simp_all
  then show ?thesis using f site_effective
    by (auto simp: exec_denies_def seccomp_denies_def work_leaf_def base_template_def empty_source_def exec_section_def opt_list_def)
qed

text \<open>C6. When signatures are required, everything an effective policy is composed of besides the entry carries
  an Ed25519 signature, by a key the trust store holds under the name the artefact gives, over its canonical
  text; every ancestor passed the checks of a single artefact and every fragment is additive.\<close>

theorem effective_sources_trusted:
  assumes "effective_source E trust bs = Some (Inr eff)" "tr_mode trust = Require"
  shows "\<exists>entry parents frags. composed E trust bs entry parents frags
    \<and> (\<forall>q \<in> set parents \<union> set frags. \<exists>keys k. tr_keys trust = Some keys \<and> source_authentic E keys q k)
    \<and> (\<forall>q \<in> set parents. validate_source q = Inr ()) \<and> (\<forall>f \<in> set frags. is_additive_only f)"
proof -
  from assms(1) obtain entry parents frags where c: "composed E trust bs entry parents frags"
    by (rule effective_source_composed)
  have "\<exists>keys k. tr_keys trust = Some keys \<and> source_authentic E keys q k" if q: "q \<in> set parents \<union> set frags" for q
  proof -
    obtain n k where "Trust_check E trust n q = Inr k"
      using q composed_parent(2) [OF c] composed_fragment(2) [OF c] by blast
    then show ?thesis using assms(2) by (rule Trust_check_require) blast
  qed
  then show ?thesis using c composed_parent(1) [OF c] composed_fragment(1) [OF c] by blast
qed

theorem effective_sources_trusted_witness: "\<exists>k. source_authentic site_env demo_keys base_template k"
proof -
  from effective_sources_trusted [OF site_effective] obtain entry parents frags where
    c: "composed site_env (Trust_require demo_keys) [] entry parents frags"
    and a: "\<forall>q \<in> set parents \<union> set frags. \<exists>keys k. tr_keys (Trust_require demo_keys) = Some keys \<and> source_authentic site_env keys q k"
    by (auto simp: Trust_require_def)
  have "base_template \<in> set parents \<union> set frags" using composed_unique [OF site_composed c] by simp
  with a show ?thesis by (auto simp: Trust_require_def)
qed

text \<open>C8. The effective policy is well typed for the translation that follows: when the root of the chain states
  its list fields in full and no artefact increments a section neither the root declares nor it states in
  full itself, every list field of the effective policy is a list.\<close>

theorem effective_concrete:
  assumes "effective_source E trust bs = Some (Inr eff)" "composed E trust bs entry parents frags"
    and "policy_concrete (chain_root entry parents)"
    and "\<forall>q \<in> set parents \<union> {entry} \<union> set frags. policy_covers (chain_root entry parents) q"
  shows "policy_concrete eff"
  using compose_concrete [OF assms(3,4)] effective_source_is_composed [OF assms(1,2)] by simp

theorem effective_concrete_witness:
  "policy_concrete (compose_sources work_leaf [base_template] [extra_fragment])"
  by (rule effective_concrete [OF site_effective site_composed])
    (simp_all add: chain_root_def policy_concrete_def policy_covers_def base_template_def work_leaf_def extra_fragment_def
      empty_source_def exec_section_def none_or_def exec_concrete_def always_def)

text \<open>C9. The axiom on the bus survives composition: no rule of an effective policy, on either bus, has a
  destination pattern that admits a service that is never brokered to a kennel.\<close>

theorem dbus_refusals_hold:
  assumes "effective_source E trust bs = Some (Inr eff)"
  shows "\<forall>e \<in> dbus_allows eff. \<forall>r \<in> set DBUS_REFUSE_TO_BROKER. \<not> dbus_pattern_admits (dbus_destination e) r"
proof -
  from assms obtain entry parents frags where c: "composed E trust bs entry parents frags"
    and e: "eff = compose_sources entry parents frags" by (rule effective_source_composed)
  have "dbus_allows f = {}" if "f \<in> set frags" for f
    using composed_fragment(1) [OF c that] by (simp add: is_additive_only_def dbus_allows_def)
  then have "dbus_allows eff \<subseteq> dbus_allows entry \<union> \<Union> (dbus_allows ` set parents)"
    using dbus_ceiling.compose_bounded [of entry parents frags] unfolding e by auto
  moreover have "check_dbus q = []" if "q \<in> insert entry (set parents)" for q
    using that c composed_parent(1) [OF c, of q] by (auto simp: composed_def validate_source_ok_iff)
  ultimately show ?thesis unfolding check_dbus_allows by blast
qed

theorem dbus_refusals_hold_witness:
  "''org.gtk.vfs'' \<in> dbus_allows (compose_sources work_leaf [base_template] [extra_fragment])
   \<and> \<not> dbus_pattern_admits (dbus_destination ''org.gtk.vfs'') ''org.freedesktop.secrets''"
proof -
  have "src_dbus base_template = None" "src_dbus extra_fragment = None"
    by (simp_all add: base_template_def extra_fragment_def empty_source_def)
  then have "src_dbus (compose_sources work_leaf [base_template] [extra_fragment]) = src_dbus work_leaf"
    by (simp add: compose_sources_def fst_fold_chain chain_root_def apply_fragment_def fold_policy_sections merge_cases)
  then have m: "''org.gtk.vfs'' \<in> dbus_allows (compose_sources work_leaf [base_template] [extra_fragment])"
    by (simp add: dbus_allows_def bus_rules_def work_leaf_def opt_list_def)
  moreover have "''org.freedesktop.secrets'' \<in> set DBUS_REFUSE_TO_BROKER" by (simp add: DBUS_REFUSE_TO_BROKER_def)
  ultimately show ?thesis using dbus_refusals_hold [OF site_effective] by blast
qed

text \<open>C11. An included fragment only adds: over a policy with concrete lists it leaves every section and setting it
  may not touch as it was, and keeps every path the policy reads, writes or denies, every denied proxy
  destination and every connect and bind denial.\<close>

theorem fragment_only_adds:
  assumes "is_additive_only f" "policy_concrete p"
  shows "fixed_sections (apply_fragment p f) = fixed_sections p \<and> exec_settings (apply_fragment p f) = exec_settings p
    \<and> net_settings (apply_fragment p f) = net_settings p \<and> fs_settings (apply_fragment p f) = fs_settings p
    \<and> fs_paths fss_read p \<subseteq> fs_paths fss_read (apply_fragment p f) \<and> fs_paths fss_write p \<subseteq> fs_paths fss_write (apply_fragment p f)
    \<and> fs_paths fss_deny p \<subseteq> fs_paths fss_deny (apply_fragment p f) \<and> proxy_denies p \<subseteq> proxy_denies (apply_fragment p f)
    \<and> bpf_denies nb_connect p \<subseteq> bpf_denies nb_connect (apply_fragment p f)
    \<and> bpf_denies nb_bind p \<subseteq> bpf_denies nb_bind (apply_fragment p f)"
  using fragment_keeps_bpf_denies [OF assms, of nb_connect] fragment_keeps_bpf_denies [OF assms, of nb_bind]
  by (simp add: fragment_fixed_sections fragment_exec_settings fragment_net_settings fragment_fs_settings
      fragment_keeps_paths fragment_keeps_proxy_denies assms)

theorem fragment_only_adds_witness:
  "exec_settings (apply_fragment base_template extra_fragment) = exec_settings base_template"
proof -
  have "is_additive_only extra_fragment" using site_fetch(2) unfolding fetch_fragment_Inr_iff by blast
  moreover have "policy_concrete base_template"
    by (simp add: policy_concrete_def base_template_def empty_source_def exec_section_def none_or_def exec_concrete_def)
  ultimately show ?thesis using fragment_only_adds by blast
qed

text \<open>C38. An increment over an absent section is dropped: when no inherited artefact has a \<open>[net.bpf.connect]\<close>
  section, the denials a child adds there are not among those the translation reads.\<close>

theorem increment_without_base_lost:
  assumes "Option.bind (Option.bind (src_net p) ns_bpf) nb_connect = None"
    and "Option.bind (Option.bind (src_net c) ns_bpf) nb_connect = Some a" "nba_deny a = ListDelta d"
  shows "bpf_denies nb_connect (fst (fold_policy p c)) = {}"
proof -
  have "Option.bind (Option.bind (src_net (fst (fold_policy p c))) ns_bpf) nb_connect = Some a"
    unfolding net_bpf_fold using assms(1,2)
    by (cases "Option.bind (src_net p) ns_bpf"; cases "Option.bind (src_net c) ns_bpf")
      (simp_all add: merge_cases fold_net_bpf_def case_prod_beta Let_def)
  then show ?thesis by (simp add: bpf_denies_def opt_list_def assms(3))
qed

theorem increment_without_base_lost_witness: "bpf_denies nb_connect (fst (fold_policy base_template lan_child)) = {}"
  by (rule increment_without_base_lost [where d = lan_delta and a = "\<lparr>nba_allow = ListSet [], nba_deny = ListDelta lan_delta\<rparr>"])
    (simp_all add: base_template_def empty_source_def lan_child_def)

text \<open>C39. The additive test does not look at \<open>[net.udp]\<close>: a fragment that is nothing but a list of UDP
  destinations passes it and replaces the destinations of the policy it is included in.\<close>

theorem fragment_replaces_udp:
  "is_additive_only (udp_fragment v)
   \<and> udp_allows (apply_fragment p (udp_fragment v)) = (if v = [] then udp_allows p else v)"
proof
  show "is_additive_only (udp_fragment v)"
    by (simp add: is_additive_only_def udp_fragment_def empty_source_def none_or_def net_additive_def)
  define n where "n = src_net (udp_fragment v)"
  have n: "n = Some \<lparr>ns_mode = None, ns_reason = None, ns_proxy_listen_address = None, ns_proxy = None, ns_bpf = None,
      ns_bind = None, ns_ipv6 = None, ns_audit = None, ns_udp = Some \<lparr>nu_allow = ListSet v\<rparr>\<rparr>"
    by (simp add: n_def udp_fragment_def)
  show "udp_allows (apply_fragment p (udp_fragment v)) = (if v = [] then udp_allows p else v)"
    unfolding udp_allows_def apply_fragment_sections fold_policy_sections n_def [symmetric]
    by (cases "src_net p"; cases "Option.bind (src_net p) ns_udp")
      (simp_all add: n merge_cases fold_net_udp_sel fold_net_udp_def fold_listfield_def opt_list_def)
qed

end
