(* ===== verification/Source_Compile.thy ===== *)
theory Source_Compile
  imports Source_Effective Rust_Path
begin

text \<open>
  The part of a compile between resolution and translation (\<open>compile\<close> in
  \<open>kennel-lib-compile/src/compile.rs\<close>): the checks on the effective policy's \<open>[ssh]\<close>, \<open>[unix]\<close>,
  \<open>[[provides]]\<close> and \<open>[[consumes]]\<close>, device and group entries (\<open>ssh.rs\<close>, \<open>unix.rs\<close>, \<open>mesh.rs\<close>, \<open>dev.rs\<close>,
  \<open>identity.rs\<close>), the reserved-namespace gate, and the resolution of the spawn grant to pinned templates
  (\<open>spawn.rs\<close>).  The path of the daemon's control socket depends on the environment and is a parameter.
\<close>

definition arrow :: string where "arrow = [CHR 0xE2, CHR 0x86, CHR 0x92]"
definition at_least :: string where "at_least = [CHR 0xE2, CHR 0x89, CHR 0xA5]"

text \<open>The end every check shares: all problems, or the value.\<close>

definition errs_or :: "string list \<Rightarrow> 'a \<Rightarrow> PolicyError + 'a" where
  "errs_or errs v = (if errs = [] then Inr v else Inl (SourceValidation errs))"

lemma errs_or_Inr_iff: "errs_or errs v = Inr w \<longleftrightarrow> errs = [] \<and> w = v"
  by (auto simp: errs_or_def)

section \<open>SSH, devices and groups\<close>

definition exposed :: "Threats option \<Rightarrow> bool" where
  "exposed t \<longleftrightarrow> (case t of None \<Rightarrow> False | Some t \<Rightarrow> thr_exposed t \<noteq> [])"

definition has_threat_tag :: "SshSection \<Rightarrow> bool" where
  "has_threat_tag ssh \<longleftrightarrow> exposed (shs_threats ssh) \<or> list_ex (\<lambda>d. exposed (sd_threats d)) (list_resolved (shs_destinations ssh))"

definition ssh_validate :: "SourcePolicy \<Rightarrow> PolicyError + unit" where
  "ssh_validate policy =
     (case src_ssh policy of
        None \<Rightarrow> Inr ()
      | Some ssh \<Rightarrow>
          errs_or
            (concat (map (\<lambda>d. case sd_dest d of
                None \<Rightarrow> [''[[ssh.destinations]] entry is missing a `dest`'']
              | Some dest \<Rightarrow> if trim dest = [] then [''[[ssh.destinations]] `dest` is empty''] else [])
              (list_resolved (shs_destinations ssh)))
             @ (if shs_allow_headless ssh = Some True \<and> \<not> has_threat_tag ssh
                then [''[ssh] `allow_headless = true` lets a non-interactive kennel drive a granted destination with no per-use touch; it must carry a threat tag (`[ssh].threats.exposed`).'']
                else []))
            ())"

definition is_dev_path :: "string \<Rightarrow> bool" where
  "is_dev_path p \<longleftrightarrow> (p = ''/dev'' \<or> starts_with ''/dev/'' p) \<and> ''..'' \<notin> set (split_on CHR ''/'' p)"

definition dev_validate :: "SourcePolicy \<Rightarrow> PolicyError + unit" where
  "dev_validate policy =
     (case Option.bind (src_fs policy) fss_dev of
        None \<Rightarrow> Inr ()
      | Some dev \<Rightarrow>
          errs_or (concat (map (\<lambda>entry.
              (case dp_path entry of
                 None \<Rightarrow> [''[[fs.dev.passthrough]] entry is missing a `path`'']
               | Some p \<Rightarrow> if is_dev_path p then []
                   else [''[[fs.dev.passthrough]] `'' @ p @ ''` must be an absolute device path under `/dev` with no `..`''])
              @ (if exposed (dp_threats entry) then []
                 else [''[[fs.dev.passthrough]] `'' @ unwrap_or (dp_path entry) ''<no-path>''
                   @ ''` exposes a host device (kernel attack surface + a DAC group right into the kennel); it must carry a threat tag (`threats.exposed`)'']))
              (list_resolved (fd_passthrough dev)))) ())"

text \<open>\<open>char::is_control\<close> of the character a string starts with.\<close>

definition starts_control :: "string \<Rightarrow> bool" where
  "starts_control s \<longleftrightarrow>
     (case s of
        [] \<Rightarrow> False
      | c # r \<Rightarrow> of_char c < (32 :: nat) \<or> of_char c = (127 :: nat)
          \<or> c = CHR 0xC2 \<and> r \<noteq> [] \<and> (128 :: nat) \<le> of_char (hd r) \<and> of_char (hd r) \<le> (159 :: nat))"

fun group_chars_ok :: "string \<Rightarrow> bool" where
  "group_chars_ok [] \<longleftrightarrow> True"
| "group_chars_ok (c # s) \<longleftrightarrow>
     c \<noteq> CHR '':'' \<and> strip_white (c # s) = None \<and> \<not> starts_control (c # s) \<and> group_chars_ok s"

definition is_safe_group_name :: "string \<Rightarrow> bool" where
  "is_safe_group_name name \<longleftrightarrow> name \<noteq> [] \<and> group_chars_ok name"

definition identity_validate :: "SourcePolicy \<Rightarrow> PolicyError + unit" where
  "identity_validate policy =
     (case src_identity policy of
        None \<Rightarrow> Inr ()
      | Some identity \<Rightarrow>
          errs_or (concat (map (\<lambda>g.
              if g = [] then [''[identity] groups contains an empty group name'']
              else if \<not> is_safe_group_name g
              then [''[identity] group `'' @ g @ ''` is not a well-formed group name (no `:`, whitespace, or control chars ''
                @ em_dash @ '' they would corrupt the synthetic /etc/group)'']
              else []) (group_resolved (ids_groups identity)))) ())"

section \<open>Sockets\<close>

fun normal_push :: "component list \<Rightarrow> component \<Rightarrow> component list" where
  "normal_push out ParentDir = (if out = [] \<or> last out = RootDir then out else butlast out)"
| "normal_push out CurDir = out"
| "normal_push out c = out @ [c]"

definition lexical_normalize :: "string \<Rightarrow> component list" where
  "lexical_normalize p = foldl normal_push [] (components p)"

definition all_digits :: "string \<Rightarrow> bool" where
  "all_digits s \<longleftrightarrow> s \<noteq> [] \<and> list_all (\<lambda>c. (48 :: nat) \<le> of_char c \<and> of_char c \<le> (57 :: nat)) s"

definition is_control_socket :: "string \<Rightarrow> string \<Rightarrow> bool" where
  "is_control_socket socket_path candidate \<longleftrightarrow>
     (let norm = lexical_normalize candidate in
      norm = components socket_path
      \<or> (case norm of
           [RootDir, Normal run, Normal user, Normal uid, Normal kennel, Normal sock] \<Rightarrow>
             run = ''run'' \<and> user = ''user'' \<and> all_digits uid \<and> kennel = ''kennel'' \<and> sock = ''control.sock''
         | _ \<Rightarrow> False))"

definition unix_who :: "UnixAllow \<Rightarrow> string" where
  "unix_who a = unwrap_or (or_else (ua_name a) (ua_real a)) ''(unnamed)''"

definition unix_entry_errors :: "string \<Rightarrow> UnixAllow \<Rightarrow> string list" where
  "unix_entry_errors socket_path a =
     (if unwrap_or (ua_real a) [] = []
      then [''[[unix.allow]] `'' @ unix_who a @ ''` is missing `real` (the host socket path to bind)''] else [])
     @ (if unwrap_or (ua_shim a) [] = []
        then [''[[unix.allow]] `'' @ unix_who a @ ''` is missing `shim` (the in-view path to bind it at)''] else [])
     @ opt_list (ua_real a) (\<lambda>real. if is_control_socket socket_path real
        then [''[[unix.allow]] `'' @ unix_who a @ ''` targets the kenneld control socket (`'' @ real @ ''`) '' @ em_dash
          @ '' the CLI'' @ arrow @ ''daemon trust boundary. Reaching it from inside a kennel is privilege escalation; it is refused by rule, grantable by no policy'']
        else [])"

definition shims_agent :: "string \<Rightarrow> string \<Rightarrow> UnixAllow \<Rightarrow> bool" where
  "shims_agent name env a \<longleftrightarrow> (case ua_name a of None \<Rightarrow> False | Some n \<Rightarrow> eq_ignore_ascii_case n name) \<or> ua_env a = Some env"

definition unix_entry_warnings :: "UnixAllow \<Rightarrow> string list" where
  "unix_entry_warnings a =
     (if shims_agent ''ssh-agent'' ''SSH_AUTH_SOCK'' a
      then [''[[unix.allow]] `'' @ unix_who a @ ''` shims an SSH agent (name = '' @ quoted ''ssh-agent'' @ '' / env = '' @ quoted ''SSH_AUTH_SOCK''
        @ ''): an exposed agent is a destination-blind signing oracle. This is the intended job of the [ssh] section and the re-origination bastion ''
        @ em_dash @ '' shim a raw agent only if you accept that any code in the kennel can sign for any destination''] else [])
     @ (if shims_agent ''gpg-agent'' ''GPG_AGENT_INFO'' a
        then [''[[unix.allow]] `'' @ unix_who a @ ''` shims a GPG agent (name = '' @ quoted ''gpg-agent'' @ '' / env = '' @ quoted ''GPG_AGENT_INFO''
          @ ''): an exposed agent is a destination-blind signing oracle '' @ em_dash
          @ '' worse than ssh-agent, because a signature permanently stamps your identity onto whatever the kennel asks it to sign (malware, releases, forged commits). There is no bastion equivalent. Shim it only if you accept that any code in the kennel can sign as you; the safe default is to leave commit signing to the host (the workload commits unsigned)'']
        else [])"

definition abstract_errors :: "string \<Rightarrow> string option \<Rightarrow> string list \<times> string list" where
  "abstract_errors nmode abstract_ns =
     (case abstract_ns of
        None \<Rightarrow> ([], [])
      | Some a \<Rightarrow>
          if a = ''deny'' then ([], [])
          else if a = ''allow'' then
            (if nmode = ''host''
             then ([''[unix] abstract = '' @ quoted ''allow'' @ '' with net.mode = '' @ quoted ''host''
               @ '' is a hard compile error: host mode shares CLONE_NEWNET with the host, so abstract-namespace sockets reach the host namespace directly ''
               @ em_dash @ '' X11, the D-Bus session bus, and any daemon binding an abstract socket '' @ em_dash
               @ '' with no Landlock, proxy, or BPF gate in the path. This is an IPC escape below the proxy layer (T1.13). abstract = ''
               @ quoted ''allow'' @ '' is valid only when the kennel owns its CLONE_NEWNET (net.mode = none / constrained / unconstrained)''], [])
             else ([], [''[unix] abstract = '' @ quoted ''allow''
               @ '' accepted: abstract-namespace sockets are permitted within the kennel''
               @ [CHR 0x27] @ ''s own network namespace. Defence-in-depth requires Landlock ABI '' @ at_least
               @ '' 6 (Scope::ABSTRACT_UNIX_SOCKET); on older kernels the network-namespace boundary is the only control'']))
          else ([''[unix] abstract `'' @ a @ ''` is not deny/allow''], []))"

definition unix_validate :: "string \<Rightarrow> SourcePolicy \<Rightarrow> PolicyError + string list" where
  "unix_validate socket_path policy =
     (case src_unix policy of
        None \<Rightarrow> Inr []
      | Some unix \<Rightarrow>
          (let nmode = unwrap_or (Option.bind (src_net policy) ns_mode) ''constrained'';
               (errs, warnings) = abstract_errors nmode (us_abstract_ns unix);
               entries = list_resolved (us_allow unix)
           in errs_or (errs @ concat (map (unix_entry_errors socket_path) entries))
                (warnings @ concat (map unix_entry_warnings entries))))"

section \<open>Capabilities and their reserved names\<close>

definition RESERVED_PREFIX :: string where "RESERVED_PREFIX = ''org.projectkennel.''"

record ReservedAuthority =
  ra_enforce :: bool
  ra_declaring_tier :: "Tier option"
  ra_reserved :: "ReservedNamespace list"

definition required_tier :: "ReservedAuthority \<Rightarrow> string \<Rightarrow> Tier option" where
  "required_tier a name =
     (if starts_with RESERVED_PREFIX name then Some Vendor
      else if list_ex (\<lambda>ns. starts_with (rn_prefix ns) name) (ra_reserved a) then Some Host
      else None)"

definition permits :: "ReservedAuthority \<Rightarrow> string \<Rightarrow> bool" where
  "permits a name \<longleftrightarrow>
     \<not> ra_enforce a
     \<or> (case required_tier a name of None \<Rightarrow> True
         | Some req \<Rightarrow> (case ra_declaring_tier a of None \<Rightarrow> False | Some t \<Rightarrow> t \<ge> req))"

definition af_unix_endpoint_under_run :: "string \<Rightarrow> bool" where
  "af_unix_endpoint_under_run endpoint \<longleftrightarrow>
     is_absolute endpoint \<and> path_starts_with endpoint ''/run'' \<and> length (components endpoint) \<ge> 4
     \<and> ParentDir \<notin> set (components endpoint)"

definition who :: "string \<Rightarrow> string" where
  "who name = (if name = [] then ''(unnamed)'' else name)"

definition provide_name_errors :: "ReservedAuthority \<Rightarrow> string list \<Rightarrow> string \<Rightarrow> string list" where
  "provide_name_errors authority seen name =
     (if name = [] then [''[[provides]] entry is missing `name`'']
      else (if permits authority name then []
            else [''[[provides]] `'' @ name @ ''` is a reserved capability name: it may be claimed only through a template signed at the tier the name requires ''
              @ em_dash @ '' `'' @ RESERVED_PREFIX @ ''*` needs a vendor (maintainer) template, a host `[[reserved]]` name a host template; an unreserved name is free to any signed template''])
        @ (if name \<in> set seen
           then [''[[provides]] `'' @ name @ ''` is declared more than once in this policy (duplicate provide)''] else []))"

definition provide_endpoint_errors :: "ProvidesEntry \<Rightarrow> string list" where
  "provide_endpoint_errors p =
     (case prv_shape p of
        AfUnix \<Rightarrow>
          opt_list (prv_endpoint p) (\<lambda>e. if af_unix_endpoint_under_run e then []
            else [''[[provides]] `'' @ who (prv_name p) @ ''` endpoint `'' @ e
              @ ''` must be an absolute path under `/run` with a subdirectory (e.g. `/run/<dir>/<sock>`) '' @ em_dash
              @ '' `kenneld` binds `dirname(endpoint)` at construction; omit it for the `/run/<name>[.key]/sock` default''])
      | _ \<Rightarrow> if unwrap_or (prv_endpoint p) [] = [] then [''[[provides]] `'' @ who (prv_name p) @ ''` is missing `endpoint`''] else [])
     @ (if unwrap_or (prv_reason p) [] = [] then [''[[provides]] `'' @ who (prv_name p) @ ''` is missing a `reason`''] else [])"

fun provides_errors :: "ReservedAuthority \<Rightarrow> string list \<Rightarrow> ProvidesEntry list \<Rightarrow> string list" where
  "provides_errors authority seen [] = []"
| "provides_errors authority seen (p # ps) =
     provide_name_errors authority seen (prv_name p) @ provide_endpoint_errors p
     @ provides_errors authority (if prv_name p = [] then seen else prv_name p # seen) ps"

definition consumes_errors :: "ConsumesEntry \<Rightarrow> string list" where
  "consumes_errors c =
     (if cse_name c = [] then [''[[consumes]] entry is missing `name`''] else [])
     @ (if unwrap_or (cse_reason c) [] = [] then [''[[consumes]] `'' @ who (cse_name c) @ ''` is missing a `reason`''] else [])"

definition mesh_validate :: "SourcePolicy \<Rightarrow> ReservedAuthority \<Rightarrow> PolicyError + string list" where
  "mesh_validate policy authority =
     errs_or (provides_errors authority [] (src_provides policy)
       @ concat (map consumes_errors (list_resolved (src_consumes policy)))) []"

definition provide_dir_component :: "string \<Rightarrow> string option \<Rightarrow> string" where
  "provide_dir_component name key = (case key of None \<Rightarrow> name | Some k \<Rightarrow> name @ ''.'' @ k)"

definition default_af_unix_endpoint :: "string \<Rightarrow> string option \<Rightarrow> string" where
  "default_af_unix_endpoint name key = ''/run/'' @ provide_dir_component name key @ ''/sock''"

definition reserved_authority :: "ProvidesOrigin \<Rightarrow> Trust \<Rightarrow> ReservedAuthority" where
  "reserved_authority origin trust =
     (let entry_unsigned = (origin = Entry \<and> signing_tier trust = None) in
      \<lparr>ra_enforce = (tr_keys trust \<noteq> None \<and> \<not> entry_unsigned),
       ra_declaring_tier = (case origin of Ancestor tier \<Rightarrow> tier | Entry \<Rightarrow> signing_tier trust | Absent \<Rightarrow> None),
       ra_reserved = tr_reserved trust\<rparr>)"

section \<open>The spawn grant\<close>

text \<open>Where settled templates are read from: the search path and the settled form's reader and writer.\<close>

record SettledEnv =
  te_fetch :: "string \<Rightarrow> bytes option"
  te_parse :: toml_reader
  te_print :: toml_writer

definition check_narrowing :: "string \<Rightarrow> SpawnAllow \<Rightarrow> SettledPolicy \<Rightarrow> PolicyError + unit" where
  "check_narrowing reference entry target =
     (case sa_mutable entry of
        None \<Rightarrow> Inr ()
      | Some narrow \<Rightarrow>
          (case find (\<lambda>field. field \<notin> set (map va_field (sp_manifest target))) narrow of
             Some field \<Rightarrow> Inl (Spawn (UndeclaredNarrowing reference field))
           | None \<Rightarrow> Inr ()))"

definition settled_trusted :: "'kp SourceEnv \<Rightarrow> SettledEnv \<Rightarrow> Trust \<Rightarrow> string \<Rightarrow> bytes \<Rightarrow> SignedSettledPolicy \<Rightarrow> PolicyError + unit" where
  "settled_trusted E T trust reference bs doc =
     (if env_algorithm (doc_signature doc) = SSHSIG_ALGORITHM
      then (case tr_keys trust of
              None \<Rightarrow> Inr ()
            | Some keys \<Rightarrow> and_then (verify_settled (se_crypto E) (te_parse T) (te_print T) bs keys) (\<lambda>_. Inr ()))
      else if tr_mode trust = Require
      then Inl (Resolution (''[[spawn.allow]] template = '' @ quoted reference
        @ '': its settled artefact is unsigned, but this compile requires signatures '' @ em_dash
        @ '' sign it (`kennel policy compile --key '' @ [CHR 0xE2, CHR 0x80, CHR 0xA6] @ ''`)''))
      else Inr ())"

definition resolve_target :: "'kp SourceEnv \<Rightarrow> SettledEnv \<Rightarrow> Trust \<Rightarrow> string \<Rightarrow> SpawnAllow \<Rightarrow> PolicyError + SpawnTemplate" where
  "resolve_target E T trust reference entry =
     and_then (parse_reference reference) (\<lambda>name.
     and_then (ok_or (te_fetch T name) (Resolution (''[[spawn.allow]] template = '' @ quoted reference
       @ '' has no settled artefact in the trust store '' @ em_dash
       @ '' compile and sign it (`kennel policy compile`) so a spawn instantiates the complete signed template''))) (\<lambda>bs.
     and_then (parse_signed_settled_unverified (te_parse T) bs) (\<lambda>doc.
     and_then (settled_trusted E T trust reference bs doc) (\<lambda>_.
     and_then (map_err Spawn (spawn_eligible (doc_policy doc))) (\<lambda>_.
     and_then (check_narrowing reference entry (doc_policy doc)) (\<lambda>_.
     Inr \<lparr>st_template = reference, st_signing_key_id = env_key_id (doc_signature doc),
          st_signature = env_signature (doc_signature doc), st_mutable_narrow = unwrap_or (sa_mutable entry) []\<rparr>))))))"

fun resolve_targets :: "'kp SourceEnv \<Rightarrow> SettledEnv \<Rightarrow> Trust \<Rightarrow> SpawnAllow list \<Rightarrow> PolicyError + SpawnTemplate list" where
  "resolve_targets E T trust [] = Inr []"
| "resolve_targets E T trust (entry # es) =
     (case sa_template entry of
        None \<Rightarrow> resolve_targets E T trust es
      | Some reference \<Rightarrow>
          and_then (resolve_target E T trust reference entry) (\<lambda>t.
          and_then (resolve_targets E T trust es) (\<lambda>ts. Inr (t # ts))))"

definition resolve_grant :: "'kp SourceEnv \<Rightarrow> SettledEnv \<Rightarrow> Trust \<Rightarrow> SourcePolicy \<Rightarrow> PolicyError + SpawnGrant option" where
  "resolve_grant E T trust effective =
     (case src_spawn effective of
        None \<Rightarrow> Inr None
      | Some spawn \<Rightarrow>
          and_then (resolve_targets E T trust (list_resolved (ss_allow spawn))) (\<lambda>allow.
          Inr (Some \<lparr>sp_max_instances = unwrap_or (ss_max_instances spawn) 0, sp_allow = allow\<rparr>)))"

section \<open>Up to translation\<close>

definition unenforced_section_warnings :: "SourcePolicy \<Rightarrow> string list" where
  "unenforced_section_warnings effective =
     (let u = src_unsafe effective in
      map (\<lambda>(_, sec, what). sec @ '' is declared but NOT enforced by the runtime ('' @ what @ '') '' @ em_dash
          @ '' it is dropped at compile and has no effect'')
        (filter fst
          [(Option.bind u uns_ptrace \<noteq> None, ''[unsafe.ptrace]'', ''ptrace scoping comes from the PID namespace + seccomp, not this section''),
           (Option.bind u uns_signal \<noteq> None, ''[unsafe.signal]'', ''signal scoping comes from the PID namespace, not this section'')]))"

definition spawn_manifest_warnings :: "SourcePolicy \<Rightarrow> string list" where
  "spawn_manifest_warnings effective =
     map (\<lambda>m. ''[[mutable]] field = '' @ quoted (unwrap_or (mf_field m) ''?'') @ '' is FREEFORM '' @ em_dash
         @ '' a spawn may write any value to it, the loudest mutable surface (reason: '' @ unwrap_or (mf_reason m) []
         @ ''). Prefer a closed (oneof/pool) or shaped (pattern) constraint unless nothing narrower can express the need.'')
       (filter (\<lambda>m. mf_freeform m = Some True) (src_mutable effective))"

record Checked =
  ck_name :: string
  ck_effective :: SourcePolicy
  ck_chain :: "ChainLink list"
  ck_warnings :: "string list"
  ck_spawn :: "SpawnGrant option"

definition check_effective ::
    "'kp SourceEnv \<Rightarrow> SettledEnv \<Rightarrow> string \<Rightarrow> Trust \<Rightarrow> ProvidesOrigin \<Rightarrow> SourcePolicy \<Rightarrow> PolicyError + string list \<times> SpawnGrant option" where
  "check_effective E T socket_path trust origin effective =
     and_then (ssh_validate effective) (\<lambda>_.
     and_then (unix_validate socket_path effective) (\<lambda>w1.
     and_then (mesh_validate effective (reserved_authority origin trust)) (\<lambda>w2.
     and_then (dev_validate effective) (\<lambda>_.
     and_then (identity_validate effective) (\<lambda>_.
     and_then (resolve_grant E T trust effective) (\<lambda>grant. Inr (w1 @ w2, grant)))))))"

definition compile_checked ::
    "'kp SourceEnv \<Rightarrow> SettledEnv \<Rightarrow> string \<Rightarrow> Trust \<Rightarrow> SourcePolicy \<Rightarrow> (PolicyError + Checked) option" where
  "compile_checked E T socket_path trust entry =
     map_option (\<lambda>r. and_then r (\<lambda>c.
       and_then (ok_or (or_else (src_name (rc_effective c)) (src_template_name (rc_effective c)))
         (Translation ''policy has neither `name` nor `template_name`'')) (\<lambda>name.
       and_then (apply_includes E trust (rc_effective c) (src_include (rc_effective c))) (\<lambda>(effective, include_links).
       and_then (check_effective E T socket_path trust (rc_provides_origin c) effective) (\<lambda>(warnings, grant).
       Inr \<lparr>ck_name = name, ck_effective = effective, ck_chain = rc_chain c @ include_links,
            ck_warnings = rc_warnings c @ warnings, ck_spawn = grant\<rparr>)))))
     (resolve_verified E trust entry)"

section \<open>Where the provided capabilities come from\<close>

lemma provides_folds:
  "src_provides (fold (\<lambda>c p. fst (fold_policy p c)) cs a)
     = (case find (\<lambda>c. src_provides c \<noteq> []) (rev cs) of None \<Rightarrow> src_provides a | Some c \<Rightarrow> src_provides c)"
  by (induction cs rule: rev_induct) (simp_all add: fold_policy_sections)

lemma provides_chain:
  "src_provides (fst (fold_chain parents entry))
     = (case find (\<lambda>c. src_provides c \<noteq> []) (entry # parents) of None \<Rightarrow> [] | Some c \<Rightarrow> src_provides c)"
proof (cases parents rule: rev_cases)
  case Nil
  then show ?thesis by (simp add: fst_fold_chain chain_root_def fold_policy_sections)
next
  case (snoc ps root)
  have "find (\<lambda>c. src_provides c \<noteq> []) (ps @ [root]) = (case find (\<lambda>c. src_provides c \<noteq> []) ps of
      None \<Rightarrow> if src_provides root = [] then None else Some root | Some c \<Rightarrow> Some c)"
    by (induction ps) simp_all
  with snoc show ?thesis
    by (simp add: fst_fold_chain chain_root_def provides_folds fold_policy_sections split: option.split)
qed

lemma provides_fragments:
  "\<forall>f \<in> set frags. is_additive_only f \<Longrightarrow> src_provides (fold (\<lambda>f e. apply_fragment e f) frags e) = src_provides e"
  by (induction frags arbitrary: e) (simp_all add: apply_fragment_def fold_policy_sections is_additive_only_def)

lemma fetch_parent_check: "fetch_parent E trust n = Inr (p, l) \<Longrightarrow> Trust_check E trust n p = Inr (cl_signing_key_id l)"
  by (auto simp: fetch_parent_def and_then_Inr_iff)

lemma ancestors_find:
  "ancestors E trust e ps ls \<Longrightarrow>
   (case find (\<lambda>(p, _). P p) (zip ps ls) of
      None \<Rightarrow> find P ps = None
    | Some (q, l) \<Rightarrow> find P ps = Some q \<and> q \<in> set ps \<and> Trust_check E trust (cl_name l) q = Inr (cl_signing_key_id l))"
proof (induction E trust e ps ls rule: ancestors.induct)
  case (2 E trust e p ps l ls)
  then have "Trust_check E trust (cl_name l) p = Inr (cl_signing_key_id l)"
    by (intro fetch_parent_check) simp
  with 2 show ?case by (auto split: option.splits)
qed simp_all

lemma compile_checked_Inr:
  assumes "compile_checked E T sock trust entry = Some (Inr r)"
  obtains ps ls where "ancestors E trust entry ps ls"
    "src_provides (ck_effective r) = (case find (\<lambda>c. src_provides c \<noteq> []) (entry # ps) of None \<Rightarrow> [] | Some c \<Rightarrow> src_provides c)"
    "mesh_validate (ck_effective r) (reserved_authority (provides_origin trust entry ps ls) trust) = Inr []"
    "resolve_grant E T trust (ck_effective r) = Inr (ck_spawn r)"
proof -
  from assms obtain c eff ils ws g where c: "resolve_verified E trust entry = Some (Inr c)"
    and i: "include_loop E trust (src_include (rc_effective c)) (rc_effective c) [] [] = Inr (eff, ils)"
    and k: "check_effective E T sock trust (rc_provides_origin c) eff = Inr (ws, g)"
    and r: "ck_effective r = eff" "ck_spawn r = g"
    by (auto simp: compile_checked_def apply_includes_def and_then_Inr_iff)
  from c obtain ps ls where a: "ancestors E trust entry ps ls"
      "rc_effective c = (fst (fold_chain ps entry))\<lparr>src_template_base := None, src_template_name := src_template_name entry,
          src_name := src_name entry, src_signature := None\<rparr>"
      "rc_provides_origin c = provides_origin trust entry ps ls"
    unfolding resolve_verified_Inr_iff by blast
  from include_loop_Inr [OF i] obtain frags ls' where
      f: "list_all2 (\<lambda>r fl. fetch_fragment E trust r = Inr fl) (src_include (rc_effective c)) (zip frags ls')"
      "length ls' = length frags" "eff = fold (\<lambda>f e. apply_fragment e f) frags (rc_effective c)" by blast
  have "is_additive_only q" if "q \<in> set frags" for q
  proof -
    from that obtain j where "j < length frags" "frags ! j = q" by (auto simp: in_set_conv_nth)
    with f(1,2) have "fetch_fragment E trust (src_include (rc_effective c) ! j) = Inr (q, ls' ! j)"
      by (auto simp: list_all2_conv_all_nth)
    then show ?thesis by (simp add: fetch_fragment_Inr_iff)
  qed
  then have "src_provides eff = src_provides (fst (fold_chain ps entry))"
    by (simp add: f(3) provides_fragments a(2))
  moreover from k have "mesh_validate eff (reserved_authority (rc_provides_origin c) trust) = Inr []"
      "resolve_grant E T trust eff = Inr g"
    by (auto simp: check_effective_def and_then_Inr_iff mesh_validate_def errs_or_Inr_iff)
  ultimately show thesis using a(1,3) r that provides_chain by metis
qed

lemma provides_errors_permit:
  "provides_errors authority seen ps = [] \<Longrightarrow> p \<in> set ps \<Longrightarrow> prv_name p \<noteq> [] \<and> permits authority (prv_name p)"
  by (induction authority seen ps rule: provides_errors.induct) (auto simp: provide_name_errors_def split: if_splits)

text \<open>The spawn grant: each template is pinned to a document that is eligible, and verifies when signatures are required.\<close>

lemma resolve_targets_pins:
  "resolve_targets E T trust es = Inr ts \<Longrightarrow> t \<in> set ts \<Longrightarrow>
   \<exists>entry \<in> set es. sa_template entry = Some (st_template t) \<and> resolve_target E T trust (st_template t) entry = Inr t"
proof (induction es arbitrary: ts)
  case (Cons entry es)
  show ?case
  proof (cases "sa_template entry")
    case None
    with Cons show ?thesis by auto
  next
    case (Some reference)
    with Cons.prems(1) obtain u us where u: "resolve_target E T trust reference entry = Inr u"
        "resolve_targets E T trust es = Inr us" "ts = u # us"
      by (auto simp: and_then_Inr_iff)
    have "st_template u = reference" using u(1) by (auto simp: resolve_target_def and_then_Inr_iff)
    with u Some Cons.prems(2) Cons.IH [OF u(2)] show ?thesis by auto
  qed
qed simp

lemma resolve_target_pinned:
  assumes "resolve_target E T trust reference entry = Inr t" "tr_mode trust = Require" "tr_keys trust = Some keys"
  obtains bs p where "te_fetch T reference = Some bs" "spawn_eligible p = Inr ()"
    "verify_pinned (se_crypto E) (te_parse T) (te_print T) bs keys (st_signing_key_id t) (st_signature t) = Inr p"
    "set (st_mutable_narrow t) \<subseteq> set (map va_field (sp_manifest p))"
proof -
  from assms obtain bs doc where d: "te_fetch T reference = Some bs" "te_parse T bs = Inr doc"
      "settled_trusted E T trust reference bs doc = Inr ()" "spawn_eligible (doc_policy doc) = Inr ()"
      "check_narrowing reference entry (doc_policy doc) = Inr ()"
    and t: "st_signing_key_id t = env_key_id (doc_signature doc)" "st_signature t = env_signature (doc_signature doc)"
      "st_mutable_narrow t = unwrap_or (sa_mutable entry) []"
    by (auto simp: resolve_target_def and_then_Inr_iff ok_or_Inr_iff map_err_Inr_iff parse_reference_Inr_iff
        parse_signed_settled_unverified_def)
  from d(3) assms(2,3) obtain q where "verify_settled (se_crypto E) (te_parse T) (te_print T) bs keys = Inr q"
    by (auto simp: settled_trusted_def and_then_Inr_iff split: if_splits)
  with d(2) have "verify_doc (se_crypto E) (te_print T) doc keys = Inr (doc_policy doc)"
    by (auto simp: verify_settled_def and_then_Inr_iff map_err_Inr_iff verify_doc_def)
  then have "verify_pinned (se_crypto E) (te_parse T) (te_print T) bs keys (st_signing_key_id t) (st_signature t) = Inr (doc_policy doc)"
    using d(2) t by (simp add: verify_pinned_def and_then_def map_err_def)
  moreover have "set (st_mutable_narrow t) \<subseteq> set (map va_field (sp_manifest (doc_policy doc)))"
    using d(5) t(3) by (auto simp: check_narrowing_def unwrap_or_def find_None_iff split: option.splits)
  ultimately show thesis using d(1,4) that by blast
qed

section \<open>Properties\<close>

definition bus_template :: SourcePolicy where
  "bus_template = empty_source\<lparr>src_template_name := Some ''bus'',
     src_provides := [\<lparr>prv_name = ''org.projectkennel.bus'', prv_shape = AfUnix, prv_endpoint = None, prv_key = None,
       prv_reason = Some ''session bus'', prv_threats = None\<rparr>]\<rparr>"

definition vendor_trust :: Trust where
  "vendor_trust = with_signing_key (Some ''site'') (with_tiers [''site''] [] (Trust_require demo_keys))"

definition no_settled :: SettledEnv where
  "no_settled = \<lparr>te_fetch = (\<lambda>_. None), te_parse = (\<lambda>_. Inl []), te_print = (\<lambda>_. Inl [])\<rparr>"

lemma bus_template_sections:
  "src_template_base bus_template = None" "src_name bus_template = None" "src_template_name bus_template = Some ''bus''"
  "src_include bus_template = []" "src_ssh bus_template = None" "src_unix bus_template = None" "src_fs bus_template = None"
  "src_identity bus_template = None" "src_spawn bus_template = None" "src_consumes bus_template = ListSet []"
  by (simp_all add: bus_template_def empty_source_def)

lemma bus_template_valid: "validate_source bus_template = Inr ()"
  by (simp add: validate_source_ok_iff source_checks bus_template_def empty_source_def dbus_allows_def)

lemma bus_template_compiles:
  "\<exists>r. compile_checked site_env no_settled [] vendor_trust bus_template = Some (Inr r)
     \<and> src_provides (ck_effective r) = src_provides bus_template"
proof -
  define e where "e = (fst (fold_policy bus_template bus_template))\<lparr>src_template_base := None,
    src_template_name := Some ''bus'', src_name := None, src_signature := None\<rparr>"
  have w: "walk site_env vendor_trust [] [] [] bus_template = Some (Inr ([], []))"
    by (simp add: walk.simps bus_template_sections)
  have sec: "src_ssh e = None" "src_unix e = None" "src_fs e = None" "src_identity e = None" "src_spawn e = None"
      "src_provides e = src_provides bus_template" "src_consumes e = ListSet []" "src_include e = []"
      "src_name e = None" "src_template_name e = Some ''bus''"
    by (simp_all add: e_def fold_policy_sections merge_cases bus_template_sections fold_listfield_def)
      (simp add: fold_policy_def Let_def case_prod_beta union_strings_def push_new_def bus_template_sections)
  have o: "provides_origin vendor_trust bus_template [] [] = Entry" by (simp add: provides_origin_def bus_template_def)
  have "permits (reserved_authority Entry vendor_trust) ''org.projectkennel.bus''"
    by (simp add: permits_def required_tier_def RESERVED_PREFIX_def reserved_authority_def vendor_trust_def with_signing_key_def
        with_tiers_def Trust_require_def signing_tier_def tier_of_def starts_with_def Let_def)
  then have "mesh_validate e (reserved_authority Entry vendor_trust) = Inr []"
    by (simp add: mesh_validate_def sec bus_template_def provide_name_errors_def provide_endpoint_errors_def opt_list_def
        unwrap_or_def errs_or_def)
  then have "check_effective site_env no_settled [] vendor_trust Entry e = Inr ([], None)"
    by (simp add: check_effective_def and_then_def ssh_validate_def unix_validate_def dev_validate_def identity_validate_def
        resolve_grant_def sec)
  moreover have "resolve_verified site_env vendor_trust bus_template = Some (Inr \<lparr>rc_effective = e, rc_chain = [],
      rc_provides_origin = Entry, rc_warnings = snd (fold_chain [] bus_template)\<rparr>)"
    by (simp add: resolve_verified_def bus_template_valid w and_then_def case_prod_beta Let_def o e_def
        bus_template_sections fold_chain_def fst_fold_step)
  ultimately show ?thesis
    by (simp add: compile_checked_def and_then_def ok_or_def sec apply_includes_def)
qed

text \<open>C10. Reserved capability names are claimed with the authority they require: with a trust store and a known
  output key, a policy that compiles and provides a name under a reserved prefix takes all it provides
  from one artefact, and that is the entry, compiled with a key of the tier the name requires, or an
  ancestor whose signature by a key of that tier verified.\<close>

theorem reserved_names_need_tier:
  assumes "compile_checked E T sock trust entry = Some (Inr r)"
    and "tr_keys trust = Some keys" "tr_signing_key trust = Some sk"
    and "p \<in> set (src_provides (ck_effective r))"
    and "required_tier (reserved_authority Entry trust) (prv_name p) = Some req"
  shows "src_provides (ck_effective r) = src_provides entry \<and> tier_of trust sk \<ge> req
    \<or> (\<exists>parents links q k. ancestors E trust entry parents links \<and> q \<in> set parents
         \<and> src_provides (ck_effective r) = src_provides q \<and> source_authentic E keys q k \<and> tier_of trust k \<ge> req)"
proof -
  from assms(1) obtain ps ls where a: "ancestors E trust entry ps ls"
    and e: "src_provides (ck_effective r) = (case find (\<lambda>c. src_provides c \<noteq> []) (entry # ps) of None \<Rightarrow> [] | Some c \<Rightarrow> src_provides c)"
    and m: "mesh_validate (ck_effective r) (reserved_authority (provides_origin trust entry ps ls) trust) = Inr []"
    by (rule compile_checked_Inr)
  define auth where "auth = reserved_authority (provides_origin trust entry ps ls) trust"
  have s: "signing_tier trust = Some (tier_of trust sk)" using assms(3) by (simp add: signing_tier_def)
  have "permits auth (prv_name p)"
    using m assms(4) by (auto simp: mesh_validate_def errs_or_Inr_iff auth_def dest: provides_errors_permit)
  moreover have "ra_enforce auth" "required_tier auth (prv_name p) = Some req"
    using assms(2,5) s by (simp_all add: auth_def reserved_authority_def Let_def required_tier_def split: if_splits)
  ultimately obtain t where t: "ra_declaring_tier auth = Some t" "t \<ge> req" by (auto simp: permits_def split: option.splits)
  show ?thesis
  proof (cases "src_provides entry = []")
    case False
    then have "t = tier_of trust sk" using t(1) s by (simp add: auth_def reserved_authority_def provides_origin_def Let_def)
    then show ?thesis using False e t(2) by simp
  next
    case True
    note find = ancestors_find [OF a, of "\<lambda>c. src_provides c \<noteq> []"]
    from t(1) True obtain q l k where q: "find (\<lambda>(c, _). src_provides c \<noteq> []) (zip ps ls) = Some (q, l)"
        "cl_signing_key_id l = Some k" "t = tier_of trust k"
      by (auto simp: auth_def reserved_authority_def provides_origin_def Let_def split: option.splits)
    with find have f: "find (\<lambda>c. src_provides c \<noteq> []) ps = Some q" "q \<in> set ps" "Trust_check E trust (cl_name l) q = Inr (Some k)"
      by simp_all
    from f(3) assms(2) have "source_authentic E keys q k" by (auto elim: Trust_check_key)
    then show ?thesis using a f(1,2) e t(2) q(3) True by auto
  qed
qed

theorem reserved_names_need_tier_witness:
  "tier_of vendor_trust ''site'' \<ge> Vendor \<and> ''org.projectkennel.bus'' \<in> set (map prv_name (src_provides bus_template))"
proof -
  from bus_template_compiles obtain r where r: "compile_checked site_env no_settled [] vendor_trust bus_template = Some (Inr r)"
      "src_provides (ck_effective r) = src_provides bus_template" by blast
  define p where "p = hd (src_provides bus_template)"
  have p: "p \<in> set (src_provides (ck_effective r))" "prv_name p = ''org.projectkennel.bus''"
    by (simp_all add: r(2) p_def bus_template_def)
  have t: "tr_keys vendor_trust = Some demo_keys" "tr_signing_key vendor_trust = Some ''site''"
      "required_tier (reserved_authority Entry vendor_trust) (prv_name p) = Some Vendor"
    by (simp_all add: vendor_trust_def with_signing_key_def with_tiers_def Trust_require_def p(2) required_tier_def
        RESERVED_PREFIX_def starts_with_def)
  have "ancestors site_env vendor_trust bus_template ps ls \<Longrightarrow> ps = []" for ps ls
    by (cases ps) (simp_all add: ancestors_Cons bus_template_sections)
  with reserved_names_need_tier [OF r(1) t(1,2) p(1) t(3)] have "tier_of vendor_trust ''site'' \<ge> Vendor" by fastforce
  then show ?thesis by (simp add: bus_template_def)
qed

end
