(* ===== verification/Spawn_Gate.thy ===== *)
theory Spawn_Gate
  imports Policy_Verify Kennel_Registry Egress_Service
begin

text \<open>
  The \<open>SPAWN\<close> and \<open>SPAWN_QUERY\<close> verbs of the daemon (\<open>kenneld/src/spawn.rs\<close>): from the bytes of a
  request to the instance handed to construction, the reply and the slot account.  File reads, the
  socket pair, the pipe and descriptor duplication are results the environment supplies; the
  constructor's job is part of the result.
\<close>

section \<open>Slots\<close>

type_synonym fd = nat

definition sat_succ :: "u32 \<Rightarrow> u32" where
  "sat_succ n = (if n = - 1 then n else n + 1)"

text \<open>One round of the check-and-claim when no other thread interferes.\<close>

definition claim_slot :: "u32 \<Rightarrow> u32 \<Rightarrow> u32 option" where
  "claim_slot live ceiling = (if live \<ge> ceiling then None else Some (sat_succ live))"

definition drop_slot :: "u32 \<Rightarrow> u32" where
  "drop_slot live = live - 1"

section \<open>The runtime of a grant\<close>

record SpawnRuntime =
  rt_grant :: SpawnGrant
  rt_keys :: KeySet
  rt_template_dirs :: "string list"
  rt_live :: u32
  rt_parent_alive :: bool
  rt_caps_body :: "string option"

definition SpawnRuntime_new :: "SpawnGrant \<Rightarrow> KeySet \<Rightarrow> string list \<Rightarrow> SpawnRuntime" where
  "SpawnRuntime_new grant keys template_dirs =
     \<lparr>rt_grant = grant, rt_keys = keys, rt_template_dirs = template_dirs, rt_live = 0,
      rt_parent_alive = True, rt_caps_body = None\<rparr>"

record SpawnEnv =
  env_read :: "string \<Rightarrow> bytes option"
  env_socketpair :: "string + fd \<times> fd"
  env_pipe :: "string + fd \<times> fd"
  env_dup :: "fd \<Rightarrow> fd option"

record 'kp SpawnTools =
  tl_crypto :: "'kp Crypto"
  tl_parse :: toml_reader
  tl_print :: toml_writer

record Channel =
  spawned_rpc :: fd
  spawned_stderr :: fd

datatype SpawnDenyReason =
    MalformedSpawn
  | NotGranted string
  | NotInStore string
  | RefusedPolicy PolicyError
  | OutsideNarrowed string
  | CeilingIsFull u32
  | MintFailed string

record Deny =
  deny_status :: u8
  deny_reason :: SpawnDenyReason

definition status_CEILING_FULL :: u8 where "status_CEILING_FULL = 6"

definition deny :: "u8 \<Rightarrow> SpawnDenyReason \<Rightarrow> Deny" where
  "deny status reason = \<lparr>deny_status = status, deny_reason = reason\<rparr>"

definition mint :: "SpawnEnv \<Rightarrow> string + fd list \<times> Channel" where
  "mint env =
     and_then (env_socketpair env) (\<lambda>(requester_rpc, rpc).
     and_then (env_pipe env) (\<lambda>(stderr_read, stderr_write).
     Inr ([requester_rpc, stderr_read], \<lparr>spawned_rpc = rpc, spawned_stderr = stderr_write\<rparr>)))"

definition template_version :: "string \<Rightarrow> string \<times> string" where
  "template_version reference = (case split_once (CHR ''@'') reference of Some nv \<Rightarrow> nv | None \<Rightarrow> (reference, ''v1''))"

definition resolve_template :: "(string \<Rightarrow> bytes option) \<Rightarrow> string list \<Rightarrow> string \<Rightarrow> bytes option" where
  "resolve_template read dirs reference =
     (case template_version reference of (name, version) \<Rightarrow>
        find_map (\<lambda>dir. or_else (read (path_join dir (name @ ''@'' @ version @ ''.settled.toml'')))
                                 (read (path_join (path_join dir name) (name @ ''.settled.toml'')))) dirs)"

fun build_patch :: "SpawnTemplate \<Rightarrow> (string \<times> string) list \<Rightarrow> SpawnDenyReason + PatchEntry list" where
  "build_patch pin [] = Inr []"
| "build_patch pin ((field, val) # pairs) =
     (if st_mutable_narrow pin \<noteq> [] \<and> \<not> List.member (st_mutable_narrow pin) field
      then Inl (OutsideNarrowed field)
      else and_then (build_patch pin pairs) (\<lambda>entries. Inr (\<lparr>pe_field = field, pe_value = val\<rparr> # entries)))"

text \<open>Steps 1 to 6 of the pipeline, which touch no shared state.\<close>

definition validate_spawn ::
    "'kp SpawnTools \<Rightarrow> SpawnEnv \<Rightarrow> SpawnRuntime \<Rightarrow> bytes \<Rightarrow> Deny + SettledPolicy" where
  "validate_spawn tools env rt data =
     and_then (ok_or (spawn_decode_request data) (deny status_BAD_REQUEST MalformedSpawn)) (\<lambda>(template_ref, patch_pairs).
     and_then (ok_or (find (\<lambda>t. st_template t = template_ref) (sp_allow (rt_grant rt)))
                     (deny status_DENIED (NotGranted template_ref))) (\<lambda>pin.
     and_then (ok_or (resolve_template (env_read env) (rt_template_dirs rt) template_ref)
                     (deny status_DENIED (NotInStore template_ref))) (\<lambda>bs.
     and_then (map_err (\<lambda>e. deny status_DENIED (RefusedPolicy e))
                (verify_pinned (tl_crypto tools) (tl_parse tools) (tl_print tools) bs (rt_keys rt)
                   (st_signing_key_id pin) (st_signature pin))) (\<lambda>template.
     and_then (map_err (\<lambda>e. deny status_DENIED (RefusedPolicy (Spawn e))) (spawn_eligible template)) (\<lambda>_.
     and_then (map_err (deny status_DENIED) (build_patch pin patch_pairs)) (\<lambda>entries.
     map_err (\<lambda>e. deny status_DENIED (RefusedPolicy (Patch e))) (instantiate template entries)))))))"

definition validate_and_mint ::
    "'kp SpawnTools \<Rightarrow> SpawnEnv \<Rightarrow> SpawnRuntime \<Rightarrow> bytes \<Rightarrow>
     (Deny + SettledPolicy \<times> fd list \<times> Channel) \<times> SpawnRuntime" where
  "validate_and_mint tools env rt data =
     (case validate_spawn tools env rt data of
        Inl d \<Rightarrow> (Inl d, rt)
      | Inr inst \<Rightarrow>
          (case claim_slot (rt_live rt) (sp_max_instances (rt_grant rt)) of
             None \<Rightarrow> (Inl (deny status_CEILING_FULL (CeilingIsFull (sp_max_instances (rt_grant rt)))), rt)
           | Some live \<Rightarrow>
               (case mint env of
                  Inl e \<Rightarrow> (Inl (deny status_DENIED (MintFailed e)), rt\<lparr>rt_live := drop_slot live\<rparr>)
                | Inr (requester_ends, channel) \<Rightarrow>
                    (Inr (inst, requester_ends, channel), rt\<lparr>rt_live := live\<rparr>))))"

section \<open>The verbs\<close>

datatype SpawnReply = SpawnData bytes | SpawnDataAndFds bytes "fd list"

datatype SpawnDetail = NoGrant | StdioDupFailed | Spawned string | SpawnDenied SpawnDenyReason | Interrogated

record SpawnJob =
  job_instance :: SettledPolicy
  job_stdio :: "fd list"
  job_name :: string

record SpawnOutcome =
  so_reply :: SpawnReply
  so_job :: "SpawnJob option"
  so_event :: "Outcome \<times> SpawnDetail"

definition refuse :: "u8 \<Rightarrow> SpawnDetail \<Rightarrow> SpawnOutcome" where
  "refuse status detail =
     \<lparr>so_reply = SpawnData (spawn_encode_reply status []), so_job = None, so_event = (OutDeny, detail)\<rparr>"

text \<open>The state a \<open>SPAWN\<close> changes: the runtime of the grant and the process-wide name counter.\<close>

definition handle_spawn ::
    "'kp SpawnTools \<Rightarrow> SpawnEnv \<Rightarrow> SpawnRuntime option \<Rightarrow> bytes \<Rightarrow> u16 \<Rightarrow> u64 \<Rightarrow>
     SpawnOutcome \<times> SpawnRuntime option \<times> u64" where
  "handle_spawn tools env rt data ctx counter =
     (case rt of
        None \<Rightarrow> (refuse status_DENIED NoGrant, None, counter)
      | Some rt \<Rightarrow>
          (case validate_and_mint tools env rt data of
             (Inl d, rt') \<Rightarrow> (refuse (deny_status d) (SpawnDenied (deny_reason d)), Some rt', counter)
           | (Inr (inst, requester_ends, channel), rt') \<Rightarrow>
               (case env_dup env (spawned_rpc channel) of
                  None \<Rightarrow> (refuse status_DENIED StdioDupFailed,
                           Some (rt'\<lparr>rt_live := drop_slot (rt_live rt')\<rparr>), counter)
                | Some stdout \<Rightarrow>
                    let name = spawn_name ctx counter in
                    (\<lparr>so_reply = SpawnDataAndFds (spawn_encode_reply status_OK name) requester_ends,
                      so_job = Some \<lparr>job_instance = inst,
                                     job_stdio = [spawned_rpc channel, stdout, spawned_stderr channel],
                                     job_name = name\<rparr>,
                      so_event = (OutAllow, Spawned name)\<rparr>, Some rt', counter + 1))))"

section \<open>The caps listing\<close>

definition newline :: string where "newline = [CHR 0x0A]"

fun join_comma :: "string list \<Rightarrow> string" where
  "join_comma [] = []"
| "join_comma [s] = s"
| "join_comma (s # t # ss) = s @ '', '' @ join_comma (t # ss)"

definition less_equal_sign :: string where
  "less_equal_sign = [char_of_byte 0xe2, char_of_byte 0x89, char_of_byte 0xa4]"

definition em_dash :: string where
  "em_dash = [char_of_byte 0xe2, char_of_byte 0x80, char_of_byte 0x94]"

definition describe_constraint :: "Variant \<Rightarrow> string" where
  "describe_constraint v =
     (case Variant_resolve v of
        Inr (OneOf vs) \<Rightarrow> ''oneof {'' @ join_comma vs @ ''}''
      | Inr (Pool vs m) \<Rightarrow> ''pool: append '' @ less_equal_sign @ show_dec (unat m) @ '' from {'' @ join_comma vs @ ''}''
      | Inr (Pattern _) \<Rightarrow> ''pattern {'' @ join_comma (va_pattern v) @ ''}''
      | Inr (Relpath root) \<Rightarrow> ''relpath under '' @ root
      | Inr (Freeform _) \<Rightarrow> ''freeform (any value '' @ em_dash @ '' loud)''
      | Inl _ \<Rightarrow> ''(malformed constraint)'')"

definition caps_fields :: "SpawnTemplate \<Rightarrow> SettledPolicy \<Rightarrow> Variant list" where
  "caps_fields pin tpl =
     filter (\<lambda>v. \<not> (st_mutable_narrow pin \<noteq> [] \<and> \<not> List.member (st_mutable_narrow pin) (va_field v))) (sp_manifest tpl)"

definition render_pin :: "'kp SpawnTools \<Rightarrow> SpawnEnv \<Rightarrow> SpawnRuntime \<Rightarrow> SpawnTemplate \<Rightarrow> string" where
  "render_pin tools env rt pin =
     (case resolve_template (env_read env) (rt_template_dirs rt) (st_template pin) of
        None \<Rightarrow> ''  '' @ st_template pin @ ''  (unavailable: not in the trust store)'' @ newline
      | Some bs \<Rightarrow>
          (case verify_pinned (tl_crypto tools) (tl_parse tools) (tl_print tools) bs (rt_keys rt)
                  (st_signing_key_id pin) (st_signature pin) of
             Inl _ \<Rightarrow> ''  '' @ st_template pin @ ''  (unavailable: content-pin mismatch)'' @ newline
           | Inr tpl \<Rightarrow>
               ''  '' @ st_template pin @ newline
               @ (if caps_fields pin tpl = []
                  then ''    (no mutable fields '' @ em_dash @ '' spawned exactly as signed)'' @ newline
                  else concat (map (\<lambda>v. ''    '' @ va_field v @ ''  '' @ describe_constraint v @ newline)
                                   (caps_fields pin tpl)))))"

definition render_caps_body :: "'kp SpawnTools \<Rightarrow> SpawnEnv \<Rightarrow> SpawnRuntime \<Rightarrow> string" where
  "render_caps_body tools env rt =
     (if sp_allow (rt_grant rt) = [] then ''  (no templates allowed)'' @ newline
      else concat (map (render_pin tools env rt) (sp_allow (rt_grant rt))))"

text \<open>The body is computed once for the life of the runtime.\<close>

definition render_caps :: "'kp SpawnTools \<Rightarrow> SpawnEnv \<Rightarrow> SpawnRuntime \<Rightarrow> string \<times> SpawnRuntime" where
  "render_caps tools env rt =
     (let body = (case rt_caps_body rt of Some b \<Rightarrow> b | None \<Rightarrow> render_caps_body tools env rt)
      in (''spawn grant: max_instances '' @ show_dec (unat (sp_max_instances (rt_grant rt)))
          @ '', live '' @ show_dec (unat (rt_live rt)) @ newline @ body,
          rt\<lparr>rt_caps_body := Some body\<rparr>))"

definition no_grant_text :: string where
  "no_grant_text = ''this kennel holds no [spawn] grant '' @ em_dash @ '' nothing to spawn''"

definition handle_spawn_query ::
    "'kp SpawnTools \<Rightarrow> SpawnEnv \<Rightarrow> SpawnRuntime option \<Rightarrow> SpawnOutcome \<times> SpawnRuntime option" where
  "handle_spawn_query tools env rt =
     (case rt of
        None \<Rightarrow> (\<lparr>so_reply = SpawnData (spawn_encode_reply status_DENIED no_grant_text), so_job = None,
                  so_event = (OutDeny, NoGrant)\<rparr>, None)
      | Some rt \<Rightarrow>
          (case render_caps tools env rt of (listing, rt') \<Rightarrow>
             (\<lparr>so_reply = SpawnData (spawn_encode_reply status_OK listing), so_job = None,
               so_event = (OutAllow, Interrogated)\<rparr>, Some rt')))"

section \<open>What the gate checks\<close>

lemma build_patch_Inr:
  "build_patch pin pairs = Inr entries \<Longrightarrow>
     entries = map (\<lambda>(f, v). \<lparr>pe_field = f, pe_value = v\<rparr>) pairs
     \<and> (st_mutable_narrow pin = [] \<or> fst ` set pairs \<subseteq> set (st_mutable_narrow pin))"
  by (induction pin pairs arbitrary: entries rule: build_patch.induct)
    (auto simp: and_then_Inr_iff List.member_iff split: if_splits)

lemma validate_spawn_InrE:
  assumes "validate_spawn tools env rt data = Inr inst"
  obtains template_ref pairs pin bs doc entries where
    "spawn_decode_request data = Some (template_ref, pairs)"
    "pin \<in> set (sp_allow (rt_grant rt))" "st_template pin = template_ref"
    "resolve_template (env_read env) (rt_template_dirs rt) template_ref = Some bs" "tl_parse tools bs = Inr doc"
    "env_key_id (doc_signature doc) = st_signing_key_id pin" "env_signature (doc_signature doc) = st_signature pin"
    "verify_doc (tl_crypto tools) (tl_print tools) doc (rt_keys rt) = Inr (doc_policy doc)"
    "spawn_eligible (doc_policy doc) = Inr ()"
    "entries = map (\<lambda>(f, v). \<lparr>pe_field = f, pe_value = v\<rparr>) pairs"
    "st_mutable_narrow pin = [] \<or> fst ` set pairs \<subseteq> set (st_mutable_narrow pin)"
    "instantiate (doc_policy doc) entries = Inr inst"
proof -
  from assms obtain template_ref pairs pin bs template entries where
    d: "spawn_decode_request data = Some (template_ref, pairs)"
    and f: "find (\<lambda>t. st_template t = template_ref) (sp_allow (rt_grant rt)) = Some pin"
    and r: "resolve_template (env_read env) (rt_template_dirs rt) template_ref = Some bs"
    and v: "verify_pinned (tl_crypto tools) (tl_parse tools) (tl_print tools) bs (rt_keys rt)
              (st_signing_key_id pin) (st_signature pin) = Inr template"
    and e: "spawn_eligible template = Inr ()" and b: "build_patch pin pairs = Inr entries"
    and i: "instantiate template entries = Inr inst"
    by (auto simp: validate_spawn_def and_then_Inr_iff ok_or_Inr_iff map_err_Inr_iff split: prod.splits)
  from f have pin: "pin \<in> set (sp_allow (rt_grant rt))" "st_template pin = template_ref"
    using nth_mem by (auto simp: find_Some_iff)
  from v obtain doc where doc: "tl_parse tools bs = Inr doc" "env_key_id (doc_signature doc) = st_signing_key_id pin"
    "env_signature (doc_signature doc) = st_signature pin"
    and vd: "verify_doc (tl_crypto tools) (tl_print tools) doc (rt_keys rt) = Inr template"
    by (auto simp: verify_pinned_Inr_iff)
  from vd have "template = doc_policy doc" by (simp add: verify_doc_ok_iff)
  with that d pin r doc vd e i build_patch_Inr [OF b] show thesis by blast
qed

lemma claim_slot_Some_iff: "claim_slot live ceiling = Some live' \<longleftrightarrow> live < ceiling \<and> live' = live + 1"
  by (auto simp: claim_slot_def sat_succ_def)

lemma unat_claim: "live < (ceiling :: u32) \<Longrightarrow> unat (live + 1) = unat live + 1"
proof -
  assume "live < ceiling"
  then have "unat live + 1 < 2 ^ 32"
    using unsigned_less [of ceiling, where 'a = nat] by (simp add: word_less_nat_alt)
  then show ?thesis by (simp add: unat_word_ariths)
qed

lemma handle_spawn_job:
  assumes "handle_spawn tools env (Some rt) data ctx counter = (out, rt', counter')" "so_job out = Some job"
  shows "validate_spawn tools env rt data = Inr (job_instance job)"
    "rt_live rt < sp_max_instances (rt_grant rt)" "rt' = Some (rt\<lparr>rt_live := rt_live rt + 1\<rparr>)"
    "job_name job = spawn_name ctx counter" "counter' = counter + 1"
  using assms
  by (auto simp: handle_spawn_def validate_and_mint_def claim_slot_Some_iff refuse_def Let_def
    split: sum.splits option.splits prod.splits)

lemma handle_spawn_no_job:
  assumes "handle_spawn tools env (Some rt) data ctx counter = (out, rt', counter')" "so_job out = None"
  shows "rt' = Some rt" "counter' = counter"
  using assms
  by (auto simp: handle_spawn_def validate_and_mint_def claim_slot_Some_iff refuse_def Let_def drop_slot_def
    split: sum.splits option.splits prod.splits)

section \<open>The system of one requester\<close>

text \<open>The running kennels of a requester next to its runtime and the name counter, which other requesters
  advance as well.\<close>

record SpawnSystem =
  ss_rt :: SpawnRuntime
  ss_counter :: u64
  ss_running :: "(string \<times> SettledPolicy) list"

definition started :: "SpawnJob option \<Rightarrow> (string \<times> SettledPolicy) list" where
  "started j = (case j of None \<Rightarrow> [] | Some job \<Rightarrow> [(job_name job, job_instance job)])"

inductive spawn_step :: "'kp SpawnTools \<Rightarrow> u16 \<Rightarrow> SpawnSystem \<Rightarrow> SpawnSystem \<Rightarrow> bool" for tools ctx where
  Request: "handle_spawn tools env (Some (ss_rt s)) data ctx (ss_counter s) = (out, Some rt', counter') \<Longrightarrow>
     spawn_step tools ctx s \<lparr>ss_rt = rt', ss_counter = counter', ss_running = ss_running s @ started (so_job out)\<rparr>"
| Query: "handle_spawn_query tools env (Some (ss_rt s)) = (out, Some rt') \<Longrightarrow>
     spawn_step tools ctx s (s\<lparr>ss_rt := rt'\<rparr>)"
| Exit: "ss_running s = xs @ k # ys \<Longrightarrow>
     spawn_step tools ctx s (s\<lparr>ss_rt := (ss_rt s)\<lparr>rt_live := drop_slot (rt_live (ss_rt s))\<rparr>, ss_running := xs @ ys\<rparr>)"
| Other: "spawn_step tools ctx s (s\<lparr>ss_counter := counter'\<rparr>)"

definition spawn_start :: "SpawnGrant \<Rightarrow> KeySet \<Rightarrow> string list \<Rightarrow> SpawnSystem \<Rightarrow> bool" where
  "spawn_start grant keys dirs s \<longleftrightarrow> ss_rt s = SpawnRuntime_new grant keys dirs \<and> ss_running s = []"

definition spawn_system_ok :: "SpawnGrant \<Rightarrow> SpawnSystem \<Rightarrow> bool" where
  "spawn_system_ok grant s \<longleftrightarrow> rt_grant (ss_rt s) = grant
     \<and> unat (rt_live (ss_rt s)) = length (ss_running s)
     \<and> length (ss_running s) \<le> unat (sp_max_instances grant)
     \<and> list_all (\<lambda>(_, p). spawn_eligible p = Inr ()) (ss_running s)"

lemma unat_drop_slot: "0 < unat live \<Longrightarrow> unat (drop_slot live) = unat live - 1"
  by (simp add: drop_slot_def unat_minus_one unat_gt_0)

lemma query_keeps:
  "handle_spawn_query tools env (Some rt) = (out, Some rt') \<Longrightarrow> rt_grant rt' = rt_grant rt \<and> rt_live rt' = rt_live rt"
  by (auto simp: handle_spawn_query_def render_caps_def Let_def)

lemma validated_eligible: "validate_spawn tools env rt data = Inr inst \<Longrightarrow> spawn_eligible inst = Inr ()"
  by (erule validate_spawn_InrE) (simp add: instance_eligible)

lemma request_keeps_ok:
  assumes "spawn_system_ok grant s"
    and h: "handle_spawn tools env (Some (ss_rt s)) data ctx (ss_counter s) = (out, Some rt', counter')"
  shows "spawn_system_ok grant \<lparr>ss_rt = rt', ss_counter = counter', ss_running = ss_running s @ started (so_job out)\<rparr>"
proof (cases "so_job out")
  case None
  with assms handle_spawn_no_job [OF h None] show ?thesis by (simp add: spawn_system_ok_def started_def)
next
  case (Some job)
  note j = handle_spawn_job [OF h Some]
  then have "unat (rt_live (ss_rt s)) < unat (sp_max_instances grant)"
    using assms(1) by (simp add: spawn_system_ok_def word_less_nat_alt)
  with assms(1) j Some show ?thesis
    by (simp add: spawn_system_ok_def started_def unat_claim [OF j(2)] validated_eligible [OF j(1)])
qed

lemma spawn_step_ok:
  assumes "spawn_step tools ctx s s'" "spawn_system_ok grant s"
  shows "spawn_system_ok grant s'"
  using assms
proof (induction rule: spawn_step.induct)
  case (Request env s data out rt' counter')
  then show ?case by (blast intro: request_keeps_ok)
next
  case (Query env s out rt')
  then show ?case using query_keeps [OF Query.hyps] by (simp add: spawn_system_ok_def)
next
  case (Exit s xs k ys)
  then show ?case by (auto simp: spawn_system_ok_def unat_drop_slot)
next
  case (Other s counter')
  then show ?case by (simp add: spawn_system_ok_def)
qed

lemma spawn_reach_ok:
  "reach (spawn_start grant keys dirs) (spawn_step tools ctx) s \<Longrightarrow> spawn_system_ok grant s"
proof (induction rule: reach_invariant)
  case (init s)
  then show ?case by (simp add: spawn_start_def spawn_system_ok_def SpawnRuntime_new_def)
next
  case (step s s')
  then show ?case using spawn_step_ok by blast
qed

section \<open>An example grant\<close>

text \<open>One template, pinned to its signature and narrowed to \<open>fs.write\<close>, two instances at most.\<close>

definition demo_pin :: SpawnTemplate where
  "demo_pin = \<lparr>st_template = ''tool'', st_signing_key_id = ''site'',
     st_signature = env_signature (doc_signature (demo_doc work_template)), st_mutable_narrow = [''fs.write'']\<rparr>"

definition demo_rt :: SpawnRuntime where
  "demo_rt = SpawnRuntime_new \<lparr>sp_max_instances = 2, sp_allow = [demo_pin]\<rparr> demo_keys [''/t'']"

definition demo_env :: SpawnEnv where
  "demo_env = \<lparr>env_read = (\<lambda>p. if p = ''/t/tool@v1.settled.toml'' then Some [] else None),
     env_socketpair = Inr (10, 11), env_pipe = Inr (12, 13), env_dup = (\<lambda>_. Some 14)\<rparr>"

definition demo_tools :: "unit SpawnTools" where
  "demo_tools = \<lparr>tl_crypto = demo_crypto, tl_parse = (\<lambda>_. Inr (demo_doc work_template)), tl_print = demo_print\<rparr>"

definition demo_data :: bytes where
  "demo_data = spawn_encode_request ''tool'' [(''fs.write'', ''sub/out'')]"

definition demo_instance :: SettledPolicy where
  "demo_instance = floor_policy\<lparr>sp_effective_policy := (sp_effective_policy floor_policy)
       \<lparr>ep_fs := (fs_of floor_policy)\<lparr>fs_write := [''~/work/sub/out'']\<rparr>\<rparr>\<rparr>"

lemma demo_decode: "spawn_decode_request demo_data = Some (''tool'', [(''fs.write'', ''sub/out'')])"
  unfolding spawn_decode_request_iff
  by (simp add: demo_data_def spawn_encode_request_def put_str_def put_counted_def put_count_def put_patch_pair_def
    put_items_def put_u16_def counted_def valid_patch_pair_def valid_str_def is_str_def as_bytes_def byte_of_char_def)

lemma demo_verified:
  "verify_pinned demo_crypto (\<lambda>_. Inr (demo_doc work_template)) demo_print [] demo_keys
     (st_signing_key_id demo_pin) (st_signature demo_pin) = Inr work_template"
proof -
  have "check_schema_version (sp_schema_version work_template) = Inr ()" "validate work_template = Inr ()"
    using floor_policy_accepted by (simp_all add: work_template_def validate_ok_iff Let_def)
  from sign_settled_verifies [OF demo_laws(1,2,3) this] show ?thesis
    by (simp add: verify_pinned_Inr_iff demo_pin_def) (simp add: demo_doc_def)
qed

lemma demo_eligible: "spawn_eligible work_template = Inr ()"
  by (simp add: spawn_eligible_def work_template_def floor_policy_def require_ceilings_ok_iff REQUIRED_CEILINGS_def)

lemma demo_resolved: "resolve_template (env_read demo_env) (rt_template_dirs demo_rt) ''tool'' = Some []"
  by (simp add: resolve_template_def template_version_def demo_env_def demo_rt_def SpawnRuntime_new_def
    path_join_def starts_with_iff)

lemma demo_validated: "validate_spawn demo_tools demo_env demo_rt demo_data = Inr demo_instance"
proof -
  have g: "sp_allow (rt_grant demo_rt) = [demo_pin]" "rt_keys demo_rt = demo_keys" "st_template demo_pin = ''tool''"
    by (simp_all add: demo_rt_def SpawnRuntime_new_def demo_pin_def)
  have b: "build_patch demo_pin [(''fs.write'', ''sub/out'')] = Inr [\<lparr>pe_field = ''fs.write'', pe_value = ''sub/out''\<rparr>]"
    by (simp add: demo_pin_def List.member_iff)
  show ?thesis
    by (simp add: validate_spawn_def demo_decode g demo_resolved demo_verified demo_eligible b
      work_template_instance demo_instance_def demo_tools_def del: build_patch.simps)
qed

lemma demo_handled:
  "handle_spawn demo_tools demo_env (Some demo_rt) demo_data 7 0 =
     (\<lparr>so_reply = SpawnDataAndFds (spawn_encode_reply status_OK (spawn_name 7 0)) [10, 12],
       so_job = Some \<lparr>job_instance = demo_instance, job_stdio = [11, 14, 13], job_name = spawn_name 7 0\<rparr>,
       so_event = (OutAllow, Spawned (spawn_name 7 0))\<rparr>, Some (demo_rt\<lparr>rt_live := 1\<rparr>), 1)"
proof -
  have "claim_slot (rt_live demo_rt) (sp_max_instances (rt_grant demo_rt)) = Some 1"
    by (simp add: claim_slot_Some_iff demo_rt_def SpawnRuntime_new_def)
  moreover have "mint demo_env = Inr ([10, 12], \<lparr>spawned_rpc = 11, spawned_stderr = 13\<rparr>)"
    by (simp add: mint_def demo_env_def)
  moreover have "env_dup demo_env 11 = Some 14" by (simp add: demo_env_def)
  ultimately show ?thesis
    by (simp add: handle_spawn_def validate_and_mint_def demo_validated Let_def)
qed

section \<open>Properties\<close>

text \<open>C12. A kennel is constructed for a \<open>SPAWN\<close> only from the template the request names, and only when the
  requester's signed grant lists it: the bytes found in the store under that reference parse to a
  document that carries the recorded key name and signature, that very signature verifies under the
  trust keys, and the body satisfies the framework invariants and is spawn-eligible. The instance is
  that body with exactly the request's patch applied and nothing else changed, every patched field is
  within the grant's narrowing, and the handler leaves one more slot taken, within the ceiling.\<close>

theorem spawn_gate_sound:
  assumes "handle_spawn tools env (Some rt) data ctx counter = (out, rt', counter')" "so_job out = Some job"
  shows "\<exists>template_ref pairs pin bs doc. spawn_decode_request data = Some (template_ref, pairs)
    \<and> pin \<in> set (sp_allow (rt_grant rt)) \<and> st_template pin = template_ref
    \<and> resolve_template (env_read env) (rt_template_dirs rt) template_ref = Some bs \<and> tl_parse tools bs = Inr doc
    \<and> env_key_id (doc_signature doc) = st_signing_key_id pin \<and> env_signature (doc_signature doc) = st_signature pin
    \<and> authentic (tl_crypto tools) (tl_print tools) (rt_keys rt) (doc_signature doc) (doc_policy doc)
    \<and> validate (doc_policy doc) = Inr () \<and> spawn_eligible (doc_policy doc) = Inr ()
    \<and> instantiate (doc_policy doc) (map (\<lambda>(f, v). \<lparr>pe_field = f, pe_value = v\<rparr>) pairs) = Inr (job_instance job)
    \<and> frozen (job_instance job) = frozen (doc_policy doc)
    \<and> (st_mutable_narrow pin = [] \<or> fst ` set pairs \<subseteq> set (st_mutable_narrow pin))
    \<and> rt' = Some (rt\<lparr>rt_live := rt_live rt + 1\<rparr>)
    \<and> unat (rt_live rt) + 1 = unat (rt_live rt + 1)
    \<and> unat (rt_live rt + 1) \<le> unat (sp_max_instances (rt_grant rt))"
proof -
  note j = handle_spawn_job [OF assms]
  have slot: "unat (rt_live rt + 1) = unat (rt_live rt) + 1"
    "unat (rt_live rt + 1) \<le> unat (sp_max_instances (rt_grant rt))"
    using j(2) by (simp_all add: unat_claim [OF j(2)] word_less_nat_alt)
  from j(1) show ?thesis
  proof (rule validate_spawn_InrE, goal_cases)
    case (1 template_ref pairs pin bs doc entries)
    moreover from 1 have "authentic (tl_crypto tools) (tl_print tools) (rt_keys rt) (doc_signature doc) (doc_policy doc)"
      "validate (doc_policy doc) = Inr ()"
      by (auto dest: verify_doc_authentic_iff [THEN iffD1])
    moreover from 1 have "frozen (job_instance job) = frozen (doc_policy doc)" by (intro instance_effect(1))
    ultimately show ?case using j(3) slot by (intro exI conjI) (assumption | simp)+
  qed
qed

theorem spawn_gate_sound_witness:
  "(\<exists>pin \<in> set (sp_allow (rt_grant demo_rt)). st_template pin = ''tool'')
   \<and> Some (demo_rt\<lparr>rt_live := 1\<rparr>) = Some (demo_rt\<lparr>rt_live := rt_live demo_rt + 1\<rparr>)
   \<and> unat (rt_live demo_rt + 1) \<le> unat (sp_max_instances (rt_grant demo_rt))"
  using spawn_gate_sound [OF demo_handled, of "\<lparr>job_instance = demo_instance, job_stdio = [11, 14, 13], job_name = spawn_name 7 0\<rparr>"]
  by (auto simp: demo_decode)

text \<open>C31. A refused \<open>SPAWN\<close> leaves nothing behind: whatever the stage of the refusal, also after the slot was
  claimed, no kennel is handed to construction, the slot account, the cached listing and the name
  counter are as before, and the reply carries no descriptor; a granted one takes one slot and one
  name.\<close>

theorem spawn_all_or_nothing:
  assumes "handle_spawn tools env (Some rt) data ctx counter = (out, rt', counter')"
  shows "(so_job out = None \<longrightarrow> rt' = Some rt \<and> counter' = counter \<and> (\<exists>bs. so_reply out = SpawnData bs))
    \<and> (so_job out \<noteq> None \<longrightarrow> rt' = Some (rt\<lparr>rt_live := rt_live rt + 1\<rparr>) \<and> counter' = counter + 1
         \<and> (\<exists>bs rpc err. so_reply out = SpawnDataAndFds bs [rpc, err]))"
proof (cases "so_job out")
  case None
  have "\<exists>bs. so_reply out = SpawnData bs"
    using assms None
    by (auto simp: handle_spawn_def refuse_def Let_def split: sum.splits option.splits prod.splits)
  with None handle_spawn_no_job [OF assms None] show ?thesis by simp
next
  case (Some job)
  have "\<exists>bs rpc err. so_reply out = SpawnDataAndFds bs [rpc, err]"
    using assms Some
    by (auto simp: handle_spawn_def refuse_def validate_and_mint_def mint_def and_then_Inr_iff Let_def
      split: sum.splits option.splits prod.splits)
  with Some handle_spawn_job [OF assms Some] show ?thesis by simp
qed

theorem spawn_all_or_nothing_witness:
  "\<exists>bs rpc err. SpawnDataAndFds (spawn_encode_reply status_OK (spawn_name 7 0)) [10, 12] = SpawnDataAndFds bs [rpc, err]"
  using spawn_all_or_nothing [OF demo_handled] by simp

lemma eligible_bounds:
  "spawn_eligible p = Inr () \<Longrightarrow> sp_spawn p = None \<and> lc_ttl_seconds (ep_lifecycle (sp_effective_policy p)) \<noteq> None
     \<and> {''as'', ''nproc'', ''cpu''} \<subseteq> dom (sp_ulimits p)"
  by (auto simp: spawn_eligible_def require_ceilings_ok_iff REQUIRED_CEILINGS_def dom_def split: if_splits)

text \<open>C30. However requests, queries and exits of spawned kennels are ordered, a requester never has more running
  spawned kennels than its grant's ceiling, the slot account is exactly their number, and each of
  them is itself spawn-eligible: it has no spawn grant, a lifetime bound and the three resource
  ceilings.\<close>

theorem spawned_within_ceiling:
  assumes "reach (spawn_start grant keys dirs) (spawn_step tools ctx) s"
  shows "length (ss_running s) \<le> unat (sp_max_instances grant)
    \<and> unat (rt_live (ss_rt s)) = length (ss_running s)
    \<and> list_all (\<lambda>(_, p). sp_spawn p = None \<and> lc_ttl_seconds (ep_lifecycle (sp_effective_policy p)) \<noteq> None
         \<and> {''as'', ''nproc'', ''cpu''} \<subseteq> dom (sp_ulimits p)) (ss_running s)"
proof -
  have "list_all (\<lambda>(_, p). spawn_eligible p = Inr ()) (ss_running s)"
    using spawn_reach_ok [OF assms] by (simp add: spawn_system_ok_def)
  then have "list_all (\<lambda>(_, p). sp_spawn p = None \<and> lc_ttl_seconds (ep_lifecycle (sp_effective_policy p)) \<noteq> None
         \<and> {''as'', ''nproc'', ''cpu''} \<subseteq> dom (sp_ulimits p)) (ss_running s)"
    by (rule list.pred_mono_strong) (auto dest: eligible_bounds)
  with spawn_reach_ok [OF assms] show ?thesis by (simp add: spawn_system_ok_def)
qed

theorem spawned_within_ceiling_witness:
  "length [(spawn_name 7 0, demo_instance)] \<le> unat (sp_max_instances (rt_grant demo_rt))"
proof -
  let ?s = "\<lparr>ss_rt = demo_rt, ss_counter = 0, ss_running = []\<rparr>"
  let ?start = "spawn_start (rt_grant demo_rt) demo_keys [''/t'']"
  have "?start ?s"
    by (simp add: spawn_start_def demo_rt_def SpawnRuntime_new_def)
  then have "reach ?start (spawn_step demo_tools 7) ?s" by (rule reach_init)
  moreover have "spawn_step demo_tools 7 ?s \<lparr>ss_rt = demo_rt\<lparr>rt_live := 1\<rparr>, ss_counter = 1,
      ss_running = [(spawn_name 7 0, demo_instance)]\<rparr>"
    using spawn_step.Request [of demo_tools demo_env ?s demo_data 7] demo_handled by (simp add: started_def)
  ultimately have "reach ?start (spawn_step demo_tools 7) \<lparr>ss_rt = demo_rt\<lparr>rt_live := 1\<rparr>, ss_counter = 1,
      ss_running = [(spawn_name 7 0, demo_instance)]\<rparr>" by (rule reach_step)
  from spawned_within_ceiling [OF this] show ?thesis by simp
qed

end
