(* ===== verification/Spawn_Concurrency.thy ===== *)
theory Spawn_Concurrency
  imports Spawn_Gate
begin

text \<open>
  The two interleavings the spawn path depends on: the compare-and-swap loop that claims a slot while
  other loopers claim and release (\<open>claim_slot\<close> and the drop of a guard in \<open>kenneld/src/spawn.rs\<close>), and the
  race between the construction of a spawned kennel and the teardown of its requester
  (\<open>SpawnRuntime::drop\<close>, and \<open>reap_children\<close> and the re-check in \<open>run_kennel\<close> of \<open>kenneld/src/server.rs\<close>).
  Memory is sequentially consistent; a compare-and-swap may fail spuriously, as the weak form allows.
  The claim loop is proved against an atomic specification by inclusion of event traces; the family of
  a requester keeps the outcome of every kill, because a failed one is logged and skipped.
\<close>

section \<open>Claiming slots\<close>

datatype claimer = Idle | Loaded u32 | Holding

record slots =
  sl_live :: u32
  sl_claimers :: "claimer list"

text \<open>Every request is a claimer: it loads the count, and then sees the ceiling, wins the exchange, or retries
  with the value the exchange found.\<close>

inductive slot_step :: "u32 \<Rightarrow> slots \<Rightarrow> slots \<Rightarrow> bool" for ceiling where
  Load: "i < length (sl_claimers s) \<Longrightarrow> sl_claimers s ! i = Idle \<Longrightarrow>
     slot_step ceiling s (s\<lparr>sl_claimers := (sl_claimers s)[i := Loaded (sl_live s)]\<rparr>)"
| Full: "i < length (sl_claimers s) \<Longrightarrow> sl_claimers s ! i = Loaded cur \<Longrightarrow> cur \<ge> ceiling \<Longrightarrow>
     slot_step ceiling s (s\<lparr>sl_claimers := (sl_claimers s)[i := Idle]\<rparr>)"
| Swap: "i < length (sl_claimers s) \<Longrightarrow> sl_claimers s ! i = Loaded cur \<Longrightarrow> \<not> cur \<ge> ceiling \<Longrightarrow> sl_live s = cur \<Longrightarrow>
     slot_step ceiling s (s\<lparr>sl_live := sat_succ cur, sl_claimers := (sl_claimers s)[i := Holding]\<rparr>)"
| Retry: "i < length (sl_claimers s) \<Longrightarrow> sl_claimers s ! i = Loaded cur \<Longrightarrow> \<not> cur \<ge> ceiling \<Longrightarrow>
     slot_step ceiling s (s\<lparr>sl_claimers := (sl_claimers s)[i := Loaded (sl_live s)]\<rparr>)"
| Drop: "i < length (sl_claimers s) \<Longrightarrow> sl_claimers s ! i = Holding \<Longrightarrow>
     slot_step ceiling s (s\<lparr>sl_live := drop_slot (sl_live s), sl_claimers := (sl_claimers s)[i := Idle]\<rparr>)"

definition slot_start :: "slots \<Rightarrow> bool" where
  "slot_start s \<longleftrightarrow> sl_live s = 0 \<and> list_all (\<lambda>c. c = Idle) (sl_claimers s)"

definition holders :: "slots \<Rightarrow> nat" where
  "holders s = length (filter (\<lambda>c. c = Holding) (sl_claimers s))"

text \<open>What a claimer's caller observes of a step: a slot is obtained, a full count is read (the request will
  be refused), or a guard is dropped.\<close>

datatype slot_event = Claimed nat | TurnedAway nat | Released nat

fun claimer_event :: "u32 \<Rightarrow> nat \<Rightarrow> claimer \<Rightarrow> claimer \<Rightarrow> slot_event list" where
  "claimer_event ceiling i Idle (Loaded n) = (if n \<ge> ceiling then [TurnedAway i] else [])"
| "claimer_event ceiling i (Loaded m) (Loaded n) = (if \<not> m \<ge> ceiling \<and> n \<ge> ceiling then [TurnedAway i] else [])"
| "claimer_event ceiling i (Loaded m) Holding = [Claimed i]"
| "claimer_event ceiling i Holding Idle = [Released i]"
| "claimer_event ceiling i _ _ = []"

definition slot_events :: "u32 \<Rightarrow> slots \<Rightarrow> slots \<Rightarrow> slot_event list" where
  "slot_events ceiling s s' =
     concat (map (\<lambda>i. claimer_event ceiling i (sl_claimers s ! i) (sl_claimers s' ! i)) [0..<length (sl_claimers s)])"

inductive slot_trace :: "u32 \<Rightarrow> slots \<Rightarrow> slot_event list \<Rightarrow> slots \<Rightarrow> bool" for ceiling s where
  Nothing: "slot_trace ceiling s [] s"
| Step: "slot_trace ceiling s evs s' \<Longrightarrow> slot_step ceiling s' s'' \<Longrightarrow>
     slot_trace ceiling s (evs @ slot_events ceiling s' s'') s''"

text \<open>The specification: the set of requests that hold a slot, where a request is granted or refused in one
  step, granted only below the ceiling and refused only at it.\<close>

fun grant_event :: "nat \<Rightarrow> slot_event \<Rightarrow> nat set \<Rightarrow> nat set option" where
  "grant_event ceiling (Claimed i) H = (if i \<notin> H \<and> card H < ceiling then Some (insert i H) else None)"
| "grant_event ceiling (TurnedAway i) H = (if i \<notin> H \<and> card H = ceiling then Some H else None)"
| "grant_event ceiling (Released i) H = (if i \<in> H then Some (H - {i}) else None)"

fun grant_run :: "nat \<Rightarrow> slot_event list \<Rightarrow> nat set \<Rightarrow> nat set option" where
  "grant_run ceiling [] H = Some H"
| "grant_run ceiling (e # es) H = Option.bind (grant_event ceiling e H) (grant_run ceiling es)"

fun event_of :: "slot_event \<Rightarrow> nat" where
  "event_of (Claimed i) = i"
| "event_of (TurnedAway i) = i"
| "event_of (Released i) = i"

definition last_event :: "nat \<Rightarrow> slot_event list \<Rightarrow> slot_event option" where
  "last_event i evs = find (\<lambda>e. event_of e = i) (rev evs)"

definition held :: "slots \<Rightarrow> nat set" where
  "held s = {i. i < length (sl_claimers s) \<and> sl_claimers s ! i = Holding}"

lemma length_filter_update:
  "i < length xs \<Longrightarrow>
     length (filter P (xs[i := y])) + (if P (xs ! i) then 1 else 0) = length (filter P xs) + (if P y then 1 else 0)"
proof (induction xs arbitrary: i)
  case (Cons x xs)
  then show ?case by (cases i) auto
qed simp

lemma holders_update:
  assumes "i < length (sl_claimers s)"
  shows "holders (s\<lparr>sl_claimers := (sl_claimers s)[i := c]\<rparr>) + (if sl_claimers s ! i = Holding then 1 else 0) =
         holders s + (if c = Holding then 1 else 0)"
  using length_filter_update [OF assms, of "\<lambda>c. c = Holding" c] by (simp add: holders_def)

lemma holders_live [simp]: "holders (s\<lparr>sl_live := n, sl_claimers := cs\<rparr>) = holders (s\<lparr>sl_claimers := cs\<rparr>)"
  by (simp add: holders_def)

definition slots_ok :: "u32 \<Rightarrow> slots \<Rightarrow> bool" where
  "slots_ok ceiling s \<longleftrightarrow> unat (sl_live s) = holders s \<and> sl_live s \<le> ceiling"

lemma drop_slot_le: "n \<noteq> 0 \<Longrightarrow> drop_slot n \<le> n"
  by (simp add: drop_slot_def word_le_nat_alt unat_minus_one)

lemma slot_step_ok:
  assumes "slot_step ceiling s s'" "slots_ok ceiling s"
  shows "slots_ok ceiling s'"
  using assms
proof (induction rule: slot_step.induct)
  case (Load i s)
  then show ?case using holders_update [OF Load(1), of "Loaded (sl_live s)"] by (simp add: slots_ok_def)
next
  case (Full i s cur)
  then show ?case using holders_update [OF Full(1), of Idle] by (simp add: slots_ok_def)
next
  case (Swap i s cur)
  then have lt: "sl_live s < ceiling" by simp
  then have succ: "sat_succ (sl_live s) = sl_live s + 1" by (auto simp: sat_succ_def)
  have "holders (s\<lparr>sl_claimers := (sl_claimers s)[i := Holding]\<rparr>) = holders s + 1"
    using holders_update [OF Swap(1), of Holding] Swap(2) by simp
  moreover have "sl_live s + 1 \<le> ceiling"
    using lt by (simp add: word_le_nat_alt unat_claim [OF lt] word_less_nat_alt)
  ultimately show ?case
    using Swap succ unat_claim [OF lt] by (simp add: slots_ok_def)
next
  case (Retry i s cur)
  then show ?case using holders_update [OF Retry(1), of "Loaded (sl_live s)"] by (simp add: slots_ok_def)
next
  case (Drop i s)
  have h: "holders (s\<lparr>sl_claimers := (sl_claimers s)[i := Idle]\<rparr>) + 1 = holders s"
    using holders_update [OF Drop(1), of Idle] Drop(2) by simp
  then have pos: "0 < unat (sl_live s)" using Drop.prems by (simp add: slots_ok_def)
  then have "drop_slot (sl_live s) \<le> ceiling"
    using Drop.prems drop_slot_le [of "sl_live s"] by (auto simp: slots_ok_def unat_gt_0)
  moreover have "holders (s\<lparr>sl_claimers := (sl_claimers s)[i := Idle]\<rparr>) = holders s - 1" using h by simp
  ultimately show ?case
    using Drop.prems unat_drop_slot [OF pos] by (simp add: slots_ok_def)
qed

lemma slot_start_ok: "slot_start s \<Longrightarrow> slots_ok ceiling s"
proof -
  assume start: "slot_start s"
  then have "filter (\<lambda>c. c = Holding) (sl_claimers s) = []"
    by (auto simp: slot_start_def list_all_iff filter_empty_conv)
  with start show ?thesis by (simp add: slots_ok_def slot_start_def holders_def)
qed

lemma slots_reach_ok: "reach slot_start (slot_step ceiling) s \<Longrightarrow> slots_ok ceiling s"
  by (induction rule: reach_invariant) (simp_all add: slot_start_ok slot_step_ok)

text \<open>A step of one claimer shows that claimer's event and nothing else.\<close>

lemma claimer_event_same [simp]: "claimer_event ceiling i c c = []"
  by (cases c) simp_all

lemma concat_map_single:
  "i \<in> set xs \<Longrightarrow> distinct xs \<Longrightarrow> (\<And>j. j \<in> set xs \<Longrightarrow> j \<noteq> i \<Longrightarrow> f j = []) \<Longrightarrow> concat (map f xs) = f i"
proof (induction xs)
  case (Cons x xs)
  show ?case
  proof (cases "x = i")
    case True
    then have "concat (map f xs) = []" using Cons.prems by auto
    with True show ?thesis by simp
  next
    case False
    then show ?thesis using Cons by auto
  qed
qed simp

lemma slot_events_update:
  assumes "i < length (sl_claimers s)" "sl_claimers s' = (sl_claimers s)[i := c]"
  shows "slot_events ceiling s s' = claimer_event ceiling i (sl_claimers s ! i) c"
proof -
  have "slot_events ceiling s s' = claimer_event ceiling i (sl_claimers s ! i) (sl_claimers s' ! i)"
    unfolding slot_events_def by (rule concat_map_single) (use assms in auto)
  then show ?thesis using assms by simp
qed

lemma held_update:
  assumes "i < length (sl_claimers s)" "sl_claimers s' = (sl_claimers s)[i := c]"
  shows "held s' = (if c = Holding then insert i (held s) else held s - {i})"
  using assms by (auto simp: held_def nth_list_update)

lemma card_held: "card (held s) = holders s"
  by (simp add: held_def holders_def length_filter_conv_card)

lemma held_full: "slots_ok ceiling s \<Longrightarrow> ceiling \<le> sl_live s \<Longrightarrow> card (held s) = unat ceiling"
  by (simp add: card_held slots_ok_def word_le_nat_alt)

lemma held_below: "slots_ok ceiling s \<Longrightarrow> \<not> ceiling \<le> sl_live s \<Longrightarrow> card (held s) < unat ceiling"
  by (simp add: card_held slots_ok_def word_le_nat_alt)

text \<open>The step correspondence: the events of a step are a run of the specification between the sets of
  holders before and after it.\<close>

lemma slot_step_simulated:
  assumes "slot_step ceiling s s'" "slots_ok ceiling s"
  shows "grant_run (unat ceiling) (slot_events ceiling s s') (held s) = Some (held s')"
  using assms
proof (induction rule: slot_step.induct)
  case (Load i s)
  then have "i \<notin> held s" by (simp add: held_def)
  with Load show ?case by (simp add: slot_events_update held_update held_full)
next
  case (Full i s cur)
  then have "i \<notin> held s" by (simp add: held_def)
  with Full show ?case by (simp add: slot_events_update held_update)
next
  case (Swap i s cur)
  then have "i \<notin> held s" by (simp add: held_def)
  with Swap show ?case by (simp add: slot_events_update held_update held_below)
next
  case (Retry i s cur)
  then have "i \<notin> held s" by (simp add: held_def)
  with Retry show ?case by (simp add: slot_events_update held_update held_full)
next
  case (Drop i s)
  then have "i \<in> held s" by (simp add: held_def)
  with Drop show ?case by (simp add: slot_events_update held_update)
qed

lemma grant_run_append:
  "grant_run ceiling (es @ fs) H = Option.bind (grant_run ceiling es H) (grant_run ceiling fs)"
  by (induction es arbitrary: H) (auto split: bind_splits)

lemma slot_trace_ok: "slot_trace ceiling s evs s' \<Longrightarrow> slots_ok ceiling s \<Longrightarrow> slots_ok ceiling s'"
  by (induction rule: slot_trace.induct) (auto intro: slot_step_ok)

lemma slot_trace_simulated:
  "slot_trace ceiling s evs s' \<Longrightarrow> slots_ok ceiling s \<Longrightarrow>
     grant_run (unat ceiling) evs (held s) = Some (held s')"
proof (induction rule: slot_trace.induct)
  case (Step evs s' s'')
  then show ?case
    using slot_step_simulated [OF Step.hyps(2)] slot_trace_ok by (simp add: grant_run_append)
qed simp

text \<open>A claimer that is about to be refused has shown it.\<close>

definition refusals_shown :: "u32 \<Rightarrow> slot_event list \<Rightarrow> slots \<Rightarrow> bool" where
  "refusals_shown ceiling evs s \<longleftrightarrow>
     (\<forall>i < length (sl_claimers s). \<forall>cur. sl_claimers s ! i = Loaded cur \<longrightarrow> cur \<ge> ceiling \<longrightarrow>
        last_event i evs = Some (TurnedAway i))"

lemma last_event_append: "last_event i (es @ fs) = or_else (last_event i fs) (last_event i es)"
proof -
  have "find P (xs @ ys) = or_else (find P xs) (find P ys)" for P and xs ys :: "slot_event list"
    by (induction xs) simp_all
  then show ?thesis by (simp add: last_event_def)
qed

lemma last_event_other: "i \<noteq> j \<Longrightarrow> last_event j (claimer_event ceiling i c c') = None"
  by (induction ceiling i c c' rule: claimer_event.induct) (simp_all add: last_event_def)

lemma refusals_update:
  assumes "refusals_shown ceiling evs s" "i < length (sl_claimers s)" "sl_claimers s' = (sl_claimers s)[i := c]"
    and new: "\<And>cur. c = Loaded cur \<Longrightarrow> cur \<ge> ceiling \<Longrightarrow> claimer_event ceiling i (sl_claimers s ! i) c = [TurnedAway i]"
  shows "refusals_shown ceiling (evs @ slot_events ceiling s s') s'"
  unfolding refusals_shown_def
proof (intro allI impI)
  fix j cur assume j: "j < length (sl_claimers s')" "sl_claimers s' ! j = Loaded cur" "cur \<ge> ceiling"
  show "last_event j (evs @ slot_events ceiling s s') = Some (TurnedAway j)"
  proof (cases "j = i")
    case True
    with j assms(2,3) have "c = Loaded cur" by simp
    with new j(3) True assms(2,3) show ?thesis
      by (simp add: last_event_append slot_events_update) (simp add: last_event_def)
  next
    case False
    with j assms have "last_event j evs = Some (TurnedAway j)" by (simp add: refusals_shown_def)
    with False assms(2,3) show ?thesis by (simp add: last_event_append slot_events_update last_event_other)
  qed
qed

lemma slot_trace_refusals: "slot_trace ceiling s evs s' \<Longrightarrow> slot_start s \<Longrightarrow> refusals_shown ceiling evs s'"
proof (induction rule: slot_trace.induct)
  case Nothing
  then show ?case by (simp add: refusals_shown_def slot_start_def list_all_length)
next
  case (Step evs s' s'')
  from Step.hyps(2) Step.IH [OF Step.prems] show ?case
    by (induction rule: slot_step.induct) (erule refusals_update, assumption, simp, simp)+
qed

text \<open>Two claimers race for the one free slot: both load the same count, one wins.\<close>

definition race_won :: slots where
  "race_won = \<lparr>sl_live = 1, sl_claimers = [Holding, Loaded 0]\<rparr>"

lemma race_reach: "reach slot_start (slot_step 1) race_won"
proof -
  let ?s0 = "\<lparr>sl_live = 0, sl_claimers = [Idle, Idle]\<rparr>"
  let ?s1 = "\<lparr>sl_live = 0, sl_claimers = [Loaded 0, Idle]\<rparr>"
  let ?s2 = "\<lparr>sl_live = 0, sl_claimers = [Loaded 0, Loaded 0]\<rparr>"
  have "reach slot_start (slot_step 1) ?s0" by (rule reach_init) (simp add: slot_start_def)
  moreover have "slot_step 1 ?s0 ?s1" using slot_step.Load [of 0 ?s0 1] by simp
  moreover have "slot_step 1 ?s1 ?s2" using slot_step.Load [of 1 ?s1 1] by simp
  moreover have "slot_step 1 ?s2 race_won"
    using slot_step.Swap [of 0 ?s2 0 1] by (simp add: race_won_def sat_succ_def)
  ultimately show ?thesis by (blast intro: reach_step)
qed

text \<open>The loser retries, reads the full count and is refused; then the winner's guard drops.\<close>

lemma race_trace:
  "slot_trace 1 \<lparr>sl_live = 0, sl_claimers = [Idle, Idle]\<rparr> [Claimed 0, TurnedAway 1, Released 0]
     \<lparr>sl_live = 0, sl_claimers = [Idle, Idle]\<rparr>"
proof -
  let ?s = "\<lambda>n cs. \<lparr>sl_live = n, sl_claimers = cs\<rparr>"
  have "slot_trace 1 (?s 0 [Idle, Idle]) [] (?s 0 [Idle, Idle])" by (rule Nothing)
  from Step [OF this, of "?s 0 [Loaded 0, Idle]"] slot_step.Load [of 0 "?s 0 [Idle, Idle]" 1]
  have "slot_trace 1 (?s 0 [Idle, Idle]) [] (?s 0 [Loaded 0, Idle])" by (simp add: slot_events_def upt_rec)
  from Step [OF this, of "?s 0 [Loaded 0, Loaded 0]"] slot_step.Load [of 1 "?s 0 [Loaded 0, Idle]" 1]
  have "slot_trace 1 (?s 0 [Idle, Idle]) [] (?s 0 [Loaded 0, Loaded 0])" by (simp add: slot_events_def upt_rec)
  from Step [OF this, of race_won] slot_step.Swap [of 0 "?s 0 [Loaded 0, Loaded 0]" 0 1]
  have "slot_trace 1 (?s 0 [Idle, Idle]) [Claimed 0] (?s 1 [Holding, Loaded 0])"
    by (simp add: slot_events_def upt_rec race_won_def sat_succ_def)
  from Step [OF this, of "?s 1 [Holding, Loaded 1]"] slot_step.Retry [of 1 "?s 1 [Holding, Loaded 0]" 0 1]
  have "slot_trace 1 (?s 0 [Idle, Idle]) [Claimed 0, TurnedAway 1] (?s 1 [Holding, Loaded 1])"
    by (simp add: slot_events_def upt_rec)
  from Step [OF this, of "?s 1 [Holding, Idle]"] slot_step.Full [of 1 "?s 1 [Holding, Loaded 1]" 1 1]
  have "slot_trace 1 (?s 0 [Idle, Idle]) [Claimed 0, TurnedAway 1] (?s 1 [Holding, Idle])"
    by (simp add: slot_events_def upt_rec)
  from Step [OF this, of "?s 0 [Idle, Idle]"] slot_step.Drop [of 0 "?s 1 [Holding, Idle]" 1]
  show ?thesis by (simp add: slot_events_def upt_rec drop_slot_def)
qed

section \<open>The requester's teardown\<close>

text \<open>The bring-up of a spawned kennel: its thread is spawned, its name is reserved in the registry, the
  bring-up returns with the cgroup populated, the liveness flag is re-checked, and the kennel runs
  until its processes are gone. The flag of a child records that a kill of its populated cgroup, by
  the reaper or the re-check, returned an error.\<close>

datatype stage = Queued | Registered | Live | Started | Gone

record child =
  ch_stage :: stage
  ch_kill_failed :: bool

text \<open>The reaper of the requester: it has not run, it has taken its list of children and kills them one by
  one, or it has returned. The teardown waits for the requester's processes first and stops its node,
  which drops the runtime, only when that wait succeeds.\<close>

datatype reaper = NotRun | Killing "nat list" | Returned

record family =
  fam_wait_ok :: bool
  fam_parent_alive :: bool
  fam_reaper :: reaper
  fam_children :: "child list"

text \<open>A write to \<open>cgroup.kill\<close>, with its outcome: it ends what runs in the cgroup or fails; before the
  cgroup is populated, or when it is gone, there is nothing it could end.\<close>

definition kill_child :: "bool \<Rightarrow> child \<Rightarrow> child" where
  "kill_child ok c =
     (if ch_stage c = Live \<or> ch_stage c = Started
      then (if ok then c\<lparr>ch_stage := Gone\<rparr> else c\<lparr>ch_kill_failed := True\<rparr>) else c)"

text \<open>The steps of a bring-up: the thread of an accepted job, the reserved name, the populated cgroup.\<close>

definition enqueue_child :: "family \<Rightarrow> family" where
  "enqueue_child f = f\<lparr>fam_children := fam_children f @ [\<lparr>ch_stage = Queued, ch_kill_failed = False\<rparr>]\<rparr>"

definition child_reserved :: "child \<Rightarrow> child" where
  "child_reserved c = c\<lparr>ch_stage := Registered\<rparr>"

definition child_brought_up :: "child \<Rightarrow> child" where
  "child_brought_up c = c\<lparr>ch_stage := Live\<rparr>"

text \<open>The re-check at the end of a bring-up; the result of the termination is dropped.\<close>

definition liveness_recheck :: "bool \<Rightarrow> bool \<Rightarrow> child \<Rightarrow> child" where
  "liveness_recheck alive ok c =
     (if alive then c\<lparr>ch_stage := Started\<rparr> else kill_child ok (c\<lparr>ch_stage := Started\<rparr>))"

text \<open>The drop of the requester's runtime, which precedes its reaper.\<close>

definition SpawnRuntime_drop :: "family \<Rightarrow> family" where
  "SpawnRuntime_drop f = f\<lparr>fam_parent_alive := False\<rparr>"

text \<open>The reaper's list is taken under the registry lock: the children whose names are reserved.\<close>

definition reap_scan :: "child list \<Rightarrow> nat list" where
  "reap_scan cs = filter (\<lambda>i. ch_stage (cs ! i) \<noteq> Queued) [0..<length cs]"

text \<open>One round of its loop: an error is logged and the next child follows.\<close>

definition reap_next :: "bool \<Rightarrow> nat \<Rightarrow> child list \<Rightarrow> child list" where
  "reap_next ok i cs = cs[i := kill_child ok (cs ! i)]"

inductive family_step :: "family \<Rightarrow> family \<Rightarrow> bool" where
  Enqueue: "fam_parent_alive f \<Longrightarrow> family_step f (enqueue_child f)"
| Reserve: "i < length (fam_children f) \<Longrightarrow> ch_stage (fam_children f ! i) = Queued \<Longrightarrow>
     family_step f (f\<lparr>fam_children := (fam_children f)[i := child_reserved (fam_children f ! i)]\<rparr>)"
| BroughtUp: "i < length (fam_children f) \<Longrightarrow> ch_stage (fam_children f ! i) = Registered \<Longrightarrow>
     family_step f (f\<lparr>fam_children := (fam_children f)[i := child_brought_up (fam_children f ! i)]\<rparr>)"
| Recheck: "i < length (fam_children f) \<Longrightarrow> ch_stage (fam_children f ! i) = Live \<Longrightarrow>
     family_step f (f\<lparr>fam_children :=
       (fam_children f)[i := liveness_recheck (fam_parent_alive f) ok (fam_children f ! i)]\<rparr>)"
| Ended: "i < length (fam_children f) \<Longrightarrow>
     family_step f (f\<lparr>fam_children := (fam_children f)[i := (fam_children f ! i)\<lparr>ch_stage := Gone\<rparr>]\<rparr>)"
| DropRuntime: "family_step f (SpawnRuntime_drop f)"
| ReapScan: "(fam_wait_ok f \<longrightarrow> \<not> fam_parent_alive f) \<Longrightarrow> fam_reaper f = NotRun \<Longrightarrow>
     family_step f (f\<lparr>fam_reaper := Killing (reap_scan (fam_children f))\<rparr>)"
| ReapNext: "fam_reaper f = Killing (i # is) \<Longrightarrow>
     family_step f (f\<lparr>fam_reaper := Killing is, fam_children := reap_next ok i (fam_children f)\<rparr>)"
| ReapReturn: "fam_reaper f = Killing [] \<Longrightarrow> family_step f (f\<lparr>fam_reaper := Returned\<rparr>)"

definition family_start :: "family \<Rightarrow> bool" where
  "family_start f \<longleftrightarrow> fam_parent_alive f \<and> fam_reaper f = NotRun \<and> fam_children f = []"

text \<open>A child past its re-check whose kill was never refused is still to be killed by a reaper that runs or
  has not run yet.\<close>

fun reaper_owes :: "reaper \<Rightarrow> nat \<Rightarrow> bool" where
  "reaper_owes NotRun i = True"
| "reaper_owes (Killing is) i = (i \<in> set is)"
| "reaper_owes Returned i = False"

definition family_ok :: "family \<Rightarrow> bool" where
  "family_ok f \<longleftrightarrow> (fam_wait_ok f \<longrightarrow>
     (fam_reaper f \<noteq> NotRun \<longrightarrow> \<not> fam_parent_alive f)
     \<and> (\<forall>i < length (fam_children f). ch_stage (fam_children f ! i) = Started \<longrightarrow>
          \<not> ch_kill_failed (fam_children f ! i) \<longrightarrow> reaper_owes (fam_reaper f) i))"

lemma nth_update_at: "j < length xs \<Longrightarrow> xs[i := c] ! j = (if i = j then c else xs ! j)"
  by simp

lemma family_ok_update:
  assumes "family_ok f"
    and "fam_wait_ok f \<Longrightarrow> ch_stage c = Started \<Longrightarrow> \<not> ch_kill_failed c \<Longrightarrow> reaper_owes (fam_reaper f) i"
  shows "family_ok (f\<lparr>fam_children := (fam_children f)[i := c]\<rparr>)"
  using assms by (auto simp: family_ok_def nth_update_at)

lemma kill_child_settles: "\<not> (ch_stage (kill_child ok c) = Started \<and> \<not> ch_kill_failed (kill_child ok c))"
  by (simp add: kill_child_def)

lemma family_step_ok: "family_step f f' \<Longrightarrow> family_ok f \<Longrightarrow> family_ok f'"
proof (induction rule: family_step.induct)
  case (Enqueue f)
  then show ?case by (auto simp: family_ok_def enqueue_child_def nth_append)
next
  case (Recheck i f ok)
  show ?case
  proof (rule family_ok_update [OF Recheck.prems])
    assume s: "fam_wait_ok f" "ch_stage (liveness_recheck (fam_parent_alive f) ok (fam_children f ! i)) = Started"
      "\<not> ch_kill_failed (liveness_recheck (fam_parent_alive f) ok (fam_children f ! i))"
    then have "fam_parent_alive f"
      using kill_child_settles unfolding liveness_recheck_def by (metis (full_types))
    then have "fam_reaper f = NotRun" using Recheck.prems s(1) by (auto simp: family_ok_def)
    then show "reaper_owes (fam_reaper f) i" by simp
  qed
next
  case (DropRuntime f)
  then show ?case by (simp add: family_ok_def SpawnRuntime_drop_def)
next
  case (ReapScan f)
  then show ?case by (auto simp: family_ok_def reap_scan_def)
next
  case (ReapNext f i "is" ok)
  then show ?case using kill_child_settles [of ok "fam_children f ! i"]
    by (auto simp: family_ok_def reap_next_def nth_update_at)
next
  case (ReapReturn f)
  then show ?case by (auto simp: family_ok_def)
qed (rule family_ok_update; simp add: child_reserved_def child_brought_up_def)+

lemma family_reach_ok: "reach family_start family_step f \<Longrightarrow> family_ok f"
proof (induction rule: reach_invariant)
  case (init f)
  then show ?case by (simp add: family_start_def family_ok_def)
next
  case (step f f')
  then show ?case by (blast intro: family_step_ok)
qed

section \<open>Properties\<close>

text \<open>C32. The lock-free claim loop refines an atomic grant of slots: under every interleaving of loads,
  exchanges, spurious failures and releases by any number of threads, the sequence of what the
  requests observe is a run of the specification that grants a slot only below the ceiling, refuses
  only when every slot is held, and releases only held slots, and it ends in the set of requests that
  hold a guard. A request that leaves the loop refused has read the full count as its last
  observation.\<close>

theorem claim_loop_refines_grants:
  assumes "slot_start s" "slot_trace ceiling s evs s'"
  shows "grant_run (unat ceiling) evs {} = Some (held s')
    \<and> (\<forall>i < length (sl_claimers s'). \<forall>cur. sl_claimers s' ! i = Loaded cur \<longrightarrow> cur \<ge> ceiling \<longrightarrow>
         last_event i evs = Some (TurnedAway i))"
proof -
  have "held s = {}" using assms(1) by (auto simp: slot_start_def held_def list_all_length)
  then show ?thesis
    using slot_trace_simulated [OF assms(2) slot_start_ok [OF assms(1)]]
      slot_trace_refusals [OF assms(2,1)] by (simp add: refusals_shown_def)
qed

theorem claim_loop_refines_grants_witness: "grant_run 1 [Claimed 0, TurnedAway 1, Released 0] {} = Some {}"
  using claim_loop_refines_grants [OF _ race_trace] by (simp add: slot_start_def held_def)

text \<open>C19. Concurrent \<open>SPAWN\<close>s cannot jointly exceed the ceiling, and the shared count never drifts: in every
  interleaving the count equals the number of guards held, which is at most the ceiling.\<close>

theorem slots_never_exceed_ceiling:
  assumes "reach slot_start (slot_step ceiling) s"
  shows "holders s \<le> unat ceiling \<and> unat (sl_live s) = holders s"
  using slots_reach_ok [OF assms] by (simp add: slots_ok_def word_le_nat_alt)

theorem slots_never_exceed_ceiling_witness: "holders race_won \<le> 1"
  using slots_never_exceed_ceiling [OF race_reach] by simp

text \<open>C29. A spawned kennel does not outlive its requester, unless killing it failed: in a teardown whose wait for
  the requester's processes succeeded, once the reaper has returned and every bring-up has finished,
  each spawned kennel is gone or a kill of it returned an error, whether its cgroup appeared before
  the reaper took its list, while it worked, or after it returned.\<close>

theorem no_child_outlives_requester:
  assumes "reach family_start family_step f" "fam_wait_ok f" "fam_reaper f = Returned"
    and "list_all (\<lambda>c. ch_stage c \<notin> {Queued, Registered, Live}) (fam_children f)"
  shows "list_all (\<lambda>c. ch_stage c = Gone \<or> ch_kill_failed c) (fam_children f)"
  unfolding list_all_length
proof (intro allI impI)
  fix i assume i: "i < length (fam_children f)"
  with assms(4) have "ch_stage (fam_children f ! i) = Gone \<or> ch_stage (fam_children f ! i) = Started"
    by (cases "ch_stage (fam_children f ! i)") (auto simp: list_all_length)
  with family_reach_ok [OF assms(1)] assms(2,3) i
  show "ch_stage (fam_children f ! i) = Gone \<or> ch_kill_failed (fam_children f ! i)"
    by (auto simp: family_ok_def)
qed

text \<open>A requester with two children: one runs and its kill fails, the other is still being brought up when
  the reaper returns and ends itself.\<close>

lemma reaped_reach:
  "reach family_start family_step \<lparr>fam_wait_ok = True, fam_parent_alive = False, fam_reaper = Returned,
     fam_children = [\<lparr>ch_stage = Started, ch_kill_failed = True\<rparr>, \<lparr>ch_stage = Gone, ch_kill_failed = False\<rparr>]\<rparr>"
proof -
  let ?f = "\<lambda>a r cs. \<lparr>fam_wait_ok = True, fam_parent_alive = a, fam_reaper = r, fam_children = map (\<lambda>(s, k). \<lparr>ch_stage = s, ch_kill_failed = k\<rparr>) cs\<rparr>"
  let ?r = "reach family_start family_step"
  have "?r (?f True NotRun [])" by (rule reach_init) (simp add: family_start_def)
  then have "?r (?f True NotRun [(Queued, False)])"
    by (rule reach_step) (use Enqueue [of "?f True NotRun []"] in \<open>simp add: enqueue_child_def\<close>)
  then have "?r (?f True NotRun [(Registered, False)])"
    by (rule reach_step) (use Reserve [of 0 "?f True NotRun [(Queued, False)]"] in \<open>simp add: child_reserved_def\<close>)
  then have "?r (?f True NotRun [(Live, False)])"
    by (rule reach_step) (use BroughtUp [of 0 "?f True NotRun [(Registered, False)]"] in \<open>simp add: child_brought_up_def\<close>)
  then have "?r (?f True NotRun [(Started, False)])"
    by (rule reach_step) (use Recheck [of 0 "?f True NotRun [(Live, False)]" True] in \<open>simp add: liveness_recheck_def\<close>)
  then have "?r (?f True NotRun [(Started, False), (Queued, False)])"
    by (rule reach_step) (use Enqueue [of "?f True NotRun [(Started, False)]"] in \<open>simp add: enqueue_child_def\<close>)
  then have "?r (?f False NotRun [(Started, False), (Queued, False)])"
    by (rule reach_step)
      (use DropRuntime [of "?f True NotRun [(Started, False), (Queued, False)]"] in \<open>simp add: SpawnRuntime_drop_def\<close>)
  then have "?r (?f False (Killing [0]) [(Started, False), (Queued, False)])"
    by (rule reach_step)
      (use ReapScan [of "?f False NotRun [(Started, False), (Queued, False)]"] in \<open>simp add: reap_scan_def upt_rec\<close>)
  then have "?r (?f False (Killing []) [(Started, True), (Queued, False)])"
    by (rule reach_step)
      (use ReapNext [of "?f False (Killing [0]) [(Started, False), (Queued, False)]" 0 "[]" False] in
        \<open>simp add: reap_next_def kill_child_def\<close>)
  then have "?r (?f False (Killing []) [(Started, True), (Registered, False)])"
    by (rule reach_step) (use Reserve [of 1 "?f False (Killing []) [(Started, True), (Queued, False)]"] in \<open>simp add: child_reserved_def\<close>)
  then have "?r (?f False Returned [(Started, True), (Registered, False)])"
    by (rule reach_step) (use ReapReturn [of "?f False (Killing []) [(Started, True), (Registered, False)]"] in simp)
  then have "?r (?f False Returned [(Started, True), (Live, False)])"
    by (rule reach_step) (use BroughtUp [of 1 "?f False Returned [(Started, True), (Registered, False)]"] in \<open>simp add: child_brought_up_def\<close>)
  then have "?r (?f False Returned [(Started, True), (Gone, False)])"
    by (rule reach_step)
      (use Recheck [of 1 "?f False Returned [(Started, True), (Live, False)]" True] in
        \<open>simp add: liveness_recheck_def kill_child_def\<close>)
  then show ?thesis by simp
qed

theorem no_child_outlives_requester_witness:
  "list_all (\<lambda>c. ch_stage c = Gone \<or> ch_kill_failed c)
     [\<lparr>ch_stage = Started, ch_kill_failed = True\<rparr>, \<lparr>ch_stage = Gone, ch_kill_failed = False\<rparr>]"
  using no_child_outlives_requester [OF reaped_reach] by simp

end
