(* ===== verification/Tun_Wire.thy ===== *)
theory Tun_Wire
  imports Net_Addr Rust_Fmt
begin

text \<open>
  The IPv6 frames between a kennel's tun and its flow broker: the shape check of the facade
  (\<open>kennel-facade/src/tun.rs\<close>), the datagram builder with its checksum and the port reads of the
  forwarder (\<open>kennel-tun-broker/src/forward.rs\<close>), the error builder (\<open>icmp.rs\<close>) and the hexadecimal
  argument encoding (\<open>lib.rs\<close>).
\<close>

unbundle bit_operations_syntax

section \<open>The facade's shape check\<close>

definition IPV6_HEADER :: nat where "IPV6_HEADER = 40"
definition UDP_HEADER :: nat where "UDP_HEADER = 8"
definition ICMPV6_HEADER :: nat where "ICMPV6_HEADER = 4"
definition NEXT_UDP :: u8 where "NEXT_UDP = 17"
definition NEXT_ICMPV6 :: u8 where "NEXT_ICMPV6 = 58"
definition ICMPV6_DEST_UNREACH :: u8 where "ICMPV6_DEST_UNREACH = 1"
definition ICMPV6_RELAYED_CODES :: "u8 list" where "ICMPV6_RELAYED_CODES = [1, 4]"

record Ipv6Header =
  h_payload_len :: nat
  h_next_header :: u8
  h_src :: Ipv6Addr
  h_dst :: Ipv6Addr

definition parse_ipv6 :: "bytes \<Rightarrow> Ipv6Header option" where
  "parse_ipv6 frame =
     do { b \<leftarrow> get_at frame 0;
          if drop_bit 4 b \<noteq> 6 then None
          else do { len \<leftarrow> get_range frame 4 6;
                    if IPV6_HEADER + unat (u16_of_be len) \<noteq> length frame then None
                    else do { nh \<leftarrow> get_at frame 6;
                              src \<leftarrow> get_range frame 8 24;
                              dst \<leftarrow> get_range frame 24 40;
                              Some \<lparr>h_payload_len = unat (u16_of_be len), h_next_header = nh,
                                    h_src = v6_from src, h_dst = v6_from dst\<rparr> } } }"

definition prefix64 :: "Ipv6Addr \<Rightarrow> bytes" where
  "prefix64 addr = take 8 (v6_octets addr)"

definition egress_ok :: "bytes \<Rightarrow> Ipv6Addr \<Rightarrow> bytes \<Rightarrow> bool" where
  "egress_ok frame kennel_addr prefix =
     (case parse_ipv6 frame of
        None \<Rightarrow> False
      | Some h \<Rightarrow> h_next_header h = NEXT_UDP \<and> h_src h = kennel_addr \<and> prefix64 (h_dst h) = prefix
                  \<and> h_dst h \<noteq> kennel_addr \<and> h_payload_len h \<ge> UDP_HEADER)"

definition ingress_ok :: "bytes \<Rightarrow> Ipv6Addr \<Rightarrow> bytes \<Rightarrow> bool" where
  "ingress_ok frame kennel_addr prefix =
     (case parse_ipv6 frame of
        None \<Rightarrow> False
      | Some h \<Rightarrow>
          if h_dst h \<noteq> kennel_addr \<or> prefix64 (h_src h) \<noteq> prefix then False
          else if h_next_header h = NEXT_UDP then h_payload_len h \<ge> UDP_HEADER
          else if h_next_header h = NEXT_ICMPV6
          then h_payload_len h \<ge> ICMPV6_HEADER
               \<and> get_at frame IPV6_HEADER = Some ICMPV6_DEST_UNREACH
               \<and> (case get_at frame (IPV6_HEADER + 1) of None \<Rightarrow> False
                   | Some c \<Rightarrow> List.member ICMPV6_RELAYED_CODES c)
          else False)"

section \<open>The checksum\<close>

text \<open>The running 32-bit sum over the 16-bit words of a byte string, an odd last byte padded with zero.\<close>

fun add_words :: "nat \<Rightarrow> bytes \<Rightarrow> nat" where
  "add_words acc (a # b # bs) = add_words ((acc + unat (u16_of_be [a, b])) mod 2 ^ 32) bs"
| "add_words acc [a] = (acc + unat (u16_of_be [a, 0])) mod 2 ^ 32"
| "add_words acc [] = acc"

function fold_carries :: "nat \<Rightarrow> nat" where
  "fold_carries acc =
     (if acc div 2 ^ 16 = 0 then acc else fold_carries ((acc mod 2 ^ 16 + acc div 2 ^ 16) mod 2 ^ 32))"
  by pat_completeness auto
termination
proof (relation "measure id")
  fix acc :: nat
  assume "acc div 2 ^ 16 \<noteq> 0"
  then have "0 < acc div 65536" by simp
  with div_mult_mod_eq [of acc 65536] have "acc mod 65536 + acc div 65536 < acc" by linarith
  then have "(acc mod 2 ^ 16 + acc div 2 ^ 16) mod 2 ^ 32 < acc"
    by (simp add: mod_less_eq_dividend order.strict_trans1)
  then show "((acc mod 2 ^ 16 + acc div 2 ^ 16) mod 2 ^ 32, acc) \<in> measure id" by simp
qed simp

declare fold_carries.simps [simp del]

definition checksum_v6 :: "Ipv6Addr \<Rightarrow> Ipv6Addr \<Rightarrow> u8 \<Rightarrow> bytes \<Rightarrow> u16" where
  "checksum_v6 src dst next_header payload =
     (let acc = add_words 0 (v6_octets src);
          acc = add_words acc (v6_octets dst);
          acc = add_words acc (u32_to_be (word_of_nat (min (length payload) u32_max)));
          acc = add_words acc [0, 0, 0, next_header];
          acc = add_words acc payload
      in NOT (word_of_nat (fold_carries acc)))"

definition udp_checksum_v6 :: "Ipv6Addr \<Rightarrow> Ipv6Addr \<Rightarrow> bytes \<Rightarrow> u16" where
  "udp_checksum_v6 src dst udp = checksum_v6 src dst NEXT_UDP udp"

section \<open>The builders\<close>

definition be16 :: "bytes \<Rightarrow> nat \<Rightarrow> u16 option" where
  "be16 buf off = map_option u16_of_be (get_range buf off (off + 2))"

text \<open>The fixed header both builders emit: version 6, hop limit 64.\<close>

definition ipv6_frame :: "u8 \<Rightarrow> u16 \<Rightarrow> Ipv6Addr \<Rightarrow> Ipv6Addr \<Rightarrow> bytes \<Rightarrow> bytes" where
  "ipv6_frame next_header payload_len src dst payload =
     [0x60, 0, 0, 0] @ u16_to_be payload_len @ [next_header, 64] @ v6_octets src @ v6_octets dst @ payload"

definition build_udp_datagram :: "Ipv6Addr \<Rightarrow> Ipv6Addr \<Rightarrow> u16 \<Rightarrow> u16 \<Rightarrow> bytes \<Rightarrow> bytes option" where
  "build_udp_datagram src dst src_port dst_port payload =
     (if UDP_HEADER + length payload > 65535 then None
      else let udp_len = word_of_nat (UDP_HEADER + length payload);
               udp = u16_to_be src_port @ u16_to_be dst_port @ u16_to_be udp_len @ [0, 0] @ payload;
               checksum = udp_checksum_v6 src dst udp;
               checksum = (if checksum = 0 then 0xffff else checksum);
               udp = take 6 udp @ u16_to_be checksum @ drop 8 udp
           in Some (ipv6_frame NEXT_UDP udp_len src dst udp))"

definition CODE_ADMIN_PROHIBITED :: u8 where "CODE_ADMIN_PROHIBITED = 1"
definition CODE_PORT_UNREACHABLE :: u8 where "CODE_PORT_UNREACHABLE = 4"
definition ICMP6_HEADER :: nat where "ICMP6_HEADER = 8"
definition MIN_MTU :: nat where "MIN_MTU = 1280"
definition QUOTE_ROOM :: nat where "QUOTE_ROOM = MIN_MTU - IPV6_HEADER - ICMP6_HEADER"

definition build_dest_unreachable :: "Ipv6Addr \<Rightarrow> Ipv6Addr \<Rightarrow> u8 \<Rightarrow> bytes \<Rightarrow> bytes" where
  "build_dest_unreachable src dst code invoking =
     (let quote = (case get_range invoking 0 QUOTE_ROOM of Some q \<Rightarrow> q | None \<Rightarrow> invoking);
          icmp = [ICMPV6_DEST_UNREACH, code] @ [0, 0] @ [0, 0, 0, 0] @ quote;
          checksum = checksum_v6 src dst NEXT_ICMPV6 icmp;
          icmp = take 2 icmp @ u16_to_be checksum @ drop 4 icmp
      in ipv6_frame NEXT_ICMPV6 (word_of_nat (min (length icmp) 65535)) src dst icmp)"

section \<open>Hexadecimal arguments\<close>

fun to_hex :: "bytes \<Rightarrow> string" where
  "to_hex [] = []"
| "to_hex (b # bs) = digit_char (unat (drop_bit 4 b)) # digit_char (unat (b AND 0x0f)) # to_hex bs"

fun from_hex :: "string \<Rightarrow> bytes option" where
  "from_hex [] = Some []"
| "from_hex [c] = None"
| "from_hex (c # d # cs) =
     do { hi \<leftarrow> digit_val 16 c; lo \<leftarrow> digit_val 16 d; bs \<leftarrow> from_hex cs;
          Some (word_of_nat (hi * 16 + lo) # bs) }"

section \<open>Frames and their headers\<close>

lemma ipv6_frame_length [simp]: "length (ipv6_frame nh len src dst payload) = 40 + length payload"
  by (simp add: ipv6_frame_def)

lemma drop_bit_0x60: "drop_bit 4 (0x60 :: u8) = 6"
  by code_simp

lemma parse_ipv6_frame:
  assumes "length payload = unat len"
  shows "parse_ipv6 (ipv6_frame nh len src dst payload) =
    Some \<lparr>h_payload_len = unat len, h_next_header = nh, h_src = src, h_dst = dst\<rparr>"
proof -
  let ?f = "ipv6_frame nh len src dst payload"
  have "get_at ?f 0 = Some 0x60" "get_at ?f 6 = Some nh"
    by (simp_all add: ipv6_frame_def get_at_def nth_append)
  moreover have "get_range ?f 4 6 = Some (u16_to_be len)" "get_range ?f 8 24 = Some (v6_octets src)"
    "get_range ?f 24 40 = Some (v6_octets dst)"
    by (simp_all add: ipv6_frame_def get_range_def)
  ultimately show ?thesis
    using assms by (simp add: parse_ipv6_def drop_bit_0x60 u16_of_to_be from_octets IPV6_HEADER_def)
qed

lemma drop_ipv6_frame [simp]: "drop 40 (ipv6_frame nh len src dst payload) = payload"
  by (simp add: ipv6_frame_def)

lemma get_at_ipv6_frame: "get_at (ipv6_frame nh len src dst payload) (40 + i) = get_at payload i"
  by (auto simp: ipv6_frame_def get_at_def nth_append)

section \<open>One's complement arithmetic\<close>

text \<open>The sum of the 16-bit words, without wrap-around.\<close>

fun word_sum :: "bytes \<Rightarrow> nat" where
  "word_sum (a # b # bs) = unat (u16_of_be [a, b]) + word_sum bs"
| "word_sum [a] = unat (u16_of_be [a, 0])"
| "word_sum [] = 0"

lemma add_words_eq: "add_words acc bs mod 2 ^ 32 = (acc + word_sum bs) mod 2 ^ 32"
  by (induction acc bs rule: add_words.induct) (simp_all add: mod_simps add.assoc)

lemma add_words_lt: "acc < 2 ^ 32 \<Longrightarrow> add_words acc bs < 2 ^ 32"
  by (induction acc bs rule: add_words.induct) simp_all

lemma add_words_small: "acc + word_sum bs < 2 ^ 32 \<Longrightarrow> add_words acc bs = acc + word_sum bs"
  using add_words_eq [of acc bs] add_words_lt [of acc bs] by simp

lemma unat_u16_le: "unat (w :: u16) \<le> 65535"
  using unsigned_less [of w, where 'a = nat] by simp

lemma word_sum_le: "word_sum bs \<le> 65535 * ((length bs + 1) div 2)"
proof (induction bs rule: word_sum.induct)
  case (1 a b bs)
  then show ?case using unat_u16_le [of "u16_of_be [a, b]"] by simp
next
  case (2 a)
  then show ?case using unat_u16_le [of "u16_of_be [a, 0]"] by simp
qed simp

lemma word_sum_append: "even (length as) \<Longrightarrow> word_sum (as @ bs) = word_sum as + word_sum bs"
  by (induction as rule: word_sum.induct) simp_all

lemma word_sum_u16 [simp]: "word_sum (u16_to_be w) = unat w"
proof -
  obtain hi lo where e: "u16_to_be w = [hi, lo]" by (rule u16_to_be_pair)
  then have "u16_of_be [hi, lo] = w" using u16_of_to_be [of w] by simp
  with e show ?thesis by simp
qed

lemma fold_step:
  fixes n :: nat
  assumes "0 < n div 65536"
  shows "n mod 65536 + n div 65536 < n" "(n mod 65536 + n div 65536) mod 65535 = n mod 65535"
proof -
  show "n mod 65536 + n div 65536 < n" using assms div_mult_mod_eq [of n 65536] by linarith
  have "n = n div 65536 * 65535 + (n mod 65536 + n div 65536)" using div_mult_mod_eq [of n 65536] by linarith
  then have "n mod 65535 = (n div 65536 * 65535 + (n mod 65536 + n div 65536)) mod 65535" by (rule arg_cong)
  then show "(n mod 65536 + n div 65536) mod 65535 = n mod 65535" by (simp only: mod_mult_self3)
qed

lemma fold_carries_facts:
  "n < 2 ^ 32 \<Longrightarrow>
     fold_carries n \<le> 65535 \<and> fold_carries n mod 65535 = n mod 65535 \<and> (fold_carries n = 0 \<longleftrightarrow> n = 0)"
proof (induction n rule: less_induct)
  case (less n)
  show ?case
  proof (cases "n div 65536 = 0")
    case True
    then have "n < 65536" by (simp add: div_eq_0_iff)
    with True show ?thesis by (simp add: fold_carries.simps [of n])
  next
    case False
    then have s: "n mod 65536 + n div 65536 < n" "(n mod 65536 + n div 65536) mod 65535 = n mod 65535"
      using fold_step [of n] by simp_all
    with less.prems have lt: "n mod 65536 + n div 65536 < 2 ^ 32" by linarith
    have "fold_carries n = fold_carries (n mod 65536 + n div 65536)"
      using False lt by (simp add: fold_carries.simps [of n])
    with less.IH [OF s(1) lt] s False show ?thesis by (auto simp: div_eq_0_iff)
  qed
qed

text \<open>Adding the complement of a folded sum to the sum makes it fold to all ones.\<close>

lemma fold_all_ones:
  assumes "n < 2 ^ 32" "0 < n" "n mod 65535 = 0"
  shows "fold_carries n = 65535"
proof -
  have f: "fold_carries n \<le> 65535" "fold_carries n mod 65535 = 0" "0 < fold_carries n"
    using fold_carries_facts [OF assms(1)] assms(2,3) by auto
  show ?thesis
  proof (rule ccontr)
    assume "fold_carries n \<noteq> 65535"
    with f(1) have "fold_carries n < 65535" by simp
    with f(2,3) show False by simp
  qed
qed

lemma unat_not_u16: "n \<le> 65535 \<Longrightarrow> unat (NOT (word_of_nat n :: u16)) = 65535 - n"
proof -
  assume n: "n \<le> 65535"
  have "NOT (word_of_nat n :: u16) = - 1 - word_of_nat n" by (simp add: not_eq_complement)
  also have "\<dots> = word_of_nat (65535 - n)" using n by (simp add: of_nat_diff)
  finally have e: "NOT (word_of_nat n :: u16) = word_of_nat (65535 - n)" .
  show ?thesis unfolding e unat_of_nat using n by simp
qed

lemma complement_folds:
  assumes "n + 65535 < 2 ^ 32" "0 < n" "c = NOT (word_of_nat (fold_carries n) :: u16) \<or> fold_carries n = 65535 \<and> c = 0xffff"
  shows "fold_carries (n + unat c) = 65535"
proof (rule fold_all_ones)
  have n: "n < 2 ^ 32" using assms(1) by simp
  note f = fold_carries_facts [OF n]
  have c: "unat c = 65535 - fold_carries n \<or> fold_carries n = 65535 \<and> unat c = 65535"
    using assms(3) unat_not_u16 [of "fold_carries n"] f by auto
  show "n + unat c < 2 ^ 32" using assms(1) unat_u16_le [of c] by simp
  show "0 < n + unat c" using assms(2) by simp
  have "(fold_carries n + unat c) mod 65535 = 0" using c f by auto
  moreover have "(fold_carries n + unat c) mod 65535 = (fold_carries n mod 65535 + unat c) mod 65535"
    by (simp only: mod_add_left_eq)
  moreover have "(n + unat c) mod 65535 = (n mod 65535 + unat c) mod 65535" by (simp only: mod_add_left_eq)
  ultimately show "(n + unat c) mod 65535 = 0" using f by simp
qed

lemma unat_u16_of_be: "unat (u16_of_be bs) = be_val bs mod 65536"
  by (simp add: u16_of_be_def unat_of_nat)

text \<open>The pseudo-header's share of the sum.\<close>

definition pseudo_sum :: "Ipv6Addr \<Rightarrow> Ipv6Addr \<Rightarrow> u8 \<Rightarrow> nat \<Rightarrow> nat" where
  "pseudo_sum src dst nh len =
     word_sum (v6_octets src) + word_sum (v6_octets dst) + word_sum (u32_to_be (word_of_nat len))
     + word_sum [0, 0, 0, nh]"

lemma pseudo_sum_bounds: "unat nh \<le> pseudo_sum src dst nh len" "pseudo_sum src dst nh len \<le> 65535 * 20"
proof -
  have "unat nh \<le> word_sum [0, 0, 0, nh]"
    using unat_u8_lt [of nh] by (simp add: unat_u16_of_be be_val_Cons)
  then show "unat nh \<le> pseudo_sum src dst nh len" by (simp add: pseudo_sum_def)
  show "pseudo_sum src dst nh len \<le> 65535 * 20"
    using word_sum_le [of "v6_octets src"] word_sum_le [of "v6_octets dst"]
      word_sum_le [of "u32_to_be (word_of_nat len)"] word_sum_le [of "[0, 0, 0, nh]"]
    by (simp add: pseudo_sum_def del: word_sum.simps)
qed

lemma payload_sum_bound: "length payload \<le> 65535 \<Longrightarrow> word_sum payload \<le> 65535 * 32768"
proof -
  assume "length payload \<le> 65535"
  then have "(length payload + 1) div 2 \<le> 32768" by simp
  then have "65535 * ((length payload + 1) div 2) \<le> 65535 * (32768 :: nat)" by (rule mult_left_mono) simp
  with word_sum_le [of payload] show ?thesis by linarith
qed

lemma checksum_v6_eq:
  assumes "length payload \<le> 65535"
  shows "checksum_v6 src dst nh payload =
    NOT (word_of_nat (fold_carries (pseudo_sum src dst nh (length payload) + word_sum payload)))"
proof -
  define a where "a = word_sum (v6_octets src)"
  define b where "b = word_sum (v6_octets dst)"
  define c where "c = word_sum (u32_to_be (word_of_nat (length payload)))"
  define d where "d = word_sum [0, 0, 0, nh]"
  have total: "a + b + c + d \<le> 65535 * 20"
    using pseudo_sum_bounds(2) [of src dst nh "length payload"]
    by (simp add: pseudo_sum_def a_def b_def c_def d_def del: word_sum.simps)
  have "add_words 0 (v6_octets src) = a" unfolding a_def using total
    by (subst add_words_small) (simp_all add: a_def)
  moreover have "add_words a (v6_octets dst) = a + b" unfolding b_def using total
    by (intro add_words_small) (simp add: b_def)
  moreover have "add_words (a + b) (u32_to_be (word_of_nat (length payload))) = a + b + c" unfolding c_def using total
    by (intro add_words_small) (simp add: c_def)
  moreover have "add_words (a + b + c) [0, 0, 0, nh] = a + b + c + d" unfolding d_def using total
    by (intro add_words_small) (simp add: d_def del: word_sum.simps)
  moreover have "add_words (a + b + c + d) payload = a + b + c + d + word_sum payload"
    using total payload_sum_bound [OF assms] by (intro add_words_small) simp
  moreover have "min (length payload) u32_max = length payload" using assms by (simp add: u32_max_def)
  ultimately show ?thesis
    by (simp add: checksum_v6_def Let_def pseudo_sum_def a_def b_def c_def d_def
        del: word_sum.simps add_words.simps)
qed

text \<open>A packet in which the complement of its own sum replaces a zero field checks to zero.\<close>

lemma checksum_inserted:
  assumes "length head + length tail \<le> 65533" "even (length head)" "0 < unat nh"
    and "c = checksum_v6 src dst nh (head @ [0, 0] @ tail)
      \<or> checksum_v6 src dst nh (head @ [0, 0] @ tail) = 0 \<and> c = 0xffff"
  shows "checksum_v6 src dst nh (head @ u16_to_be c @ tail) = 0"
proof -
  define n where "n = pseudo_sum src dst nh (length head + length tail + 2) + word_sum head + word_sum tail"
  have z: "word_sum ([0, 0] @ tail) = word_sum tail" by (simp add: u16_of_be_def be_val_Cons)
  have w: "word_sum (u16_to_be c @ tail) = unat c + word_sum tail" by (subst word_sum_append) simp_all
  have len: "length (head @ [0, 0] @ tail) \<le> 65535" "length (head @ u16_to_be c @ tail) \<le> 65535"
    using assms(1) by simp_all
  have zero: "checksum_v6 src dst nh (head @ [0, 0] @ tail) = NOT (word_of_nat (fold_carries n))"
    unfolding checksum_v6_eq [OF len(1)] word_sum_append [OF assms(2)] z by (simp add: n_def add.assoc)
  have filled: "checksum_v6 src dst nh (head @ u16_to_be c @ tail) = NOT (word_of_nat (fold_carries (n + unat c)))"
    unfolding checksum_v6_eq [OF len(2)] word_sum_append [OF assms(2)] w by (simp add: n_def ac_simps)
  have "word_sum head + word_sum tail = word_sum (head @ [0, 0] @ tail)"
    unfolding word_sum_append [OF assms(2)] z by simp
  then have "n \<le> 65535 * 20 + 65535 * 32768"
    using pseudo_sum_bounds(2) [of src dst nh "length head + length tail + 2"] payload_sum_bound [OF len(1)]
    by (simp add: n_def)
  then have small: "n + 65535 < 2 ^ 32" by simp
  have "0 < n" using assms(3) pseudo_sum_bounds(1) [of nh src dst "length head + length tail + 2"] by (simp add: n_def)
  moreover have "NOT (word_of_nat (fold_carries n) :: u16) = 0 \<Longrightarrow> fold_carries n = 65535"
    using unat_not_u16 [of "fold_carries n"] fold_carries_facts [of n] small by simp
  ultimately have "fold_carries (n + unat c) = 65535"
    using assms(4) small unfolding zero by (intro complement_folds) auto
  moreover have "NOT (word_of_nat 65535 :: u16) = 0" by simp
  ultimately show ?thesis by (simp add: filled)
qed

section \<open>Properties\<close>

lemma built_datagram:
  assumes "build_udp_datagram src dst src_port dst_port payload = Some frame"
  shows "ingress_ok frame dst (prefix64 src) \<and> checksum_v6 src dst NEXT_UDP (drop 40 frame) = 0
    \<and> be16 frame 40 = Some src_port \<and> be16 frame 42 = Some dst_port \<and> get_from frame 48 = Some payload"
proof -
  define len :: u16 where "len = word_of_nat (8 + length payload)"
  define head where "head = u16_to_be src_port @ u16_to_be dst_port @ u16_to_be len"
  define sum0 where "sum0 = checksum_v6 src dst NEXT_UDP (head @ [0, 0] @ payload)"
  define c where "c = (if sum0 = 0 then 0xffff else sum0)"
  from assms have small: "8 + length payload \<le> 65535" and frame: "frame = ipv6_frame NEXT_UDP len src dst (head @ u16_to_be c @ payload)"
    by (auto simp: build_udp_datagram_def UDP_HEADER_def Let_def len_def head_def sum0_def c_def udp_checksum_v6_def
      split: if_splits)
  have hl: "length head = 6" by (simp add: head_def)
  have len: "unat len = 8 + length payload" unfolding len_def unat_of_nat using small by simp
  then have ul: "length (head @ u16_to_be c @ payload) = unat len" by (simp add: hl)
  have "checksum_v6 src dst NEXT_UDP (head @ u16_to_be c @ payload) = 0"
    by (rule checksum_inserted) (use small hl in \<open>auto simp: NEXT_UDP_def c_def sum0_def\<close>)
  moreover have "ingress_ok frame dst (prefix64 src)"
    unfolding frame ingress_ok_def parse_ipv6_frame [OF ul] by (simp add: len UDP_HEADER_def)
  moreover have "be16 frame 40 = Some src_port" "be16 frame 42 = Some dst_port" "get_from frame 48 = Some payload"
    by (simp_all add: frame ipv6_frame_def be16_def get_range_def get_from_def head_def u16_of_to_be)
  ultimately show ?thesis by (simp add: frame)
qed

text \<open>Every datagram the broker builds for the workload passes the facade's ingress check and carries a valid
  checksum: addressed to the kennel from an address of its own network, its header says exactly its
  length, and the receiver's sum over pseudo-header and datagram comes out right, also where the
  computed checksum is zero and all ones is sent instead.\<close>

theorem built_datagram_accepted:
  assumes "build_udp_datagram src dst src_port dst_port payload = Some frame"
  shows "ingress_ok frame dst (prefix64 src) \<and> checksum_v6 src dst NEXT_UDP (drop 40 frame) = 0
    \<and> be16 frame 40 = Some src_port \<and> be16 frame 42 = Some dst_port \<and> get_from frame 48 = Some payload"
  using built_datagram [OF assms] .

theorem built_datagram_accepted_witness:
  "\<exists>frame. build_udp_datagram 0x20010db8 0x1 53 4000 [1, 2, 3] = Some frame \<and> ingress_ok frame 0x1 (prefix64 0x20010db8)"
proof -
  obtain frame where f: "build_udp_datagram 0x20010db8 0x1 53 4000 [1, 2, 3] = Some frame"
    by (simp add: build_udp_datagram_def UDP_HEADER_def Let_def)
  from built_datagram_accepted [OF f] f show ?thesis by blast
qed

lemma built_error:
  assumes "code = CODE_ADMIN_PROHIBITED \<or> code = CODE_PORT_UNREACHABLE"
  shows "ingress_ok (build_dest_unreachable src dst code invoking) dst (prefix64 src)
    \<and> length (build_dest_unreachable src dst code invoking) \<le> MIN_MTU
    \<and> checksum_v6 src dst NEXT_ICMPV6 (drop 40 (build_dest_unreachable src dst code invoking)) = 0"
proof -
  define quote where "quote = (case get_range invoking 0 QUOTE_ROOM of Some q \<Rightarrow> q | None \<Rightarrow> invoking)"
  define c where "c = checksum_v6 src dst NEXT_ICMPV6 ([ICMPV6_DEST_UNREACH, code] @ [0, 0] @ [0, 0, 0, 0] @ quote)"
  define icmp where "icmp = [ICMPV6_DEST_UNREACH, code] @ u16_to_be c @ [0, 0, 0, 0] @ quote"
  have ql: "length quote \<le> 1232"
    by (auto simp: quote_def get_range_def QUOTE_ROOM_def MIN_MTU_def IPV6_HEADER_def ICMP6_HEADER_def split: option.splits if_splits)
  have frame: "build_dest_unreachable src dst code invoking = ipv6_frame NEXT_ICMPV6 (word_of_nat (length icmp)) src dst icmp"
  proof -
    have "take 2 ([ICMPV6_DEST_UNREACH, code] @ [0, 0] @ [0, 0, 0, 0] @ quote) = [ICMPV6_DEST_UNREACH, code]"
      "drop 4 ([ICMPV6_DEST_UNREACH, code] @ [0, 0] @ [0, 0, 0, 0] @ quote) = [0, 0, 0, 0] @ quote" by simp_all
    moreover have "min (length icmp) 65535 = length icmp" using ql by (simp add: icmp_def)
    ultimately show ?thesis
      unfolding build_dest_unreachable_def Let_def quote_def [symmetric] c_def [symmetric]
      by (simp only: icmp_def [symmetric])
  qed
  have i4: "4 \<le> length icmp" by (simp add: icmp_def)
  have "length icmp < 2 ^ 16" using ql by (simp add: icmp_def)
  then have il: "length icmp = unat (word_of_nat (length icmp) :: u16)" unfolding unat_of_nat by simp
  have "checksum_v6 src dst NEXT_ICMPV6 icmp = 0"
    unfolding icmp_def by (rule checksum_inserted) (use ql in \<open>auto simp: NEXT_ICMPV6_def c_def\<close>)
  moreover have "get_at icmp 0 = Some ICMPV6_DEST_UNREACH" "get_at icmp 1 = Some code"
    by (simp_all add: icmp_def get_at_def)
  then have "ingress_ok (ipv6_frame NEXT_ICMPV6 (word_of_nat (length icmp)) src dst icmp) dst (prefix64 src)"
    using get_at_ipv6_frame [of _ _ _ _ icmp 0] get_at_ipv6_frame [of _ _ _ _ icmp 1] assms
    unfolding ingress_ok_def parse_ipv6_frame [OF il]
    by (auto simp: il [symmetric] i4 NEXT_UDP_def NEXT_ICMPV6_def IPV6_HEADER_def ICMPV6_HEADER_def
      ICMPV6_RELAYED_CODES_def CODE_ADMIN_PROHIBITED_def CODE_PORT_UNREACHABLE_def List.member_iff)
  ultimately show ?thesis using ql by (simp add: frame MIN_MTU_def icmp_def)
qed

text \<open>Every local error the broker answers passes the facade's ingress check, fits the pinned 1280-byte MTU
  whatever packet it quotes, and carries a valid checksum.\<close>

theorem built_error_accepted:
  assumes "code = CODE_ADMIN_PROHIBITED \<or> code = CODE_PORT_UNREACHABLE"
  shows "ingress_ok (build_dest_unreachable src dst code invoking) dst (prefix64 src)
    \<and> length (build_dest_unreachable src dst code invoking) \<le> MIN_MTU
    \<and> checksum_v6 src dst NEXT_ICMPV6 (drop 40 (build_dest_unreachable src dst code invoking)) = 0"
  using built_error [OF assms] .

theorem built_error_accepted_witness: "ingress_ok (build_dest_unreachable 0x2 0x1 1 [6, 7]) 0x1 (prefix64 0x2)"
  using built_error_accepted [of 1 2 1 "[6, 7]"] by (simp add: CODE_ADMIN_PROHIBITED_def)

end
