(* ===== verification/Tun_Shim.thy ===== *)
theory Tun_Shim
  imports Flow_Table Name_Match Settled Transition_System
begin

text \<open>
  The naming shim of the tun broker (\<open>kennel-tun-broker/src/shim.rs\<close>): the UDP allowlist, the pool of
  synthetic addresses with its rotating window per grant, and the answer to a DNS query.  Reading and
  writing DNS messages is another package's work and a parameter.
\<close>

definition FIRST_POOL_HOST :: nat where "FIRST_POOL_HOST = 0x10"
definition SYNTH_TTL :: nat where "SYNTH_TTL = 60"
definition MAX_POOL :: nat where "MAX_POOL = 4096"
definition MAX_PER_GRANT :: nat where "MAX_PER_GRANT = 32"
definition QTYPE_AAAA :: u16 where "QTYPE_AAAA = 28"

section \<open>The allowlist\<close>

type_synonym Allowlist = "NameRule list"

fun position :: "('a \<Rightarrow> bool) \<Rightarrow> 'a list \<Rightarrow> nat option" where
  "position P [] = None"
| "position P (x # xs) = (if P x then Some 0 else map_option Suc (position P xs))"

definition first_match :: "Allowlist \<Rightarrow> string \<Rightarrow> nat option" where
  "first_match rules name = position (\<lambda>r. name_matches (nm_name r) name) rules"

definition allows_name :: "Allowlist \<Rightarrow> string \<Rightarrow> bool" where
  "allows_name rules name \<longleftrightarrow> first_match rules name \<noteq> None"

definition port_permitted :: "u16 list \<Rightarrow> u16 \<Rightarrow> bool" where
  "port_permitted ports port \<longleftrightarrow> ports = [] \<or> port \<in> set ports"

definition allows :: "Allowlist \<Rightarrow> string \<Rightarrow> u16 \<Rightarrow> bool" where
  "allows rules name port \<longleftrightarrow>
     list_ex (\<lambda>r. name_matches (nm_name r) name \<and> port_permitted (nm_ports r) port) rules"

section \<open>The pool\<close>

record Mint =
  mi_addr :: Ipv6Addr
  mi_grant :: nat
  mi_last_use :: nat

record Pool =
  po_prefix :: bytes
  po_next_host :: nat
  po_mapping :: "(string \<times> Mint) list"
  po_per_grant :: "(nat \<times> nat) list"
  po_tick :: nat

definition Pool_new :: "bytes \<Rightarrow> Pool" where
  "Pool_new prefix =
     \<lparr>po_prefix = prefix, po_next_host = FIRST_POOL_HOST, po_mapping = [], po_per_grant = [], po_tick = 0\<rparr>"

definition synthetic :: "bytes \<Rightarrow> nat \<Rightarrow> Ipv6Addr" where
  "synthetic prefix host = v6_from (prefix @ u64_to_be (word_of_nat host))"

text \<open>\<open>min_by_key\<close>: the first entry with the least recency.\<close>

fun least_recent :: "(string \<times> Mint) list \<Rightarrow> (string \<times> Mint) option" where
  "least_recent [] = None"
| "least_recent (e # es) =
     (case least_recent es of None \<Rightarrow> Some e
      | Some f \<Rightarrow> if mi_last_use (snd f) < mi_last_use (snd e) then Some f else Some e)"

definition grant_count :: "Pool \<Rightarrow> nat \<Rightarrow> nat" where
  "grant_count p grant = (case map_of (po_per_grant p) grant of Some c \<Rightarrow> c | None \<Rightarrow> 0)"

text \<open>Make room in a full window: drop the least recently used mint of the grant that carries no flow.\<close>

definition evict :: "Pool \<Rightarrow> nat \<Rightarrow> Ipv6Addr set \<Rightarrow> Pool option" where
  "evict p grant live =
     map_option (\<lambda>(victim, _). p\<lparr>po_mapping := AList.delete victim (po_mapping p),
         po_per_grant := (case map_of (po_per_grant p) grant of None \<Rightarrow> po_per_grant p
                          | Some c \<Rightarrow> AList.update grant (c - 1) (po_per_grant p))\<rparr>)
       (least_recent (filter (\<lambda>(_, m). mi_grant m = grant \<and> mi_addr m \<notin> live) (po_mapping p)))"

definition insert_mint :: "Pool \<Rightarrow> string \<Rightarrow> nat \<Rightarrow> Ipv6Addr \<times> Pool" where
  "insert_mint p name grant =
     (let addr = synthetic (po_prefix p) (po_next_host p)
      in (addr, p\<lparr>po_next_host := sat_add u64_max (po_next_host p) 1,
              po_mapping := AList.update name \<lparr>mi_addr = addr, mi_grant = grant, mi_last_use = po_tick p\<rparr> (po_mapping p),
              po_per_grant := AList.update grant (sat_add u64_max (grant_count p grant) 1) (po_per_grant p)\<rparr>))"

definition pool_mint :: "Pool \<Rightarrow> string \<Rightarrow> nat \<Rightarrow> Ipv6Addr set \<Rightarrow> Ipv6Addr option \<times> Pool" where
  "pool_mint p name grant live =
     (let p = p\<lparr>po_tick := sat_add u64_max (po_tick p) 1\<rparr>
      in case map_of (po_mapping p) name of
           Some m \<Rightarrow> (Some (mi_addr m), p\<lparr>po_mapping := AList.update name (m\<lparr>mi_last_use := po_tick p\<rparr>) (po_mapping p)\<rparr>)
         | None \<Rightarrow>
             if length (po_mapping p) \<ge> MAX_POOL then (None, p)
             else (case (if grant_count p grant \<ge> MAX_PER_GRANT then evict p grant live else Some p) of
                     None \<Rightarrow> (None, p)
                   | Some q \<Rightarrow> (case insert_mint q name grant of (addr, r) \<Rightarrow> (Some addr, r))))"

definition name_of :: "Pool \<Rightarrow> Ipv6Addr \<Rightarrow> string option" where
  "name_of p addr = map_option fst (find (\<lambda>(_, m). mi_addr m = addr) (po_mapping p))"

section \<open>Answering a query\<close>

record DnsQuestion =
  dq_name :: string
  dq_type :: u16

record DnsPacket =
  dp_id :: u16
  dp_questions :: "DnsQuestion list"

record DnsReply =
  dr_id :: u16
  dr_questions :: "DnsQuestion list"
  dr_answers :: "(string \<times> nat \<times> Ipv6Addr) list"

definition respond ::
    "(bytes \<Rightarrow> DnsPacket option) \<Rightarrow> (DnsReply \<Rightarrow> bytes option) \<Rightarrow>
     bytes \<Rightarrow> Allowlist \<Rightarrow> Pool \<Rightarrow> Ipv6Addr set \<Rightarrow> bytes option \<times> Pool" where
  "respond parse build query rules p live =
     (case Option.bind (parse query) (\<lambda>pk. case dp_questions pk of [] \<Rightarrow> None | q # _ \<Rightarrow> Some (dp_id pk, q)) of
        None \<Rightarrow> (None, p)
      | Some (ident, q) \<Rightarrow>
          let minted = (if dq_type q = QTYPE_AAAA
                        then case first_match rules (dq_name q) of
                               None \<Rightarrow> (None, p)
                             | Some grant \<Rightarrow> pool_mint p (dq_name q) grant live
                        else (None, p));
              answers = (case fst minted of None \<Rightarrow> [] | Some addr \<Rightarrow> [(dq_name q, SYNTH_TTL, addr)])
          in (build \<lparr>dr_id = ident, dr_questions = [q], dr_answers = answers\<rparr>, snd minted))"

definition query_question :: "(bytes \<Rightarrow> DnsPacket option) \<Rightarrow> bytes \<Rightarrow> (string \<times> u16) option" where
  "query_question parse packet =
     Option.bind (parse packet) (\<lambda>pk. case dp_questions pk of [] \<Rightarrow> None | q # _ \<Rightarrow> Some (dq_name q, dq_type q))"

section \<open>Association lists\<close>

lemma update_absent: "map_of m k = None \<Longrightarrow> AList.update k v m = m @ [(k, v)]"
  by (induction m) (auto split: if_splits)

lemma update_middle: "k \<notin> fst ` set xs \<Longrightarrow> AList.update k v (xs @ (k, v0) # ys) = xs @ (k, v) # ys"
  by (induction xs) auto

lemma delete_middle:
  "k \<notin> fst ` set xs \<Longrightarrow> k \<notin> fst ` set ys \<Longrightarrow> AList.delete k (xs @ (k, v0) # ys) = xs @ ys"
  by (induction xs) (force simp: AList.delete_eq filter_id_conv)+

lemma update_present:
  assumes "distinct (map fst m)" "map_of m k = Some v0"
  obtains xs ys where "m = xs @ (k, v0) # ys" "\<And>v. AList.update k v m = xs @ (k, v) # ys"
    "AList.delete k m = xs @ ys"
proof -
  from split_list [OF map_of_SomeD [OF assms(2)]] obtain xs ys where m: "m = xs @ (k, v0) # ys" by blast
  have k: "k \<notin> fst ` set xs" "k \<notin> fst ` set ys" using assms(1) unfolding m by auto
  show ?thesis
    by (rule that [OF m]) (simp_all only: m update_middle [OF k(1)] delete_middle [OF k])
qed

section \<open>The window and the addresses\<close>

definition pool_addrs :: "Pool \<Rightarrow> Ipv6Addr list" where
  "pool_addrs p = map (\<lambda>(_, m). mi_addr m) (po_mapping p)"

definition pool_grants :: "Pool \<Rightarrow> nat list" where
  "pool_grants p = map (\<lambda>(_, m). mi_grant m) (po_mapping p)"

definition issued_below :: "Pool \<Rightarrow> Ipv6Addr \<Rightarrow> bool" where
  "issued_below p a \<longleftrightarrow> (\<exists>h. FIRST_POOL_HOST \<le> h \<and> h < po_next_host p \<and> a = synthetic (po_prefix p) h)"

definition pool_ok :: "Pool \<Rightarrow> bool" where
  "pool_ok p \<longleftrightarrow> length (po_prefix p) = 8 \<and> FIRST_POOL_HOST \<le> po_next_host p \<and> po_next_host p \<le> u64_max
     \<and> distinct (map fst (po_mapping p)) \<and> distinct (pool_addrs p)
     \<and> (\<forall>a\<in>set (pool_addrs p). issued_below p a)
     \<and> length (po_mapping p) \<le> MAX_POOL
     \<and> (\<forall>g. grant_count p g = count_list (pool_grants p) g \<and> count_list (pool_grants p) g \<le> MAX_PER_GRANT)"

lemma pool_okD:
  assumes "pool_ok p"
  shows "distinct (map fst (po_mapping p))" "distinct (pool_addrs p)" "length (po_mapping p) \<le> MAX_POOL"
    "a \<in> set (pool_addrs p) \<Longrightarrow> issued_below p a"
    "grant_count p g = count_list (pool_grants p) g" "count_list (pool_grants p) g \<le> MAX_PER_GRANT"
  using assms unfolding pool_ok_def by simp_all

lemma synthetic_octets:
  "length prefix = 8 \<Longrightarrow> v6_octets (synthetic prefix h) = prefix @ u64_to_be (word_of_nat h)"
  by (simp add: synthetic_def octets_v6_from u64_to_be_def)

lemma synthetic_eq_iff:
  assumes "length prefix = 8" "h \<le> u64_max" "k \<le> u64_max"
  shows "synthetic prefix h = synthetic prefix k \<longleftrightarrow> h = k"
proof
  assume "synthetic prefix h = synthetic prefix k"
  then have "u64_to_be (word_of_nat h) = u64_to_be (word_of_nat k)"
    using synthetic_octets [OF assms(1)] by (metis same_append_eq)
  then have "be_val (u64_to_be (word_of_nat h)) = be_val (u64_to_be (word_of_nat k))" by simp
  with assms show "h = k"
    by (simp add: u64_to_be_def be_val_be_bytes unat_of_nat u64_max_def)
qed simp

lemma least_recent_mem: "least_recent es = Some e \<Longrightarrow> e \<in> set es"
  by (induction es arbitrary: e) (auto split: option.splits if_splits)

lemma least_recent_None: "least_recent es = None \<longleftrightarrow> es = []"
  by (cases es) (auto split: option.splits if_splits)

lemma least_recent_least: "least_recent es = Some e \<Longrightarrow> f \<in> set es \<Longrightarrow> mi_last_use (snd e) \<le> mi_last_use (snd f)"
proof (induction es arbitrary: e)
  case (Cons a es)
  show ?case
  proof (cases "least_recent es")
    case None
    with Cons.prems show ?thesis by (simp add: least_recent_None)
  next
    case (Some b)
    with Cons.IH [OF Some] Cons.prems show ?thesis by (auto split: if_splits)
  qed
qed simp

lemma fresh_not_issued:
  "pool_ok p \<Longrightarrow> \<not> issued_below p (synthetic (po_prefix p) (po_next_host p))"
  by (auto simp: pool_ok_def issued_below_def synthetic_eq_iff)

lemma Pool_new_ok: "length prefix = 8 \<Longrightarrow> pool_ok (Pool_new prefix)"
  by (simp add: pool_ok_def Pool_new_def pool_addrs_def pool_grants_def grant_count_def FIRST_POOL_HOST_def u64_max_def)

text \<open>The three changes a mint makes: a recency touch, an eviction, an insertion.\<close>

lemma tick_ok [simp]: "pool_ok (p\<lparr>po_tick := t\<rparr>) \<longleftrightarrow> pool_ok p"
  by (simp add: pool_ok_def pool_addrs_def pool_grants_def issued_below_def grant_count_def)

lemma recency_ok:
  assumes "pool_ok p" "map_of (po_mapping p) name = Some m"
  shows "pool_ok (p\<lparr>po_mapping := AList.update name (m\<lparr>mi_last_use := t\<rparr>) (po_mapping p)\<rparr>)"
proof -
  obtain xs ys where m: "po_mapping p = xs @ (name, m) # ys"
    and u: "\<And>v. AList.update name v (po_mapping p) = xs @ (name, v) # ys"
    using update_present [OF pool_okD(1) [OF assms(1)] assms(2)] by metis
  from assms(1) show ?thesis
    unfolding u pool_ok_def pool_addrs_def pool_grants_def issued_below_def grant_count_def by (simp add: m)
qed

lemma evict_facts:
  assumes "pool_ok p" "evict p grant live = Some q"
  obtains victim m xs ys where "po_mapping p = xs @ (victim, m) # ys" "po_mapping q = xs @ ys"
    "mi_grant m = grant" "mi_addr m \<notin> live"
    "\<And>f. f \<in> set (po_mapping p) \<Longrightarrow> mi_grant (snd f) = grant \<Longrightarrow> mi_addr (snd f) \<notin> live \<Longrightarrow>
       mi_last_use m \<le> mi_last_use (snd f)"
    "po_next_host q = po_next_host p" "po_prefix q = po_prefix p" "po_tick q = po_tick p"
    "\<And>g. grant_count q g = (if g = grant then grant_count p g - 1 else grant_count p g)"
proof -
  from assms(2) obtain victim m where l:
      "least_recent (filter (\<lambda>(_, m). mi_grant m = grant \<and> mi_addr m \<notin> live) (po_mapping p)) = Some (victim, m)"
    and q: "q = p\<lparr>po_mapping := AList.delete victim (po_mapping p),
         po_per_grant := (case map_of (po_per_grant p) grant of None \<Rightarrow> po_per_grant p
                          | Some c \<Rightarrow> AList.update grant (c - 1) (po_per_grant p))\<rparr>"
    by (auto simp: evict_def)
  from least_recent_mem [OF l] have v: "(victim, m) \<in> set (po_mapping p)" "mi_grant m = grant" "mi_addr m \<notin> live"
    by auto
  with pool_okD(1) [OF assms(1)] have "map_of (po_mapping p) victim = Some m" by simp
  then obtain xs ys where "po_mapping p = xs @ (victim, m) # ys" "AList.delete victim (po_mapping p) = xs @ ys"
    using update_present [OF pool_okD(1) [OF assms(1)]] by metis
  with q v least_recent_least [OF l] that [of xs victim m ys] show ?thesis
    by (auto simp: grant_count_def update_conv' split: option.splits)
qed

lemma evict_keeps:
  assumes "pool_ok p" "evict p grant live = Some q"
  shows "set (po_mapping q) \<subseteq> set (po_mapping p)" "po_next_host q = po_next_host p" "po_prefix q = po_prefix p"
    "\<And>e. e \<in> set (po_mapping p) \<Longrightarrow> mi_addr (snd e) \<in> live \<Longrightarrow> e \<in> set (po_mapping q)"
  by (rule evict_facts [OF assms], force)+

lemma evict_ok:
  assumes "pool_ok p" "evict p grant live = Some q"
  shows "pool_ok q"
    "grant_count q grant < MAX_PER_GRANT" "length (po_mapping q) < MAX_POOL"
proof -
  obtain victim m xs ys where p: "po_mapping p = xs @ (victim, m) # ys" "mi_grant m = grant"
    and q: "po_mapping q = xs @ ys" "po_next_host q = po_next_host p" "po_prefix q = po_prefix p"
    and c: "\<And>g. grant_count q g = (if g = grant then grant_count p g - 1 else grant_count p g)"
    using evict_facts [OF assms] by metis
  note g = pool_okD(5,6) [OF assms(1)]
  have k: "count_list (pool_grants p) g = count_list (pool_grants q) g + (if g = grant then 1 else 0)" for g
    using p by (simp add: pool_grants_def q)
  have "grant_count q g = count_list (pool_grants q) g \<and> count_list (pool_grants q) g \<le> MAX_PER_GRANT" for g
    using g [of g] c [of g] k [of g] by (cases "g = grant") simp_all
  with assms(1) show "pool_ok q"
    unfolding pool_ok_def pool_addrs_def issued_below_def q by (auto simp: p)
  show "grant_count q grant < MAX_PER_GRANT"
    using g(2) [of grant] c [of grant] g(1) [of grant] by (auto simp: MAX_PER_GRANT_def)
  show "length (po_mapping q) < MAX_POOL" using assms(1) by (auto simp: pool_ok_def p q)
qed

lemma insert_ok:
  assumes "pool_ok p" "map_of (po_mapping p) name = None" "po_next_host p < u64_max"
    "length (po_mapping p) < MAX_POOL" "grant_count p grant < MAX_PER_GRANT"
  shows "pool_ok (snd (insert_mint p name grant))"
proof -
  define a where "a = synthetic (po_prefix p) (po_next_host p)"
  define q where "q = snd (insert_mint p name grant)"
  have q: "po_mapping q = po_mapping p @ [(name, \<lparr>mi_addr = a, mi_grant = grant, mi_last_use = po_tick p\<rparr>)]"
    "po_next_host q = po_next_host p + 1" "po_prefix q = po_prefix p"
    "grant_count q g = (if g = grant then grant_count p g + 1 else grant_count p g)" for g
    using assms by (simp_all add: q_def insert_mint_def Let_def a_def update_absent update_conv' sat_add_def u64_max_def
        MAX_PER_GRANT_def grant_count_def)
  have "a \<notin> set (pool_addrs p)" using fresh_not_issued assms(1) by (auto simp: pool_ok_def a_def)
  moreover have "issued_below q x" if "issued_below p x \<or> x = a" for x
    using that assms(1) by (auto simp: issued_below_def q a_def pool_ok_def intro: less_SucI)
  moreover have "name \<notin> fst ` set (po_mapping p)" using assms(2) by (simp add: map_of_eq_None_iff)
  moreover have "grant_count q g = count_list (pool_grants q) g \<and> count_list (pool_grants q) g \<le> MAX_PER_GRANT" for g
    using assms(1,5) by (auto simp: pool_ok_def q pool_grants_def)
  ultimately show ?thesis
    using assms unfolding q_def [symmetric] pool_ok_def by (auto simp: q pool_addrs_def)
qed

text \<open>The outcomes of a mint: the name is known, it is refused, or it gets a fresh address after room was
  made where the window was full.\<close>

lemma pool_mint_cases:
  assumes ok: "pool_ok p" and r: "pool_mint p name grant live = (answer, q)"
  defines "p1 \<equiv> p\<lparr>po_tick := sat_add u64_max (po_tick p) 1\<rparr>"
  obtains (known) m where "map_of (po_mapping p) name = Some m" "answer = Some (mi_addr m)"
      "q = p1\<lparr>po_mapping := AList.update name (m\<lparr>mi_last_use := po_tick p1\<rparr>) (po_mapping p1)\<rparr>"
    | (refused) "map_of (po_mapping p) name = None" "answer = None" "q = p1"
    | (fresh) p2 where "map_of (po_mapping p2) name = None" "p2 = p1 \<or> evict p1 grant live = Some p2"
      "pool_ok p2" "length (po_mapping p2) < MAX_POOL" "grant_count p2 grant < MAX_PER_GRANT"
      "(answer, q) = (Some (fst (insert_mint p2 name grant)), snd (insert_mint p2 name grant))"
proof (cases "map_of (po_mapping p) name")
  case (Some m)
  with r that(1) [of m] show ?thesis by (simp add: pool_mint_def p1_def Let_def)
next
  case None
  have p1: "pool_ok p1" "po_mapping p1 = po_mapping p" using ok by (simp_all add: p1_def)
  define w where "w = (if grant_count p1 grant \<ge> MAX_PER_GRANT then evict p1 grant live else Some p1)"
  have r': "(if length (po_mapping p1) \<ge> MAX_POOL then (None, p1)
             else (case w of None \<Rightarrow> (None, p1)
                   | Some q \<Rightarrow> (case insert_mint q name grant of (addr, r) \<Rightarrow> (Some addr, r)))) = (answer, q)"
    using r None unfolding pool_mint_def Let_def w_def p1_def by (simp split del: if_split)
  show ?thesis
  proof (cases "length (po_mapping p1) \<ge> MAX_POOL \<or> w = None")
    case True
    with r' None that(2) show ?thesis by (auto split: if_splits)
  next
    case False
    then obtain p2 where p2: "w = Some p2" "length (po_mapping p1) < MAX_POOL" by auto
    then have "p2 = p1 \<and> grant_count p1 grant < MAX_PER_GRANT \<or> evict p1 grant live = Some p2"
      by (auto simp: w_def split: if_splits)
    then have "pool_ok p2 \<and> length (po_mapping p2) < MAX_POOL \<and> grant_count p2 grant < MAX_PER_GRANT
        \<and> set (po_mapping p2) \<subseteq> set (po_mapping p1) \<and> (p2 = p1 \<or> evict p1 grant live = Some p2)"
      using evict_ok [OF p1(1), of grant live p2] evict_keeps(1) [OF p1(1), of grant live p2] p1(1) p2(2) by auto
    moreover from this None p1(2) have "map_of (po_mapping p2) name = None"
      by (auto simp: map_of_eq_None_iff)
    moreover have "(answer, q) = (Some (fst (insert_mint p2 name grant)), snd (insert_mint p2 name grant))"
      using r' p2 by (auto split: prod.splits)
    ultimately show ?thesis using that(3) by blast
  qed
qed

lemma insert_mint_eqs:
  "fst (insert_mint p name grant) = synthetic (po_prefix p) (po_next_host p)"
  "po_next_host (snd (insert_mint p name grant)) = sat_add u64_max (po_next_host p) 1"
  "po_prefix (snd (insert_mint p name grant)) = po_prefix p"
  "map_of (po_mapping p) name = None \<Longrightarrow> po_mapping (snd (insert_mint p name grant)) =
     po_mapping p @ [(name, \<lparr>mi_addr = synthetic (po_prefix p) (po_next_host p), mi_grant = grant, mi_last_use = po_tick p\<rparr>)]"
  by (simp_all add: insert_mint_def Let_def update_absent)

lemma pool_mint_ok:
  assumes "pool_ok p" "po_next_host p < u64_max" "pool_mint p name grant live = (answer, q)"
  shows "pool_ok q \<and> po_prefix q = po_prefix p \<and> po_next_host p \<le> po_next_host q \<and> po_next_host q \<le> po_next_host p + 1"
  using assms(1,3)
proof (cases rule: pool_mint_cases)
  case (known m)
  with assms(1) recency_ok [of "p\<lparr>po_tick := sat_add u64_max (po_tick p) 1\<rparr>" name m] show ?thesis by simp
next
  case refused
  with assms(1) show ?thesis by simp
next
  case (fresh p2)
  have p2: "po_next_host p2 = po_next_host p" "po_prefix p2 = po_prefix p"
    using fresh(2) assms(1) evict_keeps(2,3) [of "p\<lparr>po_tick := sat_add u64_max (po_tick p) 1\<rparr>" grant live p2]
    by auto
  with fresh assms(2) show ?thesis
    by (auto simp: insert_mint_eqs sat_add_def intro!: insert_ok)
qed

text \<open>The pairs of a name and its address that a pool holds.\<close>

definition pool_pairs :: "Pool \<Rightarrow> (string \<times> Ipv6Addr) set" where
  "pool_pairs p = (\<lambda>(n, m). (n, mi_addr m)) ` set (po_mapping p)"

lemma pool_mint_pairs:
  assumes "pool_ok p" "pool_mint p name grant live = (answer, q)"
  shows "pool_pairs q \<subseteq> pool_pairs p \<union> (case answer of None \<Rightarrow> {} | Some a \<Rightarrow> {(name, a)})
    \<and> (case answer of None \<Rightarrow> True | Some a \<Rightarrow> (name, a) \<in> pool_pairs q \<and>
        ((name, a) \<in> pool_pairs p \<or> a = synthetic (po_prefix p) (po_next_host p) \<and>
           po_next_host q = sat_add u64_max (po_next_host p) 1))
    \<and> {(n, a) \<in> pool_pairs p. a \<in> live} \<subseteq> pool_pairs q"
  using assms
proof (cases rule: pool_mint_cases)
  case (known m)
  obtain xs ys where m: "po_mapping p = xs @ (name, m) # ys"
    and u: "\<And>v. AList.update name v (po_mapping p) = xs @ (name, v) # ys"
    using update_present [OF pool_okD(1) [OF assms(1)] known(1)] by metis
  have "pool_pairs q = pool_pairs p" by (simp add: pool_pairs_def known(3) u) (simp add: m)
  moreover have "(name, mi_addr m) \<in> pool_pairs p" by (simp add: pool_pairs_def m)
  ultimately show ?thesis using known(2) by auto
next
  case refused
  then show ?thesis by (auto simp: pool_pairs_def)
next
  case (fresh p2)
  have p2: "po_next_host p2 = po_next_host p" "po_prefix p2 = po_prefix p" "pool_pairs p2 \<subseteq> pool_pairs p"
    "{(n, a) \<in> pool_pairs p. a \<in> live} \<subseteq> pool_pairs p2"
    using fresh(2) assms(1) evict_keeps [of "p\<lparr>po_tick := sat_add u64_max (po_tick p) 1\<rparr>" grant live p2]
    by (auto 4 4 simp: pool_pairs_def)
  have "pool_pairs q = insert (name, synthetic (po_prefix p) (po_next_host p)) (pool_pairs p2)"
    "answer = Some (synthetic (po_prefix p) (po_next_host p))"
    "po_next_host q = sat_add u64_max (po_next_host p) 1"
    using fresh(1,6) p2(1,2) by (auto simp: pool_pairs_def insert_mint_eqs)
  with p2 show ?thesis by auto
qed

section \<open>Runs of mints\<close>

text \<open>A run: each request is a name, the grant it matched and the addresses in use at that moment.\<close>

type_synonym request = "string \<times> nat \<times> Ipv6Addr set"

fun mints :: "Pool \<Rightarrow> request list \<Rightarrow> (string \<times> Ipv6Addr) list \<times> Pool" where
  "mints p [] = ([], p)"
| "mints p ((name, grant, live) # rs) =
     (case pool_mint p name grant live of
        (answer, q) \<Rightarrow> (case mints q rs of
          (as, r) \<Rightarrow> (case answer of None \<Rightarrow> as | Some a \<Rightarrow> (name, a) # as, r)))"

text \<open>What has been handed out: every address is one the counter has passed, and belongs to one name.\<close>

definition history_ok :: "Pool \<Rightarrow> (string \<times> Ipv6Addr) set \<Rightarrow> bool" where
  "history_ok p H \<longleftrightarrow> pool_pairs p \<subseteq> H \<and> (\<forall>(n, a)\<in>H. issued_below p a) \<and> single_valued (H\<inverse>)"

lemma history_step:
  assumes "pool_ok p" "po_next_host p < u64_max" "history_ok p H" "pool_mint p name grant live = (answer, q)"
  shows "history_ok q (H \<union> (case answer of None \<Rightarrow> {} | Some a \<Rightarrow> {(name, a)}))"
proof -
  note ok = pool_mint_ok [OF assms(1,2,4)] and pairs = pool_mint_pairs [OF assms(1,4)]
  from ok have up: "issued_below p a \<Longrightarrow> issued_below q a" for a
    by (auto simp: issued_below_def intro: order.strict_trans2)
  show ?thesis
  proof (cases answer)
    case None
    with pairs assms(3) up show ?thesis by (auto simp: history_ok_def)
  next
    case (Some a)
    show ?thesis
    proof (cases "(name, a) \<in> pool_pairs p")
      case True
      with assms(3) have "H \<union> {(name, a)} = H" by (auto simp: history_ok_def)
      with Some True pairs assms(3) up show ?thesis by (auto simp: history_ok_def)
    next
      case False
      with pairs Some have a: "a = synthetic (po_prefix p) (po_next_host p)" "po_next_host q = po_next_host p + 1"
        using assms(2) by (auto simp: sat_add_def)
      then have "issued_below q a" using ok assms(1) by (auto simp: issued_below_def pool_ok_def)
      moreover have "\<not> issued_below p a" using fresh_not_issued [OF assms(1)] a by simp
      ultimately show ?thesis using assms(3) pairs Some up
        by (auto simp: history_ok_def single_valued_def)
    qed
  qed
qed

lemma history_run:
  assumes "pool_ok p" "history_ok p H" "po_next_host p + length rs \<le> u64_max" "mints p rs = (as, q)"
  shows "pool_ok q \<and> history_ok q (H \<union> set as) \<and> po_prefix q = po_prefix p
    \<and> po_next_host q \<le> po_next_host p + length rs"
  using assms
proof (induction p rs arbitrary: as q H rule: mints.induct)
  case (2 p name grant live rs)
  obtain answer p' where m: "pool_mint p name grant live = (answer, p')" by fastforce
  obtain bs where r: "mints p' rs = (bs, q)" and as: "as = (case answer of None \<Rightarrow> bs | Some a \<Rightarrow> (name, a) # bs)"
    using "2.prems"(4) m by (auto split: prod.splits)
  have room: "po_next_host p < u64_max" using "2.prems"(3) by simp
  note ok = pool_mint_ok [OF "2.prems"(1) room m] and h = history_step [OF "2.prems"(1) room "2.prems"(2) m]
  from ok "2.prems"(3) have "po_next_host p' + length rs \<le> u64_max" by simp
  with "2.IH" [OF m [symmetric] _ h _ r] ok show ?case
    by (cases answer) (simp_all add: as)
qed simp

lemma find_mem: "find P xs = Some x \<Longrightarrow> x \<in> set xs \<and> P x"
  by (induction xs) (auto split: if_splits)

lemma name_of_iff:
  assumes "pool_ok p"
  shows "name_of p a = Some n \<longleftrightarrow> (n, a) \<in> pool_pairs p"
proof
  show "name_of p a = Some n \<Longrightarrow> (n, a) \<in> pool_pairs p"
    by (force simp: name_of_def pool_pairs_def dest: find_mem)
next
  assume "(n, a) \<in> pool_pairs p"
  then obtain m where m: "(n, m) \<in> set (po_mapping p)" "mi_addr m = a" by (auto simp: pool_pairs_def)
  then obtain e where e: "find (\<lambda>(_, m). mi_addr m = a) (po_mapping p) = Some e"
    by (cases "find (\<lambda>(_, m). mi_addr m = a) (po_mapping p)") (auto simp: find_None_iff)
  then have "e \<in> set (po_mapping p)" "mi_addr (snd e) = a" by (auto dest: find_mem)
  moreover have "inj_on (\<lambda>(_, m). mi_addr m) (set (po_mapping p))"
    using pool_okD(2) [OF assms] by (simp add: pool_addrs_def distinct_map)
  ultimately have "e = (n, m)" using m by (auto dest!: inj_onD [of _ _ e "(n, m)"] split: prod.splits)
  with e show "name_of p a = Some n" by (simp add: name_of_def)
qed

lemma window_count:
  "length (filter (\<lambda>(_, m). mi_grant m = g) xs) = count_list (map (\<lambda>(_, m). mi_grant m) xs) g"
  by (induction xs) auto

lemma history_new: "history_ok (Pool_new prefix) {}"
  by (simp add: history_ok_def pool_pairs_def Pool_new_def)

lemma u64_runs: "length rs \<le> 2 ^ 63 \<Longrightarrow> po_next_host (Pool_new prefix) + length rs \<le> u64_max"
  by (simp add: Pool_new_def FIRST_POOL_HOST_def u64_max_def)

text \<open>C33. Over any run of up to \<open>2^63\<close> mints a synthetic address is never handed out for two different
  names, evictions included; it always lies in the kennel's \<open>/64\<close>, above the interface's and the
  resolver's address, and the reverse lookup of the final pool never gives a name the address was not
  handed out for.\<close>

theorem synthetic_never_aliased:
  assumes "length prefix = 8" "length rs \<le> 2 ^ 63" "mints (Pool_new prefix) rs = (as, p)"
    "(n, a) \<in> set as" "(n', a) \<in> set as"
  shows "n = n' \<and> take 8 (v6_octets a) = prefix \<and> a \<noteq> synthetic prefix 1 \<and> a \<noteq> synthetic prefix 2
    \<and> name_of p a \<in> {None, Some n}"
proof -
  have h: "pool_ok p" "history_ok p (set as)" "po_prefix p = prefix"
    using history_run [OF Pool_new_ok history_new u64_runs assms(3)] assms(1,2) by (auto simp: Pool_new_def)
  have one: "(x, a) \<in> set as \<Longrightarrow> x = n" for x
    using h(2) assms(4) by (auto simp: history_ok_def single_valued_def)
  from h(2) assms(4) have "issued_below p a" by (auto simp: history_ok_def)
  then obtain k where k: "FIRST_POOL_HOST \<le> k" "k < po_next_host p" "a = synthetic prefix k"
    by (auto simp: issued_below_def h(3))
  then have "k \<le> u64_max" using h(1) by (auto simp: pool_ok_def)
  with k assms(1) have "a \<noteq> synthetic prefix 1" "a \<noteq> synthetic prefix 2" "take 8 (v6_octets a) = prefix"
    by (simp_all add: synthetic_eq_iff synthetic_octets FIRST_POOL_HOST_def u64_max_def)
  moreover have "name_of p a = Some x \<Longrightarrow> x = n" for x
    using one h(1,2) by (auto simp: name_of_iff history_ok_def)
  ultimately show ?thesis using one [OF assms(5)] by (cases "name_of p a") auto
qed

lemma demo_mints:
  "mints (Pool_new (replicate 8 7)) [(''a'', 0, {}), (''b'', 0, {}), (''a'', 0, {})] =
     ([(''a'', synthetic (replicate 8 7) 16), (''b'', synthetic (replicate 8 7) 17), (''a'', synthetic (replicate 8 7) 16)],
      snd (mints (Pool_new (replicate 8 7)) [(''a'', 0, {}), (''b'', 0, {}), (''a'', 0, {})]))"
  by (simp add: pool_mint_def Pool_new_def FIRST_POOL_HOST_def sat_add_def u64_max_def MAX_POOL_def
      MAX_PER_GRANT_def grant_count_def insert_mint_def Let_def)

theorem synthetic_never_aliased_witness:
  "name_of (snd (mints (Pool_new (replicate 8 7)) [(''a'', 0, {}), (''b'', 0, {}), (''a'', 0, {})]))
     (synthetic (replicate 8 7) 16) \<in> {None, Some ''a''}"
  using synthetic_never_aliased [OF _ _ demo_mints, of "''a''" _ "''a''"] by simp

text \<open>Over any run of fewer than \<open>2^63\<close> mints a pool holds at most 4096 names and at most 32 of each
  grant, and the next mint never drops a name whose address carries a live flow.\<close>

theorem pool_window_bounded:
  assumes "length prefix = 8" "length rs < 2 ^ 63" "mints (Pool_new prefix) rs = (as, p)"
  shows "length (po_mapping p) \<le> MAX_POOL \<and> length (filter (\<lambda>(_, m). mi_grant m = g) (po_mapping p)) \<le> MAX_PER_GRANT
    \<and> (name_of p a = Some n \<and> a \<in> live \<longrightarrow> name_of (snd (pool_mint p name grant live)) a = Some n)"
proof -
  have h: "pool_ok p" "po_next_host p < u64_max"
    using history_run [OF Pool_new_ok history_new u64_runs assms(3)] assms(1,2)
    by (auto simp: Pool_new_def FIRST_POOL_HOST_def u64_max_def)
  obtain answer q where q: "pool_mint p name grant live = (answer, q)" by fastforce
  have "pool_ok q" using pool_mint_ok [OF h q] by simp
  moreover have "(n, a) \<in> pool_pairs p \<Longrightarrow> a \<in> live \<Longrightarrow> (n, a) \<in> pool_pairs q"
    using pool_mint_pairs [OF h(1) q] by auto
  ultimately have "name_of p a = Some n \<and> a \<in> live \<longrightarrow> name_of (snd (pool_mint p name grant live)) a = Some n"
    using h(1) q by (simp add: name_of_iff)
  then show ?thesis using pool_okD(3,6) [OF h(1)] by (simp add: pool_grants_def window_count)
qed

theorem pool_window_bounded_witness:
  "length (po_mapping (snd (mints (Pool_new (replicate 8 7)) [(''a'', 0, {}), (''b'', 0, {}), (''a'', 0, {})]))) \<le> 4096"
  using pool_window_bounded [OF _ _ demo_mints] by (simp add: MAX_POOL_def)

section \<open>Answers\<close>

lemma position_Some: "position P xs = Some i \<Longrightarrow> i < length xs \<and> P (xs ! i)"
  by (induction xs arbitrary: i) (auto split: if_splits)

lemma position_None: "position P xs = None \<longleftrightarrow> (\<forall>x\<in>set xs. \<not> P x)"
  by (induction xs) auto

lemma allows_imp_name: "allows rules name port \<Longrightarrow> allows_name rules name"
  by (auto simp: allows_def allows_name_def first_match_def position_None list_ex_iff)

text \<open>A denied name, or a question that is not AAAA, leaves the pool alone and is answered without data.\<close>

lemma respond_nodata:
  assumes "parse query = Some pk" "dp_questions pk = q # qs"
    "dq_type q \<noteq> QTYPE_AAAA \<or> \<not> allows_name rules (dq_name q)"
  shows "respond parse build query rules p live =
    (build \<lparr>dr_id = dp_id pk, dr_questions = [q], dr_answers = []\<rparr>, p)"
  using assms by (auto simp: respond_def allows_name_def)

lemma respond_pool:
  "snd (respond parse build query rules p live) = p \<or>
   (\<exists>name grant. first_match rules name = Some grant \<and>
      snd (respond parse build query rules p live) = snd (pool_mint p name grant live))"
  by (auto simp: respond_def Let_def bind_eq_Some_conv split: option.splits)

end
