(* ===== verification/Tun_Broker.thy ===== *)
theory Tun_Broker
  imports Tun_Wire Tun_Shim Rate_Limit Egress_Conduit Binder_Service
begin

text \<open>
  The UDP flow broker of a kennel (\<open>kennel-tun-broker\<close>: \<open>flow.rs\<close>, the routing of \<open>forward.rs\<close>,
  \<open>serve.rs\<close> and the session binary \<open>bin/tun-flow.rs\<close>).  A frame from the workload is a query for the
  naming shim or a datagram of a flow; a flow is dialled once, by name, and pinned.  The event loop is
  a step relation: each step takes one readiness event or one sweep.  The operating system's name
  resolution, sockets and poller, and the DNS message codec, are parameters that may answer
  differently at every step.
\<close>

section \<open>Dialling\<close>

datatype FlowError = NotAllowed | Unresolved | Rebound | Resolve io_error | Dial io_error

definition err_addr_not_available :: io_error where
  "err_addr_not_available = OsError ''address not available''"

fun connect_first :: "(IpAddr \<Rightarrow> io_error + nat) \<Rightarrow> io_error \<Rightarrow> IpAddr list \<Rightarrow> io_error + nat" where
  "connect_first conn lasterr [] = Inl lasterr"
| "connect_first conn lasterr (a # as) =
     (case conn a of Inr sock \<Rightarrow> Inr sock | Inl e \<Rightarrow> connect_first conn e as)"

record BrokerEnv =
  be_resolve :: "string \<Rightarrow> string + (IpAddr \<times> u16) list"
  be_bind :: "IpAddr \<times> u16 \<Rightarrow> io_error + nat"
  be_connect :: "nat \<Rightarrow> IpAddr \<times> u16 \<Rightarrow> io_error + nat"
  be_dns_parse :: "bytes \<Rightarrow> DnsPacket option"
  be_dns_build :: "DnsReply \<Rightarrow> bytes option"
  be_poll_add :: "nat \<Rightarrow> nat \<Rightarrow> bool"

definition dial :: "BrokerEnv \<Rightarrow> Allowlist \<Rightarrow> string \<Rightarrow> u16 \<Rightarrow> FlowError + nat" where
  "dial env rules name port =
     (if \<not> allows rules name port then Inl NotAllowed
      else if port = 53 \<or> port = 5353 then Inl NotAllowed
      else case udp_resolve (be_resolve env) name of
             Inl ErrNotFound \<Rightarrow> Inl Unresolved
           | Inl e \<Rightarrow> Inl (Resolve e)
           | Inr addrs \<Rightarrow>
               let addrs = filter (\<lambda>a. \<not> is_nonroutable_egress a) addrs
               in if addrs = [] then Inl Rebound
                  else case connect_first (\<lambda>a. connect_udp (be_bind env) (be_connect env) a port)
                              err_addr_not_available addrs of
                         Inr sock \<Rightarrow> Inr sock
                       | Inl e \<Rightarrow> Inl (Dial e))"

section \<open>Routing\<close>

definition SRC_PORT :: nat where "SRC_PORT = IPV6_HEADER"
definition DST_PORT :: nat where "DST_PORT = IPV6_HEADER + 2"
definition PAYLOAD :: nat where "PAYLOAD = IPV6_HEADER + 8"

record Route =
  ro_name :: string
  ro_dst_port :: u16
  ro_src_port :: u16
  ro_payload :: bytes

definition route :: "bytes \<Rightarrow> Pool \<Rightarrow> Route option" where
  "route frame pool =
     do { nh \<leftarrow> get_at frame 6;
          if nh \<noteq> NEXT_UDP then None
          else do { dst \<leftarrow> get_range frame 24 IPV6_HEADER;
                    name \<leftarrow> name_of pool (v6_from dst);
                    src_port \<leftarrow> be16 frame SRC_PORT;
                    dst_port \<leftarrow> be16 frame DST_PORT;
                    payload \<leftarrow> get_from frame PAYLOAD;
                    Some \<lparr>ro_name = name, ro_dst_port = dst_port, ro_src_port = src_port,
                          ro_payload = payload\<rparr> } }"

definition route_synthetic :: "bytes \<Rightarrow> Ipv6Addr option" where
  "route_synthetic frame = map_option v6_from (get_range frame 24 40)"

definition is_udp_to :: "bytes \<Rightarrow> Ipv6Addr \<Rightarrow> bool" where
  "is_udp_to frame addr \<longleftrightarrow> get_at frame 6 = Some NEXT_UDP \<and> route_synthetic frame = Some addr"

definition udp_payload_and_src_port :: "bytes \<Rightarrow> (bytes \<times> u16) option" where
  "udp_payload_and_src_port frame =
     do { src_port \<leftarrow> get_range frame 40 42; payload \<leftarrow> get_from frame 48; Some (payload, u16_of_be src_port) }"

definition suffix_addr :: "bytes \<Rightarrow> nat \<Rightarrow> Ipv6Addr" where
  "suffix_addr prefix host = v6_from (take 8 prefix @ drop 8 (be_bytes 16 host))"

section \<open>The broker\<close>

definition RESOLVER_HOST :: nat where "RESOLVER_HOST = 2"
definition DNS_PORT :: u16 where "DNS_PORT = 53"
definition FACADE_CAP :: nat where "FACADE_CAP = 2048"
definition FLOW_CAP :: nat where "FLOW_CAP = 65536"
definition FACADE_TOKEN :: nat where "FACADE_TOKEN = 0"

record Broker =
  br_kennel_addr :: Ipv6Addr
  br_resolver_addr :: Ipv6Addr
  br_allow :: Allowlist
  br_pool :: Pool
  br_table :: FlowTable
  br_bucket :: TokenBucket

datatype Egress = EgressNothing | EgressToFacade bytes | NewFlow FlowKey nat

datatype Ingress = IngressNothing | IngressToFacade bytes | ToFacadeAndEvict bytes

record Ceilings =
  ce_max_flows :: nat
  ce_new_flow_burst :: nat
  ce_new_flow_per_sec :: nat
  ce_idle_timeout :: nat

definition Broker_new :: "Ipv6Addr \<Rightarrow> Allowlist \<Rightarrow> Ceilings \<Rightarrow> nat \<Rightarrow> Broker" where
  "Broker_new kennel_addr rules ceilings now =
     (let prefix = prefix64 kennel_addr
      in \<lparr>br_kennel_addr = kennel_addr, br_resolver_addr = suffix_addr prefix RESOLVER_HOST, br_allow = rules,
          br_pool = Pool_new prefix,
          br_table = FlowTable_new (ce_max_flows ceilings) (ce_idle_timeout ceilings),
          br_bucket = TokenBucket_new (ce_new_flow_burst ceilings) (ce_new_flow_per_sec ceilings) now\<rparr>)"

definition on_query :: "BrokerEnv \<Rightarrow> Broker \<Rightarrow> bytes \<Rightarrow> Egress \<times> Broker" where
  "on_query env b frame =
     (case udp_payload_and_src_port frame of
        None \<Rightarrow> (EgressNothing, b)
      | Some (payload, src_port) \<Rightarrow>
          (case respond (be_dns_parse env) (be_dns_build env) payload (br_allow b) (br_pool b)
                  (live_synthetics (br_table b)) of
             (reply, pool) \<Rightarrow>
               let b = b\<lparr>br_pool := pool\<rparr>
               in case reply of
                    None \<Rightarrow> (EgressNothing, b)
                  | Some reply \<Rightarrow>
                      (case build_udp_datagram (br_resolver_addr b) (br_kennel_addr b) DNS_PORT src_port reply of
                         None \<Rightarrow> (EgressNothing, b)
                       | Some bytes \<Rightarrow> (EgressToFacade bytes, b))))"

text \<open>The third component is what goes out on pinned sockets: a socket and a payload.\<close>

definition on_egress :: "BrokerEnv \<Rightarrow> Broker \<Rightarrow> bytes \<Rightarrow> nat \<Rightarrow> Egress \<times> Broker \<times> (nat \<times> bytes) list" where
  "on_egress env b frame now =
     (if is_udp_to frame (br_resolver_addr b)
      then (case on_query env b frame of (e, b) \<Rightarrow> (e, b, []))
      else case route frame (br_pool b) of
             None \<Rightarrow> (EgressNothing, b, [])
           | Some r \<Rightarrow>
               let key = \<lparr>fk_synthetic = (case route_synthetic frame of Some a \<Rightarrow> a | None \<Rightarrow> br_kennel_addr b),
                          fk_dst_port = ro_dst_port r, fk_src_port = ro_src_port r\<rparr>
               in case touch (br_table b) key now of
                    (Some sock, table) \<Rightarrow> (EgressNothing, b\<lparr>br_table := table\<rparr>, [(sock, ro_payload r)])
                  | (None, _) \<Rightarrow>
                      (case try_take (br_bucket b) now of
                         (ok, bucket) \<Rightarrow>
                           let b = b\<lparr>br_bucket := bucket\<rparr>
                           in if \<not> ok then (EgressNothing, b, [])
                              else (case dial env (br_allow b) (ro_name r) (ro_dst_port r) of
                                      Inr socket \<Rightarrow> (NewFlow key socket, b, [(socket, ro_payload r)])
                                    | Inl (Resolve _) \<Rightarrow> (EgressNothing, b, [])
                                    | Inl _ \<Rightarrow>
                                        (EgressToFacade (build_dest_unreachable (fk_synthetic key) (br_kennel_addr b)
                                           CODE_ADMIN_PROHIBITED frame), b, []))))"

text \<open>What a read of a flow socket gives: a datagram, the peer's refusal, or another error.\<close>

datatype Recv = Datagram bytes | ConnectionRefused | RecvError

definition on_flow_readable :: "Broker \<Rightarrow> FlowKey \<Rightarrow> Recv \<Rightarrow> nat \<Rightarrow> Ingress \<times> Broker" where
  "on_flow_readable b key received now =
     (case touch (br_table b) key now of
        (None, _) \<Rightarrow> (IngressNothing, b)
      | (Some sock, table) \<Rightarrow>
          let b = b\<lparr>br_table := table\<rparr>
          in case received of
               Datagram buf \<Rightarrow>
                 (case build_udp_datagram (fk_synthetic key) (br_kennel_addr b) (fk_dst_port key) (fk_src_port key)
                         (take FLOW_CAP buf) of
                    None \<Rightarrow> (IngressNothing, b)
                  | Some bytes \<Rightarrow> (IngressToFacade bytes, b))
             | ConnectionRefused \<Rightarrow>
                 (let invoking = (case build_udp_datagram (br_kennel_addr b) (fk_synthetic key) (fk_src_port key)
                                         (fk_dst_port key) [] of None \<Rightarrow> [] | Some f \<Rightarrow> f)
                  in (ToFacadeAndEvict (build_dest_unreachable (fk_synthetic key) (br_kennel_addr b)
                        CODE_PORT_UNREACHABLE invoking), b))
             | RecvError \<Rightarrow> (IngressNothing, b))"

section \<open>The session\<close>

definition MAX_FLOWS :: nat where "MAX_FLOWS = 512"
definition NEW_FLOW_BURST :: nat where "NEW_FLOW_BURST = 64"
definition NEW_FLOW_PER_SEC :: nat where "NEW_FLOW_PER_SEC = 32"
definition IDLE_TIMEOUT :: nat where "IDLE_TIMEOUT = 30 * 10 ^ 9"

definition protocol_from_ordinal :: "u8 \<Rightarrow> Protocol" where
  "protocol_from_ordinal n = (if n = 1 then ProtoTcp else if n = 2 then ProtoUdp else ProtoAny)"

definition grant_rule :: "Grant \<Rightarrow> NameRule" where
  "grant_rule g = \<lparr>nm_name = gr_name g, nm_ports = gr_ports g, nm_protocol = protocol_from_ordinal (gr_protocol g)\<rparr>"

definition session_ceilings :: Ceilings where
  "session_ceilings = \<lparr>ce_max_flows = MAX_FLOWS, ce_new_flow_burst = NEW_FLOW_BURST,
     ce_new_flow_per_sec = NEW_FLOW_PER_SEC, ce_idle_timeout = IDLE_TIMEOUT\<rparr>"

definition session_broker :: "string \<Rightarrow> nat \<Rightarrow> Broker option" where
  "session_broker grants_hex now =
     do { payload \<leftarrow> from_hex grants_hex;
          acc \<leftarrow> tun_decode_accept payload;
          Some (Broker_new (v6_from (at_tun_addr acc)) (map grant_rule (at_grants acc)) session_ceilings now) }"

text \<open>The loop: the broker, the next token, the two token maps, and what has gone out so far.\<close>

record Loop =
  lo_broker :: Broker
  lo_next_token :: nat
  lo_token_key :: "nat \<rightharpoonup> FlowKey"
  lo_key_token :: "FlowKey \<rightharpoonup> nat"
  lo_to_facade :: "bytes list"
  lo_sent :: "(nat \<times> bytes) list"

definition Loop_new :: "Broker \<Rightarrow> Loop" where
  "Loop_new b = \<lparr>lo_broker = b, lo_next_token = 1, lo_token_key = Map.empty, lo_key_token = Map.empty,
     lo_to_facade = [], lo_sent = []\<rparr>"

definition release_token :: "FlowKey \<Rightarrow> Loop \<Rightarrow> Loop" where
  "release_token key l =
     (case lo_key_token l key of
        None \<Rightarrow> l
      | Some token \<Rightarrow> l\<lparr>lo_key_token := (lo_key_token l)(key := None), lo_token_key := (lo_token_key l)(token := None)\<rparr>)"

definition loop_facade :: "BrokerEnv \<Rightarrow> Loop \<Rightarrow> bytes \<Rightarrow> nat \<Rightarrow> Loop" where
  "loop_facade env l frame now =
     (case on_egress env (lo_broker l) (take FACADE_CAP frame) now of
        (e, b, sent) \<Rightarrow>
          let l = l\<lparr>lo_broker := b, lo_sent := lo_sent l @ sent\<rparr>
          in case e of
               EgressNothing \<Rightarrow> l
             | EgressToFacade bytes \<Rightarrow> l\<lparr>lo_to_facade := lo_to_facade l @ [bytes]\<rparr>
             | NewFlow key socket \<Rightarrow>
                 let token = lo_next_token l;
                     l = l\<lparr>lo_next_token := sat_add u64_max token 1\<rparr>
                 in if be_poll_add env socket token
                    then (case admit (br_table b) key socket now of
                            Inl AtCapacity \<Rightarrow> l
                          | Inr table \<Rightarrow>
                              l\<lparr>lo_broker := b\<lparr>br_table := table\<rparr>,
                                lo_token_key := (lo_token_key l)(token \<mapsto> key),
                                lo_key_token := (lo_key_token l)(key \<mapsto> token)\<rparr>)
                    else l)"

definition loop_flow :: "Loop \<Rightarrow> nat \<Rightarrow> Recv \<Rightarrow> nat \<Rightarrow> Loop" where
  "loop_flow l token received now =
     (case lo_token_key l token of
        None \<Rightarrow> l
      | Some key \<Rightarrow>
          (case on_flow_readable (lo_broker l) key received now of
             (i, b) \<Rightarrow>
               let l = l\<lparr>lo_broker := b\<rparr>
               in case i of
                    IngressNothing \<Rightarrow> l
                  | IngressToFacade bytes \<Rightarrow> l\<lparr>lo_to_facade := lo_to_facade l @ [bytes]\<rparr>
                  | ToFacadeAndEvict bytes \<Rightarrow>
                      release_token key (l\<lparr>lo_to_facade := lo_to_facade l @ [bytes],
                        lo_broker := b\<lparr>br_table := snd (remove_flow (br_table b) key)\<rparr>\<rparr>)))"

definition loop_sweep :: "Loop \<Rightarrow> nat \<Rightarrow> Loop" where
  "loop_sweep l now =
     (case sweep (br_table (lo_broker l)) now of
        (keys, table) \<Rightarrow> fold release_token keys (l\<lparr>lo_broker := (lo_broker l)\<lparr>br_table := table\<rparr>\<rparr>))"

text \<open>\<open>peer\<close> is where a connected socket sends; a connect that succeeds fixes it.\<close>

definition connects_to :: "(nat \<Rightarrow> IpAddr \<times> u16) \<Rightarrow> BrokerEnv \<Rightarrow> bool" where
  "connects_to peer env \<longleftrightarrow> (\<forall>s dst s'. be_connect env s dst = Inr s' \<longrightarrow> peer s' = dst)"

inductive run_step :: "(nat \<Rightarrow> IpAddr \<times> u16) \<Rightarrow> Loop \<Rightarrow> Loop \<Rightarrow> bool" for peer where
  facade_ready: "connects_to peer env \<Longrightarrow> run_step peer l (loop_facade env l frame now)"
| flow_ready: "token \<noteq> FACADE_TOKEN \<Longrightarrow> run_step peer l (loop_flow l token received now)"
| swept: "run_step peer l (loop_sweep l now)"

definition run_start :: "Ipv6Addr \<Rightarrow> Allowlist \<Rightarrow> Ceilings \<Rightarrow> Loop \<Rightarrow> bool" where
  "run_start kennel_addr rules ceilings l \<longleftrightarrow> (\<exists>now. l = Loop_new (Broker_new kennel_addr rules ceilings now))"

section \<open>Where a flow goes\<close>

definition granted_peer :: "Allowlist \<Rightarrow> IpAddr \<times> u16 \<Rightarrow> bool" where
  "granted_peer rules dst \<longleftrightarrow> snd dst \<noteq> 53 \<and> snd dst \<noteq> 5353 \<and> \<not> is_nonroutable_egress (fst dst)
     \<and> (\<exists>name. allows rules name (snd dst))"

lemma granted_peerD:
  "granted_peer rules dst \<Longrightarrow> \<exists>name ip port. dst = (ip, port) \<and> allows rules name port
     \<and> port \<noteq> 53 \<and> port \<noteq> 5353 \<and> \<not> is_nonroutable_egress ip"
  by (cases dst) (auto simp: granted_peer_def)

lemma connect_first_sound: "connect_first conn e as = Inr s \<Longrightarrow> \<exists>a\<in>set as. conn a = Inr s"
  by (induction conn e as rule: connect_first.induct) (auto split: sum.splits)

lemma connect_udp_peer: "connects_to peer env \<Longrightarrow> connect_udp (be_bind env) (be_connect env) a port = Inr s \<Longrightarrow> peer s = (a, port)"
  by (auto simp: connect_udp_def connects_to_def Let_def split: sum.splits)

lemma dial_sound:
  assumes "connects_to peer env" "dial env rules name port = Inr s"
  shows "granted_peer rules (peer s) \<and> snd (peer s) = port"
proof -
  from assms(2) obtain addrs where g: "allows rules name port" "port \<noteq> 53" "port \<noteq> 5353"
    and c: "connect_first (\<lambda>a. connect_udp (be_bind env) (be_connect env) a port) err_addr_not_available
              (filter (\<lambda>a. \<not> is_nonroutable_egress a) addrs) = Inr s"
    by (auto simp: dial_def Let_def split: if_splits sum.splits io_error.splits)
  from connect_first_sound [OF c] obtain a where "\<not> is_nonroutable_egress a" "peer s = (a, port)"
    using connect_udp_peer [OF assms(1)] by auto
  with g show ?thesis by (auto simp: granted_peer_def)
qed

text \<open>A dial refuses without resolving where no grant covers the name and port, and on the DNS ports.\<close>

lemma dial_refused: "\<not> allows rules name port \<or> port \<in> {53, 5353} \<Longrightarrow> dial env rules name port = Inl NotAllowed"
  by (auto simp: dial_def)

section \<open>The broker's state\<close>

lemma set_update: "set (AList.update k v m) \<subseteq> insert (k, v) (set m)"
  by (induction m) auto

lemma set_delete: "set (AList.delete k m) \<subseteq> set m"
  by (auto simp: AList.delete_eq)

lemma set_fold_delete: "set (fold AList.delete ks m) \<subseteq> set m"
  by (induction ks arbitrary: m) (auto dest: subsetD [OF set_delete])

definition keys_of :: "FlowTable \<Rightarrow> FlowKey set" where
  "keys_of t = set (map fst (ft_flows t))"

definition pool_in :: "bytes \<Rightarrow> Pool \<Rightarrow> bool" where
  "pool_in prefix p \<longleftrightarrow> po_prefix p = prefix \<and> length prefix = 8 \<and> (\<forall>(n, m)\<in>set (po_mapping p). prefix64 (mi_addr m) = prefix)"

definition flows_in :: "bytes \<Rightarrow> (nat \<Rightarrow> IpAddr \<times> u16) \<Rightarrow> Allowlist \<Rightarrow> FlowTable \<Rightarrow> bool" where
  "flows_in prefix peer rules t \<longleftrightarrow> (\<forall>(k, f)\<in>set (ft_flows t). prefix64 (fk_synthetic k) = prefix
     \<and> granted_peer rules (peer (fl_socket f)) \<and> snd (peer (fl_socket f)) = fk_dst_port k)"

lemma synthetic_in: "length prefix = 8 \<Longrightarrow> prefix64 (synthetic prefix h) = prefix"
  by (simp add: prefix64_def synthetic_octets)

lemma insert_mint_in: "pool_in prefix p \<Longrightarrow> pool_in prefix (snd (insert_mint p name grant))"
  using set_update [of name _ "po_mapping p"]
  by (fastforce simp: pool_in_def insert_mint_def Let_def synthetic_in)

lemma evict_in: "pool_in prefix p \<Longrightarrow> evict p grant live = Some q \<Longrightarrow> pool_in prefix q"
  using set_delete by (fastforce simp: pool_in_def evict_def)

lemma pool_mint_in:
  assumes "pool_in prefix p"
  shows "pool_in prefix (snd (pool_mint p name grant live))"
proof -
  define p1 where "p1 = p\<lparr>po_tick := sat_add u64_max (po_tick p) 1\<rparr>"
  have p1: "pool_in prefix p1" using assms by (simp add: p1_def pool_in_def)
  have known: "pool_in prefix (p1\<lparr>po_mapping := AList.update name (m\<lparr>mi_last_use := t\<rparr>) (po_mapping p1)\<rparr>)"
    if "map_of (po_mapping p1) name = Some m" for m t
  proof -
    from map_of_SomeD [OF that] p1 have "prefix64 (mi_addr m) = prefix" by (auto simp: pool_in_def)
    with p1 set_update [of name "m\<lparr>mi_last_use := t\<rparr>" "po_mapping p1"] show ?thesis
      by (fastforce simp: pool_in_def)
  qed
  have fresh: "pool_in prefix (snd (insert_mint q name grant))"
    if "(if grant_count p1 grant \<ge> MAX_PER_GRANT then evict p1 grant live else Some p1) = Some q" for q
    using that p1 by (auto intro!: insert_mint_in dest: evict_in split: if_splits)
  show ?thesis
    unfolding pool_mint_def Let_def p1_def [symmetric]
    using p1 known fresh by (auto split: option.splits prod.splits)
qed

lemma respond_in: "respond parse build query rules p live = (reply, q) \<Longrightarrow> pool_in prefix p \<Longrightarrow> pool_in prefix q"
  using respond_pool [of parse build query rules p live] pool_mint_in [of prefix p] by (metis snd_conv)

lemma touch_in:
  assumes "flows_in prefix peer rules t" "touch t key now = (r, t')"
  shows "flows_in prefix peer rules t' \<and> ft_max_flows t' = ft_max_flows t \<and> keys_of t' = keys_of t
    \<and> (case r of None \<Rightarrow> map_of (ft_flows t) key = None
       | Some s \<Rightarrow> granted_peer rules (peer s) \<and> prefix64 (fk_synthetic key) = prefix)"
proof (cases "map_of (ft_flows t) key")
  case None
  with assms show ?thesis by (auto simp: touch_def)
next
  case (Some f)
  with assms(2) have t': "t' = t\<lparr>ft_flows := AList.update key (f\<lparr>fl_last_seen := now\<rparr>) (ft_flows t)\<rparr>" "r = Some (fl_socket f)"
    by (auto simp: touch_def)
  from map_of_SomeD [OF Some] have f: "(key, f) \<in> set (ft_flows t)" .
  have "keys_of t' = keys_of t"
    using f by (auto simp: keys_of_def t' update_keys image_iff)
  moreover have "flows_in prefix peer rules t'"
    using assms(1) f set_update [of key "f\<lparr>fl_last_seen := now\<rparr>" "ft_flows t"] by (fastforce simp: flows_in_def t')
  ultimately show ?thesis using assms(1) f t' by (auto simp: flows_in_def)
qed

definition broker_ok :: "(nat \<Rightarrow> IpAddr \<times> u16) \<Rightarrow> Ipv6Addr \<Rightarrow> Allowlist \<Rightarrow> nat \<Rightarrow> Broker \<Rightarrow> bool" where
  "broker_ok peer kennel rules cap b \<longleftrightarrow> br_kennel_addr b = kennel \<and> br_allow b = rules
     \<and> prefix64 (br_resolver_addr b) = prefix64 kennel \<and> pool_in (prefix64 kennel) (br_pool b)
     \<and> table_ok (br_table b) \<and> ft_max_flows (br_table b) = cap \<and> flows_in (prefix64 kennel) peer rules (br_table b)"

definition to_workload :: "Ipv6Addr \<Rightarrow> bytes \<Rightarrow> bool" where
  "to_workload kennel frame \<longleftrightarrow> ingress_ok frame kennel (prefix64 kennel)"

lemma built_datagram_to:
  "build_udp_datagram src kennel sp dp payload = Some f \<Longrightarrow> prefix64 src = prefix64 kennel \<Longrightarrow> to_workload kennel f"
  using built_datagram [of src kennel sp dp payload f] by (simp add: to_workload_def)

lemma built_error_to:
  "prefix64 src = prefix64 kennel \<Longrightarrow> to_workload kennel (build_dest_unreachable src kennel CODE_ADMIN_PROHIBITED f)"
  "prefix64 src = prefix64 kennel \<Longrightarrow> to_workload kennel (build_dest_unreachable src kennel CODE_PORT_UNREACHABLE f)"
  using built_error [of _ src kennel f] by (simp_all add: to_workload_def)

lemma on_query_ok:
  assumes "broker_ok peer kennel rules cap b" "on_query env b frame = (e, b')"
  shows "broker_ok peer kennel rules cap b' \<and> br_table b' = br_table b \<and>
    (e = EgressNothing \<or> (\<exists>f. e = EgressToFacade f \<and> to_workload kennel f))"
  using assms
  by (auto simp: on_query_def broker_ok_def Let_def dest: respond_in intro: built_datagram_to
    split: option.splits prod.splits)

lemma route_in:
  assumes "route frame pool = Some r" "pool_in prefix pool"
  shows "\<exists>a. route_synthetic frame = Some a \<and> prefix64 a = prefix"
proof -
  from assms(1) obtain dst n where d: "get_range frame 24 40 = Some dst" and n: "name_of pool (v6_from dst) = Some n"
    by (auto simp: route_def bind_eq_Some_conv IPV6_HEADER_def split: if_splits)
  from n obtain m where m: "(n, m) \<in> set (po_mapping pool)" "mi_addr m = v6_from dst"
    by (auto simp: name_of_def dest: find_mem)
  with assms(2) have "prefix64 (v6_from dst) = prefix" by (fastforce simp: pool_in_def)
  with d show ?thesis by (simp add: route_synthetic_def)
qed

lemma on_egress_ok:
  assumes env: "connects_to peer env" and ok: "broker_ok peer kennel rules cap b"
    and r: "on_egress env b frame now = (e, b', sent)"
  shows "broker_ok peer kennel rules cap b' \<and> (\<forall>(s, _)\<in>set sent. granted_peer rules (peer s))
    \<and> keys_of (br_table b') = keys_of (br_table b)
    \<and> (case e of EgressNothing \<Rightarrow> True | EgressToFacade f \<Rightarrow> to_workload kennel f
       | NewFlow key s \<Rightarrow> map_of (ft_flows (br_table b')) key = None \<and> prefix64 (fk_synthetic key) = prefix64 kennel
           \<and> granted_peer rules (peer s) \<and> snd (peer s) = fk_dst_port key)"
proof (cases "is_udp_to frame (br_resolver_addr b)")
  case True
  obtain e' b'' where q: "on_query env b frame = (e', b'')" by fastforce
  with True r have "e = e'" "b' = b''" "sent = []" by (auto simp: on_egress_def)
  with on_query_ok [OF ok q] show ?thesis by auto
next
  case False
  show ?thesis
  proof (cases "route frame (br_pool b)")
    case None
    with False r ok show ?thesis by (auto simp: on_egress_def)
  next
    case (Some ro)
    from route_in [OF Some] ok obtain a where a: "route_synthetic frame = Some a" "prefix64 a = prefix64 kennel"
      by (auto simp: broker_ok_def)
    define key where "key = \<lparr>fk_synthetic = a, fk_dst_port = ro_dst_port ro, fk_src_port = ro_src_port ro\<rparr>"
    obtain so table where t: "touch (br_table b) key now = (so, table)" by fastforce
    have flows: "flows_in (prefix64 kennel) peer rules (br_table b)" "table_ok (br_table b)"
      using ok by (auto simp: broker_ok_def)
    note ti = touch_in [OF flows(1) t]
    have tok: "table_ok table" using touch_ok [OF flows(2), of key now] by (simp add: t)
    obtain took bucket where tk: "try_take (br_bucket b) now = (took, bucket)" by fastforce
    have b: "br_kennel_addr b = kennel" "br_allow b = rules" using ok by (auto simp: broker_ok_def)
    have r': "(e, b', sent) = (case so of Some sock \<Rightarrow> (EgressNothing, b\<lparr>br_table := table\<rparr>, [(sock, ro_payload ro)])
      | None \<Rightarrow> if \<not> took then (EgressNothing, b\<lparr>br_bucket := bucket\<rparr>, [])
          else (case dial env rules (ro_name ro) (ro_dst_port ro) of
                  Inr socket \<Rightarrow> (NewFlow key socket, b\<lparr>br_bucket := bucket\<rparr>, [(socket, ro_payload ro)])
                | Inl (Resolve _) \<Rightarrow> (EgressNothing, b\<lparr>br_bucket := bucket\<rparr>, [])
                | Inl _ \<Rightarrow> (EgressToFacade (build_dest_unreachable a kennel CODE_ADMIN_PROHIBITED frame),
                            b\<lparr>br_bucket := bucket\<rparr>, [])))"
      using r False Some a(1)
      by (cases so; simp add: on_egress_def Let_def key_def [symmetric] t tk b)
        (auto simp: b key_def split: sum.splits FlowError.splits if_splits)
    have b1: "broker_ok peer kennel rules cap (b\<lparr>br_bucket := bucket\<rparr>)" using ok by (simp add: broker_ok_def)
    show ?thesis
    proof (cases so)
      case None
      with ti have "map_of (ft_flows (br_table b)) key = None" by simp
      with None r' b1 a(2) dial_sound [OF env, of rules "ro_name ro" "ro_dst_port ro"] show ?thesis
        by (auto simp: key_def built_error_to split: if_splits sum.splits FlowError.splits)
    next
      case (Some sock)
      with ti tok ok have "broker_ok peer kennel rules cap (b\<lparr>br_table := table\<rparr>)" by (simp add: broker_ok_def)
      with Some r' ti show ?thesis by simp
    qed
  qed
qed

lemma on_flow_readable_ok:
  assumes ok: "broker_ok peer kennel rules cap b" and r: "on_flow_readable b key received now = (i, b')"
  shows "broker_ok peer kennel rules cap b'
    \<and> keys_of (br_table b') = keys_of (br_table b)
    \<and> (case i of IngressNothing \<Rightarrow> True | IngressToFacade f \<Rightarrow> to_workload kennel f
       | ToFacadeAndEvict f \<Rightarrow> to_workload kennel f)"
proof -
  obtain so table where t: "touch (br_table b) key now = (so, table)" by fastforce
  have flows: "flows_in (prefix64 kennel) peer rules (br_table b)" "table_ok (br_table b)" "br_kennel_addr b = kennel"
    using ok by (auto simp: broker_ok_def)
  note ti = touch_in [OF flows(1) t]
  have "table_ok table" using touch_ok [OF flows(2), of key now] by (simp add: t)
  with ti ok have b: "broker_ok peer kennel rules cap (b\<lparr>br_table := table\<rparr>)" by (simp add: broker_ok_def)
  show ?thesis
  proof (cases so)
    case None
    with r ok show ?thesis by (auto simp: on_flow_readable_def t)
  next
    case (Some s)
    with ti have pre: "prefix64 (fk_synthetic key) = prefix64 kennel" and keys: "keys_of table = keys_of (br_table b)"
      by simp_all
    show ?thesis
    proof (cases received)
      case (Datagram buf)
      show ?thesis
      proof (cases "build_udp_datagram (fk_synthetic key) kennel (fk_dst_port key) (fk_src_port key) (take FLOW_CAP buf)")
        case None
        with r Some Datagram flows(3) have "i = IngressNothing" "b' = b\<lparr>br_table := table\<rparr>"
          by (simp_all add: on_flow_readable_def t)
        with b keys show ?thesis by simp
      next
        case (Some f)
        with r \<open>so = Some s\<close> Datagram flows(3) have "i = IngressToFacade f" "b' = b\<lparr>br_table := table\<rparr>"
          by (simp_all add: on_flow_readable_def t)
        with b keys built_datagram_to [OF Some pre] show ?thesis by simp
      qed
    next
      case ConnectionRefused
      with r Some flows(3) obtain x where
        "i = ToFacadeAndEvict (build_dest_unreachable (fk_synthetic key) kennel CODE_PORT_UNREACHABLE x)"
        "b' = b\<lparr>br_table := table\<rparr>"
        by (simp add: on_flow_readable_def t Let_def) metis
      with b keys built_error_to(2) [OF pre, of x] show ?thesis by simp
    next
      case RecvError
      with r Some have "i = IngressNothing" "b' = b\<lparr>br_table := table\<rparr>" by (simp_all add: on_flow_readable_def t)
      with b keys show ?thesis by simp
    qed
  qed
qed

section \<open>The loop\<close>

definition tokens_ok :: "Loop \<Rightarrow> bool" where
  "tokens_ok l \<longleftrightarrow> (\<forall>t k. lo_token_key l t = Some k \<longleftrightarrow> lo_key_token l k = Some t)
     \<and> (\<forall>t k. lo_token_key l t = Some k \<longrightarrow> 0 < t \<and> t < lo_next_token l)"

definition flow_keys :: "Loop \<Rightarrow> FlowKey set" where
  "flow_keys l = keys_of (br_table (lo_broker l))"

definition loop_ok :: "(nat \<Rightarrow> IpAddr \<times> u16) \<Rightarrow> Ipv6Addr \<Rightarrow> Allowlist \<Rightarrow> nat \<Rightarrow> Loop \<Rightarrow> bool" where
  "loop_ok peer kennel rules cap l \<longleftrightarrow> broker_ok peer kennel rules cap (lo_broker l)
     \<and> list_all (to_workload kennel) (lo_to_facade l) \<and> list_all (\<lambda>(s, _). granted_peer rules (peer s)) (lo_sent l)
     \<and> 0 < lo_next_token l
     \<and> (lo_next_token l < u64_max \<longrightarrow> tokens_ok l \<and> dom (lo_key_token l) = flow_keys l)"

lemma release_token_eqs [simp]:
  "lo_broker (release_token k l) = lo_broker l" "lo_to_facade (release_token k l) = lo_to_facade l"
  "lo_sent (release_token k l) = lo_sent l" "lo_next_token (release_token k l) = lo_next_token l"
  "dom (lo_key_token (release_token k l)) = dom (lo_key_token l) - {k}"
  by (auto simp: release_token_def split: option.splits)

lemma release_pair:
  fixes f :: "'a \<rightharpoonup> 'b" and g :: "'b \<rightharpoonup> 'a"
  assumes m: "\<And>t k. f t = Some k \<longleftrightarrow> g k = Some t" and "g k = Some t"
  shows "(f(t := None)) t' = Some k' \<longleftrightarrow> (g(k := None)) k' = Some t'"
proof (cases "t' = t")
  case True
  with assms(2) m [of t k] m [of t k'] show ?thesis by auto
next
  case False
  with assms(2) m [of t' k'] show ?thesis by auto
qed

lemma insert_pair:
  fixes f :: "'a \<rightharpoonup> 'b" and g :: "'b \<rightharpoonup> 'a"
  assumes m: "\<And>t k. f t = Some k \<longleftrightarrow> g k = Some t" and "f t = None" "g k = None"
  shows "(f(t \<mapsto> k)) t' = Some k' \<longleftrightarrow> (g(k \<mapsto> t)) k' = Some t'"
  using m [of t' k'] assms(2,3) by auto

lemma release_token_ok:
  assumes "tokens_ok l"
  shows "tokens_ok (release_token k l)"
proof (cases "lo_key_token l k")
  case None
  with assms show ?thesis by (simp add: release_token_def)
next
  case (Some t)
  from assms have m: "\<And>t k. lo_token_key l t = Some k \<longleftrightarrow> lo_key_token l k = Some t"
    and b: "\<And>t k. lo_token_key l t = Some k \<Longrightarrow> 0 < t \<and> t < lo_next_token l"
    by (auto simp: tokens_ok_def)
  have "((lo_token_key l)(t := None)) t' = Some k' \<longleftrightarrow> ((lo_key_token l)(k := None)) k' = Some t'" for t' k'
    using m Some by (rule release_pair)
  moreover have "((lo_token_key l)(t := None)) t' = Some k' \<longrightarrow> 0 < t' \<and> t' < lo_next_token l" for t' k'
    using b [of t' k'] by simp
  ultimately show ?thesis unfolding tokens_ok_def release_token_def by (simp add: Some del: fun_upd_apply)
qed

lemma release_tokens:
  "lo_broker (fold release_token ks l) = lo_broker l" "lo_to_facade (fold release_token ks l) = lo_to_facade l"
  "lo_sent (fold release_token ks l) = lo_sent l" "lo_next_token (fold release_token ks l) = lo_next_token l"
  "dom (lo_key_token (fold release_token ks l)) = dom (lo_key_token l) - set ks"
  "tokens_ok l \<Longrightarrow> tokens_ok (fold release_token ks l)"
  by (induction ks arbitrary: l) (auto simp: release_token_ok)

lemma tokens_ok_cong:
  "lo_token_key l' = lo_token_key l \<Longrightarrow> lo_key_token l' = lo_key_token l \<Longrightarrow> lo_next_token l \<le> lo_next_token l' \<Longrightarrow>
   tokens_ok l \<Longrightarrow> tokens_ok l'"
  by (fastforce simp: tokens_ok_def)

lemma add_token:
  assumes "tokens_ok l" "lo_key_token l key = None" "0 < lo_next_token l"
  shows "tokens_ok (l\<lparr>lo_token_key := (lo_token_key l)(lo_next_token l \<mapsto> key),
    lo_key_token := (lo_key_token l)(key \<mapsto> lo_next_token l), lo_next_token := lo_next_token l + 1\<rparr>)"
proof -
  from assms(1) have m: "\<And>t k. lo_token_key l t = Some k \<longleftrightarrow> lo_key_token l k = Some t"
    and b: "\<And>t k. lo_token_key l t = Some k \<Longrightarrow> 0 < t \<and> t < lo_next_token l"
    unfolding tokens_ok_def by blast+
  have "lo_token_key l (lo_next_token l) = None"
    by (cases "lo_token_key l (lo_next_token l)") (auto dest: b)
  note pair = insert_pair [OF m this assms(2)]
  have "((lo_token_key l)(lo_next_token l \<mapsto> key)) t = Some k \<longrightarrow> 0 < t \<and> t < lo_next_token l + 1" for t k
    using b [of t k] assms(3) by (auto simp: less_Suc_eq)
  with pair show ?thesis unfolding tokens_ok_def by (simp del: fun_upd_apply)
qed

lemma loop_new_ok: "loop_ok peer kennel rules (ce_max_flows c) (Loop_new (Broker_new kennel rules c now))"
proof -
  have "be_bytes 16 2 = replicate 15 0 @ [2 :: u8]" by code_simp
  then have "prefix64 (suffix_addr (prefix64 kennel) RESOLVER_HOST) = prefix64 kennel"
    by (simp add: prefix64_def suffix_addr_def octets_v6_from RESOLVER_HOST_def)
  then show ?thesis
    by (simp add: loop_ok_def Loop_new_def Broker_new_def Let_def broker_ok_def pool_in_def Pool_new_def table_ok_def
        FlowTable_new_def flows_in_def tokens_ok_def flow_keys_def keys_of_def prefix64_def)
qed

lemma admit_in:
  assumes "flows_in prefix peer rules t" "admit t key s now = Inr t'" "prefix64 (fk_synthetic key) = prefix"
    "granted_peer rules (peer s)" "snd (peer s) = fk_dst_port key"
  shows "flows_in prefix peer rules t' \<and> ft_max_flows t' = ft_max_flows t
    \<and> keys_of t' = insert key (keys_of t)"
proof -
  from assms(2) have t': "t' = t\<lparr>ft_flows := AList.update key \<lparr>fl_socket = s, fl_last_seen = now\<rparr> (ft_flows t)\<rparr>"
    by (auto simp: admit_def split: if_splits)
  have "flows_in prefix peer rules t'"
    using assms set_update [of key "\<lparr>fl_socket = s, fl_last_seen = now\<rparr>" "ft_flows t"] by (fastforce simp: flows_in_def t')
  then show ?thesis by (simp add: keys_of_def t' dom_map_of_conv_image_fst [symmetric] update_conv')
qed

lemma loop_facade_ok:
  assumes env: "connects_to peer env" and ok: "loop_ok peer kennel rules cap l"
  shows "loop_ok peer kennel rules cap (loop_facade env l frame now)"
proof -
  obtain e b sent where r: "on_egress env (lo_broker l) (take FACADE_CAP frame) now = (e, b, sent)" by (metis prod_cases3)
  define l1 where "l1 = l\<lparr>lo_broker := b, lo_sent := lo_sent l @ sent\<rparr>"
  have bo: "broker_ok peer kennel rules cap (lo_broker l)" using ok by (simp add: loop_ok_def)
  note eg = on_egress_ok [OF env bo r]
  have l1: "loop_ok peer kennel rules cap l1"
    using ok eg tokens_ok_cong [of l1 l] by (auto simp: loop_ok_def l1_def flow_keys_def list_all_iff)
  show ?thesis
  proof (cases e)
    case (NewFlow key s)
    define l2 where "l2 = l1\<lparr>lo_next_token := sat_add u64_max (lo_next_token l1) 1\<rparr>"
    have l2: "loop_ok peer kennel rules cap l2"
      using l1 tokens_ok_cong [of l2 l1] by (auto simp: loop_ok_def l2_def flow_keys_def sat_add_def u64_max_def split: if_splits)
    show ?thesis
    proof (cases "be_poll_add env s (lo_next_token l1) \<and> admit (br_table b) key s now \<noteq> Inl AtCapacity")
      case True
      then obtain table where a: "admit (br_table b) key s now = Inr table"
        by (cases "admit (br_table b) key s now") (auto intro: AtCapacity.exhaust)
      define l3 where "l3 = l2\<lparr>lo_broker := b\<lparr>br_table := table\<rparr>,
        lo_token_key := (lo_token_key l1)(lo_next_token l1 \<mapsto> key), lo_key_token := (lo_key_token l1)(key \<mapsto> lo_next_token l1)\<rparr>"
      have l3': "loop_facade env l frame now = l3"
        using True a NewFlow r by (simp add: loop_facade_def Let_def l3_def l2_def l1_def)
      have "flows_in (prefix64 kennel) peer rules (br_table b)" "table_ok (br_table b)"
        using eg by (auto simp: broker_ok_def)
      with admit_in [OF _ a] admit_ok [OF _ a] eg NewFlow
      have bo': "broker_ok peer kennel rules cap (b\<lparr>br_table := table\<rparr>)" and
        keys: "keys_of table = insert key (keys_of (br_table b))"
        by (auto simp: broker_ok_def)
      from eg NewFlow have "map_of (ft_flows (br_table b)) key = None" by simp
      then have "key \<notin> keys_of (br_table b)" by (simp add: map_of_eq_None_iff keys_of_def)
      then have nk: "key \<notin> flow_keys l1" by (simp add: flow_keys_def l1_def)
      have "tokens_ok l3 \<and> dom (lo_key_token l3) = flow_keys l3" if "lo_next_token l3 < u64_max"
      proof -
        from that l1 have n: "lo_next_token l3 = lo_next_token l1 + 1" "lo_next_token l1 < u64_max" "0 < lo_next_token l1"
          by (auto simp: l3_def l2_def sat_add_def loop_ok_def split: if_splits)
        with l1 have t1: "tokens_ok l1" "dom (lo_key_token l1) = flow_keys l1" by (auto simp: loop_ok_def)
        with nk have "lo_key_token l1 key = None" by auto
        with add_token [OF t1(1), of key] n have "tokens_ok l3"
          by (intro tokens_ok_cong [OF _ _ _ add_token [OF t1(1), of key]]) (simp_all add: l3_def)
        with t1 keys show ?thesis by (auto simp: l3_def l2_def flow_keys_def l1_def)
      qed
      with bo' l2 show ?thesis unfolding l3' by (simp add: loop_ok_def l3_def)
    next
      case False
      then have "loop_facade env l frame now = l2"
        using NewFlow r by (auto simp: loop_facade_def Let_def l2_def l1_def split: sum.splits AtCapacity.splits)
      with l2 show ?thesis by simp
    qed
  next
    case (EgressToFacade f)
    with eg have "to_workload kennel f" by simp
    with l1 EgressToFacade show ?thesis
      by (auto simp: loop_facade_def r l1_def loop_ok_def flow_keys_def tokens_ok_def)
  qed (use l1 in \<open>simp add: loop_facade_def r l1_def\<close>)
qed

lemma shrink_ok:
  assumes "broker_ok peer kennel rules cap b" "table_ok t" "ft_max_flows t = ft_max_flows (br_table b)"
    "set (ft_flows t) \<subseteq> set (ft_flows (br_table b))"
  shows "broker_ok peer kennel rules cap (b\<lparr>br_table := t\<rparr>)"
  using assms unfolding broker_ok_def flows_in_def by auto

lemma loop_flow_ok:
  assumes ok: "loop_ok peer kennel rules cap l"
  shows "loop_ok peer kennel rules cap (loop_flow l token received now)"
proof (cases "lo_token_key l token")
  case None
  with ok show ?thesis by (simp add: loop_flow_def)
next
  case (Some key)
  obtain i b where r: "on_flow_readable (lo_broker l) key received now = (i, b)" by fastforce
  have bo: "broker_ok peer kennel rules cap (lo_broker l)" using ok by (simp add: loop_ok_def)
  note fl = on_flow_readable_ok [OF bo r]
  define l1 where "l1 = l\<lparr>lo_broker := b\<rparr>"
  have l1: "loop_ok peer kennel rules cap l1"
    using ok fl tokens_ok_cong [of l1 l] by (simp add: loop_ok_def l1_def flow_keys_def)
  show ?thesis
  proof (cases i)
    case IngressNothing
    with l1 Some r show ?thesis by (simp add: loop_flow_def l1_def)
  next
    case (IngressToFacade f)
    with fl have "to_workload kennel f" by simp
    with l1 IngressToFacade Some r show ?thesis
      by (simp add: loop_flow_def l1_def loop_ok_def flow_keys_def tokens_ok_def)
  next
    case (ToFacadeAndEvict f)
    define t where "t = snd (remove_flow (br_table b) key)"
    define l2 where "l2 = l1\<lparr>lo_to_facade := lo_to_facade l1 @ [f], lo_broker := b\<lparr>br_table := t\<rparr>\<rparr>"
    have e: "loop_flow l token received now = release_token key l2"
      using ToFacadeAndEvict Some r by (simp add: loop_flow_def l2_def l1_def t_def Let_def)
    have "broker_ok peer kennel rules cap (b\<lparr>br_table := t\<rparr>)"
      using fl remove_ok [of "br_table b" key] set_delete [of key "ft_flows (br_table b)"]
      by (intro shrink_ok) (auto simp: t_def remove_flow_def broker_ok_def)
    moreover have "keys_of t = keys_of (br_table b) - {key}"
      by (simp add: t_def remove_flow_def keys_of_def dom_map_of_conv_image_fst [symmetric] delete_conv' dom_fun_upd)
    moreover have "tokens_ok l2 = tokens_ok l1" by (simp add: tokens_ok_def l2_def)
    ultimately show ?thesis
      using l1 fl ToFacadeAndEvict release_token_ok [of l2 key]
      unfolding e loop_ok_def flow_keys_def by (simp add: l2_def l1_def)
  qed
qed

lemma loop_sweep_ok:
  assumes ok: "loop_ok peer kennel rules cap l"
  shows "loop_ok peer kennel rules cap (loop_sweep l now)"
proof -
  let ?t = "br_table (lo_broker l)"
  define ks where "ks = expired ?t now"
  define t where "t = snd (sweep ?t now)"
  define l1 where "l1 = l\<lparr>lo_broker := (lo_broker l)\<lparr>br_table := t\<rparr>\<rparr>"
  have e: "loop_sweep l now = fold release_token ks l1"
    by (simp add: loop_sweep_def sweep_def l1_def t_def ks_def)
  have bo: "broker_ok peer kennel rules cap (lo_broker l)" using ok by (simp add: loop_ok_def)
  then have "broker_ok peer kennel rules cap ((lo_broker l)\<lparr>br_table := t\<rparr>)"
    using sweep_ok [of ?t now] set_fold_delete [of "expired ?t now" "ft_flows ?t"]
    by (intro shrink_ok) (auto simp: t_def sweep_def broker_ok_def)
  moreover have "keys_of t = keys_of ?t - set ks"
    by (auto simp: t_def sweep_def keys_of_def dom_map_of_conv_image_fst [symmetric] map_of_fold_delete ks_def dom_def)
  moreover have "tokens_ok l1 = tokens_ok l" by (simp add: tokens_ok_def l1_def)
  ultimately show ?thesis
    using ok release_tokens(6) [of l1 ks]
    unfolding e loop_ok_def flow_keys_def release_tokens(1-5) by (simp add: l1_def)
qed

lemma run_ok:
  assumes "reach (run_start kennel rules c) (run_step peer) l"
  shows "loop_ok peer kennel rules (ce_max_flows c) l"
  using assms
proof (induction rule: reach_invariant)
  case (init l)
  then show ?case by (auto simp: run_start_def loop_new_ok)
next
  case (step l l')
  from step(2,3) show ?case
    by (cases rule: run_step.cases) (auto intro: loop_facade_ok loop_flow_ok loop_sweep_ok)
qed

section \<open>A session of one flow\<close>

definition udp_demo_env :: BrokerEnv where
  "udp_demo_env = \<lparr>be_resolve = (\<lambda>_. Inr [(V4 0x08080808, 0)]), be_bind = (\<lambda>_. Inr 7),
     be_connect = (\<lambda>s dst. if dst = (V4 0x08080808, 443) then Inr s else Inl ErrNotFound),
     be_dns_parse = (\<lambda>_. Some \<lparr>dp_id = 1, dp_questions = [\<lparr>dq_name = ''a'', dq_type = QTYPE_AAAA\<rparr>]\<rparr>),
     be_dns_build = (\<lambda>_. None), be_poll_add = (\<lambda>_ _. True)\<rparr>"

definition udp_demo_peer :: "nat \<Rightarrow> IpAddr \<times> u16" where "udp_demo_peer s = (V4 0x08080808, 443)"

definition udp_demo_rules :: Allowlist where
  "udp_demo_rules = [\<lparr>nm_name = ''a'', nm_ports = [443], nm_protocol = ProtoUdp\<rparr>]"

definition udp_demo_start :: Loop where
  "udp_demo_start = Loop_new (Broker_new 0x1 udp_demo_rules session_ceilings 0)"

definition udp_demo_frame :: "Ipv6Addr \<Rightarrow> bytes" where
  "udp_demo_frame dst = ipv6_frame NEXT_UDP 10 0x1 dst ([0x10, 0, 0x01, 0xbb, 0, 10, 0, 0] @ [5, 6])"

definition udp_demo_end :: Loop where
  "udp_demo_end = loop_facade udp_demo_env (loop_facade udp_demo_env udp_demo_start (udp_demo_frame 0x2) 0) (udp_demo_frame 0x10) 0"

definition udp_demo_key :: FlowKey where
  "udp_demo_key = \<lparr>fk_synthetic = 0x10, fk_dst_port = 443, fk_src_port = 4096\<rparr>"

lemma udp_demo_frame_reads:
  "get_at (udp_demo_frame d) 6 = Some NEXT_UDP" "get_range (udp_demo_frame d) 24 40 = Some (v6_octets d)"
  "get_range (udp_demo_frame d) 40 42 = Some [0x10, 0]" "get_range (udp_demo_frame d) 42 44 = Some [0x01, 0xbb]"
  "get_from (udp_demo_frame d) 48 = Some [5, 6]" "take FACADE_CAP (udp_demo_frame d) = udp_demo_frame d"
  by (simp_all add: udp_demo_frame_def ipv6_frame_def get_at_def get_range_def get_from_def nth_append FACADE_CAP_def)

lemma udp_demo_addrs: "suffix_addr (prefix64 0x1) 2 = 0x2" "synthetic (prefix64 0x1) 16 = 0x10"
  by code_simp+

lemma udp_demo_match: "name_matches ''a'' ''a''" by code_simp

lemma udp_demo_pool:
  "pool_mint (Pool_new (prefix64 0x1)) ''a'' 0 {} = (Some 0x10, \<lparr>po_prefix = prefix64 0x1, po_next_host = 17,
    po_mapping = [(''a'', \<lparr>mi_addr = 0x10, mi_grant = 0, mi_last_use = 1\<rparr>)], po_per_grant = [(0, 1)], po_tick = 1\<rparr>)"
  by (simp add: pool_mint_def Pool_new_def FIRST_POOL_HOST_def sat_add_def u64_max_def MAX_POOL_def
      MAX_PER_GRANT_def grant_count_def insert_mint_def Let_def udp_demo_addrs)

lemma udp_demo_first: "loop_facade udp_demo_env udp_demo_start (udp_demo_frame 0x2) 0 =
   udp_demo_start\<lparr>lo_broker := (lo_broker udp_demo_start)\<lparr>br_pool := snd (pool_mint (Pool_new (prefix64 0x1)) ''a'' 0 {})\<rparr>\<rparr>"
  by (simp add: loop_facade_def udp_demo_frame_reads on_egress_def is_udp_to_def route_synthetic_def udp_demo_start_def
    Loop_new_def Broker_new_def Let_def RESOLVER_HOST_def udp_demo_addrs on_query_def udp_payload_and_src_port_def
    respond_def udp_demo_env_def first_match_def udp_demo_rules_def udp_demo_match live_synthetics_def FlowTable_new_def split: prod.splits)

lemma udp_demo_not_resolver: "(0x10 :: Ipv6Addr) \<noteq> 0x2" by simp

lemma udp_demo_ports: "u16_of_be [0x10, 0] = 4096" "u16_of_be [0x01, 0xbb] = 443" by code_simp+

lemma udp_demo_dial: "dial udp_demo_env udp_demo_rules ''a'' 443 = Inr 7"
proof -
  have "\<not> is_nonroutable_egress (V4 0x08080808)" by (simp add: v4_class_iffs)
  then show ?thesis
    by (simp add: dial_def allows_def udp_demo_rules_def udp_demo_match port_permitted_def udp_resolve_def udp_demo_env_def Let_def connect_udp_def)
qed

lemma udp_demo_sent: "lo_sent udp_demo_end = [(7, [5, 6])]" "length (ft_flows (br_table (lo_broker udp_demo_end))) = 1"
  "lo_next_token udp_demo_end = 2" "lo_token_key udp_demo_end 1 = Some udp_demo_key"
  unfolding udp_demo_end_def udp_demo_first udp_demo_pool
  by (simp_all add: loop_facade_def udp_demo_frame_reads on_egress_def is_udp_to_def route_synthetic_def udp_demo_start_def
    Loop_new_def Broker_new_def Let_def RESOLVER_HOST_def udp_demo_addrs route_def IPV6_HEADER_def name_of_def be16_def
    SRC_PORT_def DST_PORT_def PAYLOAD_def udp_demo_ports udp_demo_dial touch_def FlowTable_new_def try_take_def refill_def credit_def
    TokenBucket_new_def session_ceilings_def NEW_FLOW_PER_SEC_def NEW_FLOW_BURST_def as_millis_def sat_mul_def admit_def MAX_FLOWS_def udp_demo_key_def
    sat_add_def u64_max_def udp_demo_env_def [THEN arg_cong, of be_poll_add])

lemma udp_demo_reach: "reach (run_start 0x1 udp_demo_rules session_ceilings) (run_step udp_demo_peer) udp_demo_end"
proof -
  have env: "connects_to udp_demo_peer udp_demo_env" by (simp add: connects_to_def udp_demo_peer_def udp_demo_env_def)
  have "reach (run_start 0x1 udp_demo_rules session_ceilings) (run_step udp_demo_peer) udp_demo_start"
    by (rule reach_init) (auto simp: run_start_def udp_demo_start_def)
  then have "reach (run_start 0x1 udp_demo_rules session_ceilings) (run_step udp_demo_peer)
      (loop_facade udp_demo_env udp_demo_start (udp_demo_frame 0x2) 0)"
    by (rule reach_step) (rule facade_ready [OF env])
  then show ?thesis unfolding udp_demo_end_def by (rule reach_step) (rule facade_ready [OF env])
qed

section \<open>Properties\<close>

text \<open>C18. Whatever the workload sends, the resolver answers and the peers reply, in any order of events: every
  datagram the session sends goes to a socket connected to a granted port, never 53 or 5353, at an
  address outside the non-routable ranges; no more flows are open than the cap; and every frame handed
  back passes the facade's ingress check.\<close>

theorem udp_session_confined:
  assumes "reach (run_start kennel rules c) (run_step peer) l"
  shows "length (ft_flows (br_table (lo_broker l))) \<le> ce_max_flows c
    \<and> list_all (\<lambda>f. ingress_ok f kennel (prefix64 kennel)) (lo_to_facade l)
    \<and> list_all (\<lambda>(s, payload). \<exists>name ip port. peer s = (ip, port) \<and> allows rules name port
         \<and> port \<noteq> 53 \<and> port \<noteq> 5353 \<and> \<not> is_nonroutable_egress ip) (lo_sent l)"
proof -
  from run_ok [OF assms] have b: "broker_ok peer kennel rules (ce_max_flows c) (lo_broker l)"
    and f: "list_all (to_workload kennel) (lo_to_facade l)"
    and s: "list_all (\<lambda>(s, _). granted_peer rules (peer s)) (lo_sent l)"
    unfolding loop_ok_def by blast+
  from b have "length (ft_flows (br_table (lo_broker l))) \<le> ce_max_flows c" by (simp add: broker_ok_def table_ok_def)
  moreover from f have "list_all (\<lambda>f. ingress_ok f kennel (prefix64 kennel)) (lo_to_facade l)"
    by (simp add: to_workload_def [abs_def])
  moreover from s have "list_all (\<lambda>(s, payload). \<exists>name ip port. peer s = (ip, port) \<and> allows rules name port
         \<and> port \<noteq> 53 \<and> port \<noteq> 5353 \<and> \<not> is_nonroutable_egress ip) (lo_sent l)"
    by (rule list.pred_mono_strong) (auto dest: granted_peerD)
  ultimately show ?thesis by blast
qed

theorem udp_session_confined_witness:
  "lo_sent udp_demo_end = [(7, [5, 6])] \<and> length (ft_flows (br_table (lo_broker udp_demo_end))) \<le> 512"
  using udp_session_confined [OF udp_demo_reach] udp_demo_sent by (simp add: session_ceilings_def MAX_FLOWS_def)

text \<open>In every reachable state of a session that has used fewer than \<open>2^64 - 1\<close> tokens the two token maps are
  inverse to each other and hold exactly the flows of the table, so an event is never delivered to a
  flow that is gone and no token outlives its flow.\<close>

theorem udp_tokens_exact:
  assumes "reach (run_start kennel rules c) (run_step peer) l" "lo_next_token l < u64_max"
  shows "(lo_token_key l t = Some k \<longleftrightarrow> lo_key_token l k = Some t)
    \<and> (lo_key_token l k \<noteq> None \<longleftrightarrow> map_of (ft_flows (br_table (lo_broker l))) k \<noteq> None)"
proof -
  from run_ok [OF assms(1)] assms(2) have t: "tokens_ok l" "dom (lo_key_token l) = flow_keys l"
    by (auto simp: loop_ok_def)
  have "lo_key_token l k \<noteq> None \<longleftrightarrow> k \<in> flow_keys l" using t(2) by blast
  also have "\<dots> \<longleftrightarrow> map_of (ft_flows (br_table (lo_broker l))) k \<noteq> None"
    by (simp add: flow_keys_def keys_of_def map_of_eq_None_iff)
  finally show ?thesis using t(1) unfolding tokens_ok_def by blast
qed

theorem udp_tokens_exact_witness:
  "lo_key_token udp_demo_end udp_demo_key = Some 1 \<and> map_of (ft_flows (br_table (lo_broker udp_demo_end))) udp_demo_key \<noteq> None"
  using udp_tokens_exact [OF udp_demo_reach, of 1 udp_demo_key] udp_demo_sent by (simp add: u64_max_def)

text \<open>The dial's address filter looks at the address as given: loopback written as an IPv4-mapped IPv6 address
  passes it, so a granted name that resolves there is dialled.\<close>

lemma mapped_loopback_dialled:
  assumes "allows rules name port" "port \<noteq> 53" "port \<noteq> 5353"
    "be_resolve env name = Inr [(V6 0xffff7f000001, 0)]"
  shows "dial env rules name port =
    (case connect_udp (be_bind env) (be_connect env) (V6 0xffff7f000001) port of Inr s \<Rightarrow> Inr s | Inl e \<Rightarrow> Inl (Dial e))"
proof -
  have "\<not> is_nonroutable_egress (V6 0xffff7f000001)" by (simp add: v6_class_iffs)
  with assms show ?thesis by (simp add: dial_def udp_resolve_def Let_def split: sum.splits)
qed

end
