(* ===== verification/Spec2Isabelle.thy ===== *)
theory Spec2Isabelle
  imports Base64 Binder_Service Bpf_Acl Btree_Map Egress_Allow Egress_Conduit Egress_Inet Egress_Service Flow_Table Host_Gate Ip_Parse Kennel_Prelude Kennel_Registry Name_Match Net_Addr Policy_Invariant Policy_Verify Priv_Addr Priv_Wire Rate_Limit Rust_Fmt Rust_Path Rust_Text Settled Source_Check Source_Compile Source_Effective Source_Fold Source_Policy Source_Resolve Spawn_Concurrency Spawn_Gate Spawn_Patch Spawn_Plan Sshsig Transition_System Tun_Broker Tun_Shim Tun_Wire Wire_Codec
begin

text \<open>
  \<^bold>\<open>Project Kennel.\<close>  The program runs untrusted workloads (coding agents and the tools they spawn) in
  confined environments called kennels.  An operator writes a \<^emph>\<open>source policy\<close>; the compiler composes it with
  signed templates and fragments and signs the result, the \<^emph>\<open>settled policy\<close>; the daemon \<open>kenneld\<close> verifies
  a settled policy, derives an enforcement plan from it, brings the kennel up through a privileged helper, and
  afterwards answers the requests of the workload: network connections, capability lookups, spawning further
  kennels from templates the policy pins.  UDP traffic passes through a per-kennel flow broker, TCP through a
  dial delegate; a kennel that shares the host's network is confined by BPF programs instead.  The theories
  follow that path.  All file names below are relative to \<open>src/src/crates\<close>, those of the BPF programs to \<open>src/src/bpf\<close>.

  \<^bold>\<open>Shared vocabulary.\<close>  \<open>Kennel_Prelude\<close> has the machine integers as words, bounds-checked slice reads, byte orders,
  saturating arithmetic and the result combinators (\<open>and_then\<close> is \<open>?\<close>, an error is \<open>Inl\<close>).  \<open>Rust_Text\<close>, \<open>Rust_Fmt\<close>,
  \<open>Rust_Path\<close> and \<open>Ip_Parse\<close> are the parts of the Rust standard library the code calls: strings as UTF-8 bytes,
  number formatting, path components, address literals.  \<open>Btree_Map\<close> and \<open>Transition_System\<close> give ordered maps with
  their contracts as locales, and reachability with the invariant rule.  \<open>Wire_Codec\<close> is the contract of a wire
  format: \<open>wire_codec\<close> reads back what was written, \<open>canonical_codec\<close> moreover accepts nothing else.

  \<^bold>\<open>The compiler\<close> (\<open>kennel-lib-compile\<close>).  \<open>Source_Policy\<close> has the sections of a source policy (\<open>source.rs\<close>), with list
  fields that replace (\<open>ListSet\<close>) or increment (\<open>ListDelta\<close>) what is inherited.  \<open>Source_Check\<close> has the checks of one
  artefact (\<open>SourcePolicy::validate\<close>) and the additive test of a fragment.  \<open>Source_Fold\<close> has the fold of a child over
  its parent, section by section, with its warnings (\<open>resolve.rs\<close>).  \<open>Source_Resolve\<close> has trust and source signatures
  (\<open>source_sig.rs\<close>), the walk up the inheritance chain, fragments, \<open>effective_source\<close> and the lock file.  The walk is a
  loop that follows names supplied by files, so it is a \<open>partial_function\<close>; that it returns, also on cyclic files, is a
  theorem (its bound is the sixteen of the code).  The locale \<open>policy_floor\<close> states what a fold must keep, and is
  interpreted for the denied executables, variables, system calls, socket families and invariant networks;
  \<open>policy_ceiling\<close> bounds what a fold can introduce, and is interpreted for the bus rules; \<open>section_fold\<close> is the type of
  list fields, lifted to optional sections.  \<open>Source_Effective\<close> proves the properties of the composition from bytes to
  effective policy.  \<open>Source_Compile\<close> has the checks between resolution and translation (\<open>ssh.rs\<close>, \<open>unix.rs\<close>, \<open>mesh.rs\<close>,
  \<open>dev.rs\<close>, \<open>identity.rs\<close>), the reserved-namespace gate and the pinning of spawn targets (\<open>spawn.rs\<close>).

  \<^bold>\<open>The settled policy\<close> (\<open>kennel-lib-policy\<close>).  \<open>Settled\<close> has its records and enums, \<open>Name_Match\<close> destination names,
  \<open>Net_Addr\<close> the special-use classification, \<open>Policy_Invariant\<close> the framework invariants, \<open>Spawn_Patch\<close> the constraint
  manifest, patches and instantiation, \<open>Base64\<close> and \<open>Sshsig\<close> the signature envelope, \<open>Policy_Verify\<close> the gate a policy
  passes before it is used.  Acceptance is characterised by an equivalence in which the signature is the one
  the envelope carries; what is signed is accepted; and what a patch can cost an instance is stated exactly.

  \<^bold>\<open>Network decisions of the daemon\<close> (\<open>kenneld/src/inet\<close>, \<open>kennel-host-delegate\<close>).  \<open>Egress_Allow\<close> has CIDR and name rules,
  \<open>Egress_Inet\<close> the decision with resolution, \<open>Binder_Service\<close> the request and reply codecs, \<open>Egress_Conduit\<close> the dial
  command and the delegate, \<open>Egress_Service\<close> the verb from the workload's bytes to the connection attempted.

  \<^bold>\<open>UDP\<close> (\<open>kennel-tun-broker\<close>, \<open>kennel-facade/src/tun.rs\<close>).  \<open>Tun_Wire\<close> has frames and checksums, \<open>Flow_Table\<close> the flow table,
  \<open>Tun_Shim\<close> the naming shim with its pool of synthetic addresses, \<open>Rate_Limit\<close> the token buckets with their contract as a
  locale, \<open>Tun_Broker\<close> the event loop as a step relation with its invariant.

  \<^bold>\<open>Spawning and the registry\<close> (\<open>kenneld/src/spawn.rs\<close>, \<open>server.rs\<close>, \<open>ctx.rs\<close>, \<open>cgroup.rs\<close>).  \<open>Kennel_Registry\<close> has contexts,
  names and the reaper; \<open>Spawn_Gate\<close> the \<open>SPAWN\<close> verb with its slot account; \<open>Spawn_Concurrency\<close> the compare-and-swap loop
  and the race between construction and teardown as interleavings of atomic steps.  The loop refines an atomic grant of
  slots: its event traces are traces of the specification, refusals included.  In the race every kill has an outcome,
  because the daemon logs a failed kill and goes on; the property names it as the one way a child can remain.

  \<^bold>\<open>Enforcement\<close> (\<open>kennel-lib-spawn/src/plan.rs\<close>, \<open>kennel-privhelper\<close>, the BPF programs).  \<open>Spawn_Plan\<close> derives mounts, Landlock
  rules, system-call filters and limits; \<open>Priv_Addr\<close> and \<open>Priv_Wire\<close> are the helper's address check and messages; \<open>Bpf_Acl\<close>
  has the map contents and the programs, \<open>Host_Gate\<close> the whole path from the policy to the decision of a hook.  The
  kernel's longest-prefix trie is a parameter with its documented law; integers in maps and messages are
  little-endian, as on the machines the BPF objects are built for.

  \<^bold>\<open>This theory\<close> ties the compiler to the daemon: a grant the compiler pins is honoured by the \<open>SPAWN\<close> verb, and a
  narrowing to no field is lost on the way.

  \<^bold>\<open>Parameters.\<close>  What other packages, the operating system or the kernel do is an argument: the TOML reader and writer,
  Ed25519 and SHA-512 (\<open>Crypto\<close>), the search path of templates, \<open>getaddrinfo\<close>, sockets and descriptors, the trie lookup,
  the DNS message codec, libc's system-call numbers, the path of the control socket.  Where a property relies on
  their behaviour the hypothesis states it (\<open>ed25519_correct\<close>, \<open>lpm_law\<close>) and the witness instantiates it.

  \<^bold>\<open>Bounds.\<close>  Loops over data are structural or have a measure.  The chain walk needs at most sixteen fetches.
  Machine integers are words wherever the code's arithmetic can wrap or saturate; lengths and indices are natural
  numbers, because a slice never exceeds \<open>isize::MAX\<close> bytes.  Time is a number of nanoseconds or milliseconds that steps
  choose freely, except that it does not decrease.

  \<^bold>\<open>Not modelled.\<close>  The translation of an effective policy to the settled form (\<open>translate.rs\<close>) and the reports of the
  compiler (\<open>risks.rs\<close>, \<open>diff.rs\<close>, \<open>lint.rs\<close>, \<open>threats.rs\<close>): the two ends of the translation are modelled, and the daemon
  re-asserts the invariants on what it reads.  The execution of a plan, the construction of namespaces and mounts, the
  workload's init and the system-call wrappers are sequences of system calls without decisions of their own.  The
  binder driver records, the SOCKS and HTTP front ends, the D-Bus message codec, the service catalogue, the audit sinks,
  the SSH bastion and the command line move bytes between processes or print.  The TOML syntax itself, generated
  schemas and key files belong to other packages or to the build.
\<close>

section \<open>From the compiled grant to the spawned kennel\<close>

text \<open>A policy that may spawn one template, and the store that holds its settled form.\<close>

definition demo_spawner :: SourcePolicy where
  "demo_spawner = empty_source\<lparr>src_spawn := Some \<lparr>ss_max_instances = Some 2, ss_reason = Some ''tools'',
     ss_allow = ListSet [\<lparr>sa_template = Some ''tool'', sa_mutable = Some [''fs.write'']\<rparr>]\<rparr>\<rparr>"

definition demo_settled :: SettledEnv where
  "demo_settled = \<lparr>te_fetch = (\<lambda>_. Some []), te_parse = (\<lambda>_. Inr (demo_doc work_template)), te_print = demo_print\<rparr>"

lemma demo_target:
  assumes "set narrow \<subseteq> set (map va_field (sp_manifest work_template))"
  shows "resolve_target site_env demo_settled (Trust_require demo_keys) ''tool'' \<lparr>sa_template = Some ''tool'', sa_mutable = Some narrow\<rparr>
    = Inr (demo_pin\<lparr>st_mutable_narrow := narrow\<rparr>)"
proof -
  have s: "check_schema_version (sp_schema_version work_template) = Inr ()" "validate work_template = Inr ()"
    using floor_policy_accepted by (simp_all add: work_template_def validate_ok_iff Let_def)
  define d where "d = demo_doc work_template"
  have d: "doc_policy d = work_template" "env_algorithm (doc_signature d) = SSHSIG_ALGORITHM"
      "env_key_id (doc_signature d) = ''site''"
    by (simp_all add: d_def demo_doc_def)
  have "verify_doc demo_crypto demo_print d demo_keys = Inr work_template"
    unfolding d_def using sign_settled_verifies [OF demo_laws(1,2,3) s] .
  then have "verify_settled demo_crypto (\<lambda>_. Inr d) demo_print [] demo_keys = Inr work_template"
    by (simp add: verify_settled_def and_then_def map_err_def)
  moreover have "parse_reference ''tool'' = Inr ''tool''"
    by (simp add: parse_reference_Inr_iff validate_ref_name_def ref_start_def)
  moreover have "find (\<lambda>f. f \<notin> set (map va_field (sp_manifest work_template))) narrow = None"
    using assms by (auto simp: find_None_iff)
  then have "check_narrowing ''tool'' \<lparr>sa_template = Some ''tool'', sa_mutable = Some narrow\<rparr> work_template = Inr ()"
    by (simp add: check_narrowing_def)
  ultimately show ?thesis using s(1) demo_eligible
    by (simp add: resolve_target_def and_then_def ok_or_def map_err_def demo_settled_def site_env_def Trust_require_def
        parse_signed_settled_unverified_def settled_trusted_def d d_def [symmetric] unwrap_or_def demo_pin_def)
qed

text \<open>C13. A compiled spawn grant is honoured: when signatures were required at compile time and the daemon finds
  under the reference the bytes the compiler pinned, a request for a granted template is never refused
  for its pin, its signature or its eligibility; only the patch decides, against the narrowing of the
  grant and the manifest of the template.\<close>

theorem compiled_grant_honoured:
  assumes "resolve_grant E T trust effective = Inr (Some (rt_grant rt))"
    and "tr_mode trust = Require" "tr_keys trust = Some (rt_keys rt)"
    and "spawn_decode_request data = Some (reference, pairs)"
    and "find (\<lambda>t. st_template t = reference) (sp_allow (rt_grant rt)) = Some pin"
    and "resolve_template (env_read env) (rt_template_dirs rt) reference = te_fetch T reference"
  shows "\<exists>template. spawn_eligible template = Inr ()
    \<and> set (st_mutable_narrow pin) \<subseteq> set (map va_field (sp_manifest template))
    \<and> validate_spawn \<lparr>tl_crypto = se_crypto E, tl_parse = te_parse T, tl_print = te_print T\<rparr> env rt data
      = and_then (map_err (deny status_DENIED) (build_patch pin pairs)) (\<lambda>entries.
          map_err (\<lambda>e. deny status_DENIED (RefusedPolicy (Patch e))) (instantiate template entries))"
proof -
  from assms(1) obtain spawn where sp: "src_spawn effective = Some spawn"
    by (cases "src_spawn effective") (simp_all add: resolve_grant_def)
  with assms(1) obtain allow where r: "resolve_targets E T trust (list_resolved (ss_allow spawn)) = Inr allow"
    and eq: "\<lparr>sp_max_instances = unwrap_or (ss_max_instances spawn) 0, sp_allow = allow\<rparr> = rt_grant rt"
    by (auto simp: resolve_grant_def and_then_Inr_iff)
  have g: "resolve_targets E T trust (list_resolved (ss_allow spawn)) = Inr (sp_allow (rt_grant rt))"
    by (simp add: r eq [symmetric])
  have pin: "pin \<in> set (sp_allow (rt_grant rt))" "st_template pin = reference"
    using assms(5) by (auto simp: find_Some_iff)
  from resolve_targets_pins [OF g pin(1)] obtain entry where
    "resolve_target E T trust reference entry = Inr pin" using pin(2) by auto
  then obtain bs template where t: "te_fetch T reference = Some bs" "spawn_eligible template = Inr ()"
      "verify_pinned (se_crypto E) (te_parse T) (te_print T) bs (rt_keys rt) (st_signing_key_id pin) (st_signature pin) = Inr template"
      "set (st_mutable_narrow pin) \<subseteq> set (map va_field (sp_manifest template))"
    using assms(2,3) by (rule resolve_target_pinned)
  show ?thesis
    using t(4) by (intro exI [of _ template]) (simp add: t(1-3) assms(4,5,6) validate_spawn_def and_then_def ok_or_def map_err_def)
qed

theorem compiled_grant_honoured_witness:
  "\<exists>template. spawn_eligible template = Inr () \<and> ''fs.write'' \<in> set (map va_field (sp_manifest template))"
proof -
  have "''fs.write'' \<in> set (map va_field (sp_manifest work_template))" by (simp add: work_template_def)
  then have g: "resolve_grant site_env demo_settled (Trust_require demo_keys) demo_spawner = Inr (Some (rt_grant demo_rt))"
    using demo_target [of "[''fs.write'']"]
    by (simp add: resolve_grant_def demo_spawner_def and_then_def demo_rt_def SpawnRuntime_new_def unwrap_or_def demo_pin_def)
  have "find (\<lambda>t. st_template t = ''tool'') (sp_allow (rt_grant demo_rt)) = Some demo_pin"
    by (simp add: demo_rt_def SpawnRuntime_new_def demo_pin_def)
  moreover have "tr_mode (Trust_require demo_keys) = Require" "tr_keys (Trust_require demo_keys) = Some (rt_keys demo_rt)"
    by (simp_all add: Trust_require_def demo_rt_def SpawnRuntime_new_def)
  moreover have "resolve_template (env_read demo_env) (rt_template_dirs demo_rt) ''tool'' = te_fetch demo_settled ''tool''"
    unfolding demo_resolved by (simp add: demo_settled_def)
  ultimately have "\<exists>template. spawn_eligible template = Inr ()
      \<and> set (st_mutable_narrow demo_pin) \<subseteq> set (map va_field (sp_manifest template))"
    using compiled_grant_honoured [OF g _ _ demo_decode] by blast
  then show ?thesis by (simp add: demo_pin_def)
qed

text \<open>C40. A grant narrowed to no field is a grant of every field: the compiler settles \<open>mutable = []\<close> as the empty
  list it also writes when nothing is narrowed, and the daemon passes every field of a patch on.\<close>

theorem empty_narrowing_lifted:
  assumes "resolve_target E T trust reference entry = Inr pin" "sa_mutable entry = Some []"
  shows "build_patch pin pairs = Inr (map (\<lambda>(f, v). \<lparr>pe_field = f, pe_value = v\<rparr>) pairs)"
proof -
  have "st_mutable_narrow pin = []"
    using assms by (auto simp: resolve_target_def and_then_Inr_iff unwrap_or_def)
  then show ?thesis by (induction pairs) (auto simp: and_then_def)
qed

theorem empty_narrowing_lifted_witness:
  "build_patch (demo_pin\<lparr>st_mutable_narrow := []\<rparr>) [(''fs.write'', ''sub/out'')] = Inr [\<lparr>pe_field = ''fs.write'', pe_value = ''sub/out''\<rparr>]"
  using empty_narrowing_lifted [OF demo_target [of "[]"], of "[(''fs.write'', ''sub/out'')]"] by simp

end
